(* ===== verification/Prelude.thy ===== *)
theory Prelude
  imports Main "HOL-Library.Word" "HOL-Library.Sublist"
begin

text \<open>
  Shared automation and generic facts of the development.  The collections below are filled by
  the component theories: \<open>go_defs\<close> holds the defining equations of the Go effect combinators,
  \<open>api_defs\<close> those of the wrappers of external calls, \<open>emits_rules\<close> the compositional rules for
  the footprint of an effectful function, \<open>starts_rules\<close> those for its first call,
  \<open>yields_rules\<close> those for functions that return or fail and never panic or hang, and \<open>ret_iffs\<close>
  the inversion of a successful run.  The generic lemmas are about lists, options, prefixes and
  words.
\<close>

named_theorems go_defs "defining equations of the effect combinators"
named_theorems api_defs "defining equations of the wrappers of external calls"
named_theorems emits_rules "footprint rules for effectful functions"
named_theorems starts_rules "rules for the first call of a function"
named_theorems yields_rules "rules for functions that return or fail"
named_theorems ret_iffs "inversion of a successful run"

section \<open>Abbreviations for the machine integers of Go\<close>

type_synonym int64 = "64 word"
type_synonym uint64 = "64 word"
type_synonym int32 = "32 word"

section \<open>Lists\<close>

lemma filter_last_snoc: "filter P (xs @ [x]) = filter P xs @ (if P x then [x] else [])"
  by simp

lemma last_filter_member: "filter P xs \<noteq> [] \<Longrightarrow> last (filter P xs) \<in> set xs \<and> P (last (filter P xs))"
  using last_in_set [of "filter P xs"] by simp

lemma takeWhile_no_occurrence: "c \<notin> set (takeWhile (\<lambda>x. x \<noteq> c) xs)"
  by (auto dest: set_takeWhileD)

lemma takeWhile_all_id: "c \<notin> set xs \<Longrightarrow> takeWhile (\<lambda>x. x \<noteq> c) xs = xs"
  by (auto simp: takeWhile_eq_all_conv)

lemma takeWhile_rev_append:
  "c \<notin> set ys \<Longrightarrow> takeWhile (\<lambda>x. x \<noteq> c) (rev (xs @ c # ys)) = rev ys"
  by (induction ys rule: rev_induct) auto

lemma find_Some_set: "find P xs = Some x \<Longrightarrow> x \<in> set xs \<and> P x"
  by (auto simp: find_Some_iff)

lemma find_None_all: "find P xs = None \<longleftrightarrow> (\<forall>x \<in> set xs. \<not> P x)"
  by (auto simp: find_None_iff)

section \<open>Words and naturals\<close>

lemma unat64_bound: "unat (x :: 64 word) < 18446744073709551616"
  using unsigned_less [of x, where ?'a = nat] by simp

lemma sint64_conv:
  "sint (x :: 64 word) =
     (if unat x < 9223372036854775808 then int (unat x) else int (unat x) - 18446744073709551616)"
proof -
  have u: "uint x = int (unat x)" by simp
  have "sint x = (uint x + 9223372036854775808) mod 18446744073709551616 - 9223372036854775808"
    by (simp add: sint_uint signed_take_bit_eq_take_bit_shift take_bit_eq_mod)
  moreover have "(n + 9223372036854775808) mod 18446744073709551616 =
      (if n < 9223372036854775808 then n + 9223372036854775808 else n - 9223372036854775808)"
    if "0 \<le> n" "n < 18446744073709551616" for n :: int
  proof (cases "n < 9223372036854775808")
    case True
    with that show ?thesis by (simp add: mod_pos_pos_trivial)
  next
    case False
    have "(n + 9223372036854775808) mod 18446744073709551616 =
        (n - 9223372036854775808) mod 18446744073709551616"
      using mod_add_self2 [of "n - 9223372036854775808" 18446744073709551616]
      by (simp add: algebra_simps)
    with False that show ?thesis by (simp add: mod_pos_pos_trivial)
  qed
  ultimately show ?thesis
    using unat64_bound [of x] unfolding u by (simp del: int_nat_eq of_nat_unat)
qed

lemma sint64_pos_unat:
  fixes x :: "64 word"
  assumes "0 < sint x"
  shows "int (unat x) = sint x" and "unat x < 9223372036854775808" and "0 < unat x"
  using assms unat64_bound [of x] unfolding sint64_conv
  by (simp_all del: of_nat_unat split: if_splits)

end
