(* ===== verification/Go_Strings.thy ===== *)
theory Go_Strings
  imports Prelude
begin

text \<open>
  The parts of the Go standard library the driver computes with: \<open>strings\<close> (\<open>ToLower\<close>,
  \<open>Fields\<close>, \<open>TrimSpace\<close>, \<open>Split\<close>, \<open>Index\<close>, \<open>HasPrefix\<close>), \<open>path/filepath\<close> (\<open>Base\<close>,
  \<open>Clean\<close>, \<open>Join\<close> on Unix) and the decimal rendering of integers.  A Go string is a sequence
  of bytes, so it is a \<open>string\<close> (a list of 8-bit characters).  On input with a byte of 128 or
  more \<open>ToLower\<close>, \<open>Fields\<close> and \<open>TrimSpace\<close> consult the Unicode tables; that path is the
  record \<open>unicode\<close>, a parameter (\<open>u_SpaceLen\<close> is the length of the white-space rune a string
  starts with, 0 for none).
\<close>

section \<open>Package strings\<close>

record unicode =
  u_ToLower :: "string \<Rightarrow> string"
  u_Fields :: "string \<Rightarrow> string list"
  u_TrimSpace :: "string \<Rightarrow> string"
  u_SpaceLen :: "string \<Rightarrow> nat"

definition isASCII :: "string \<Rightarrow> bool" where
  "isASCII s = list_all (\<lambda>c. of_char c < (128 :: nat)) s"

definition lower_ascii :: "char \<Rightarrow> char" where
  "lower_ascii c = (let n = (of_char c :: nat) in if 65 \<le> n \<and> n \<le> 90 then char_of (n + 32) else c)"

definition ToLower :: "unicode \<Rightarrow> string \<Rightarrow> string" where
  "ToLower u s = (if isASCII s then map lower_ascii s else u_ToLower u s)"

text \<open>The ASCII white space of \<open>strings\<close>: tab, newline, vertical tab, form feed, return, blank.\<close>

definition asciiSpace :: "char \<Rightarrow> bool" where
  "asciiSpace c = (let n = (of_char c :: nat) in (9 \<le> n \<and> n \<le> 13) \<or> n = 32)"

fun fields_acc :: "string \<Rightarrow> string \<Rightarrow> string list" where
  "fields_acc acc [] = (if acc = [] then [] else [rev acc])"
| "fields_acc acc (c # cs) =
     (if asciiSpace c then (if acc = [] then fields_acc [] cs else rev acc # fields_acc [] cs)
      else fields_acc (c # acc) cs)"

definition Fields :: "unicode \<Rightarrow> string \<Rightarrow> string list" where
  "Fields u s = (if isASCII s then fields_acc [] s else u_Fields u s)"

definition TrimSpace :: "unicode \<Rightarrow> string \<Rightarrow> string" where
  "TrimSpace u s =
     (if isASCII s then rev (dropWhile asciiSpace (rev (dropWhile asciiSpace s)))
      else u_TrimSpace u s)"

text \<open>\<open>strings.Split\<close> with a separator of one byte.\<close>

fun Split :: "char \<Rightarrow> string \<Rightarrow> string list" where
  "Split c [] = [[]]"
| "Split c (x # xs) =
     (if x = c then [] # Split c xs
      else case Split c xs of [] \<Rightarrow> [[x]] | y # ys \<Rightarrow> (x # y) # ys)"

fun JoinBy :: "string \<Rightarrow> string list \<Rightarrow> string" where
  "JoinBy sep [] = []"
| "JoinBy sep [x] = x"
| "JoinBy sep (x # y # ys) = x @ sep @ JoinBy sep (y # ys)"

text \<open>\<open>strings.Index\<close> of one byte: the offset of its first occurrence, \<open>None\<close> for -1.\<close>

fun Index :: "char \<Rightarrow> string \<Rightarrow> nat option" where
  "Index c [] = None"
| "Index c (x # xs) = (if x = c then Some 0 else map_option Suc (Index c xs))"

definition HasPrefix :: "string \<Rightarrow> string \<Rightarrow> bool" where
  "HasPrefix s p = (take (length p) s = p)"

section \<open>Decimal rendering\<close>

abbreviation ord :: "char \<Rightarrow> nat" where
  "ord c \<equiv> of_char c"

definition is_digit :: "char \<Rightarrow> bool" where
  "is_digit c = (48 \<le> ord c \<and> ord c \<le> 57)"

fun utoa :: "nat \<Rightarrow> string" where
  "utoa n = (if n < 10 then [char_of (48 + n)] else utoa (n div 10) @ [char_of (48 + n mod 10)])"

declare utoa.simps [simp del]

definition itoa :: "int \<Rightarrow> string" where
  "itoa i = (if i < 0 then CHR ''-'' # utoa (nat (- i)) else utoa (nat i))"

section \<open>Package path/filepath on Unix\<close>

abbreviation slash :: char where
  "slash \<equiv> CHR ''/''"

definition stripTrailing :: "string \<Rightarrow> string" where
  "stripTrailing p = rev (dropWhile (\<lambda>c. c = slash) (rev p))"

definition Base :: "string \<Rightarrow> string" where
  "Base p =
     (if p = [] then ''.''
      else let q = stripTrailing p in
        if q = [] then ''/'' else rev (takeWhile (\<lambda>c. c \<noteq> slash) (rev q)))"

text \<open>
  \<open>Clean\<close> keeps a stack of the path's elements (its top first): empty elements and ``.'' are
  dropped, ``..'' removes the element before it, except at the root (where it vanishes) and
  after another ``..'' of a relative path (where it stays).
\<close>

definition clean_step :: "bool \<Rightarrow> string list \<Rightarrow> string \<Rightarrow> string list" where
  "clean_step rooted st c =
     (if c = [] \<or> c = ''.'' then st
      else if c = ''..'' then
        (case st of
           [] \<Rightarrow> if rooted then [] else [''..'']
         | t # ts \<Rightarrow> if t = ''..'' then ''..'' # st else ts)
      else c # st)"

definition Clean :: "string \<Rightarrow> string" where
  "Clean p =
     (if p = [] then ''.''
      else let rooted = (hd p = slash);
               out = JoinBy ''/'' (rev (foldl (clean_step rooted) [] (Split slash p)))
           in if rooted then slash # out else if out = [] then ''.'' else out)"

fun JoinPath :: "string list \<Rightarrow> string" where
  "JoinPath [] = []"
| "JoinPath (e # es) = (if e \<noteq> [] then Clean (JoinBy ''/'' (e # es)) else JoinPath es)"

section \<open>Facts\<close>

lemma Split_not_Nil [simp]: "Split c s \<noteq> []"
  by (cases s) (auto split: list.splits)

lemma Split_no_sep: "c \<notin> set s \<Longrightarrow> Split c s = [s]"
  by (induction s) auto

lemma Split_append_sep: "c \<notin> set a \<Longrightarrow> Split c (a @ c # b) = a # Split c b"
  by (induction a) auto

lemma Split_parts: "\<forall>p \<in> set (Split c s). c \<notin> set p"
proof (induction s)
  case (Cons x xs)
  then show ?case by (cases "Split c xs") auto
qed simp

lemma JoinBy_Cons: "ps \<noteq> [] \<Longrightarrow> JoinBy sep (p # ps) = p @ sep @ JoinBy sep ps"
  by (cases ps) auto

lemma JoinBy_head: "JoinBy sep ((x # y) # ys) = x # JoinBy sep (y # ys)"
  by (cases ys) auto

lemma JoinBy_snoc: "ps \<noteq> [] \<Longrightarrow> JoinBy sep (ps @ [p]) = JoinBy sep ps @ sep @ p"
proof (induction ps)
  case (Cons q qs)
  then show ?case by (cases "qs = []") (simp_all add: JoinBy_Cons)
qed simp

lemma JoinBy_Split: "JoinBy [c] (Split c s) = s"
proof (induction s)
  case (Cons x xs)
  then show ?case
    by (cases "Split c xs") (auto simp: JoinBy_Cons JoinBy_head)
qed simp

lemma Split_JoinBy:
  "ps \<noteq> [] \<Longrightarrow> \<forall>p \<in> set ps. c \<notin> set p \<Longrightarrow> Split c (JoinBy [c] ps) = ps"
  by (induction "[c]" ps rule: JoinBy.induct) (auto simp: Split_no_sep Split_append_sep)

lemma HasPrefix_prefix: "HasPrefix s p \<longleftrightarrow> prefix p s"
  by (auto simp: HasPrefix_def prefix_def) (metis append_take_drop_id)

lemma HasPrefix_Nil [simp]: "HasPrefix s []"
  by (simp add: HasPrefix_def)

lemma Index_None: "Index c s = None \<longleftrightarrow> c \<notin> set s"
  by (induction s) auto

lemma Index_Some_split:
  "Index c s = Some i \<longleftrightarrow> i < length s \<and> s ! i = c \<and> c \<notin> set (take i s)"
proof (induction s arbitrary: i)
  case (Cons x xs)
  then show ?case by (cases i) auto
qed simp

lemma Index_append: "c \<notin> set a \<Longrightarrow> Index c (a @ c # b) = Some (length a)"
  by (induction a) auto

lemma stripTrailing_id: "p \<noteq> [] \<Longrightarrow> last p \<noteq> slash \<Longrightarrow> stripTrailing p = p"
  by (cases p rule: rev_cases) (auto simp: stripTrailing_def)

lemma Base_plain: "s \<noteq> [] \<Longrightarrow> slash \<notin> set s \<Longrightarrow> Base s = s"
proof -
  assume s: "s \<noteq> []" "slash \<notin> set s"
  then have "last s \<noteq> slash" by (metis last_in_set)
  with s have "stripTrailing s = s" by (simp add: stripTrailing_id)
  with s show ?thesis by (simp add: Base_def takeWhile_all_id)
qed

lemma Base_append: "s \<noteq> [] \<Longrightarrow> slash \<notin> set s \<Longrightarrow> Base (d @ slash # s) = s"
proof -
  assume s: "s \<noteq> []" "slash \<notin> set s"
  then have "last (d @ slash # s) \<noteq> slash" by (auto dest: last_in_set)
  then have "stripTrailing (d @ slash # s) = d @ slash # s" by (simp add: stripTrailing_id)
  moreover have "takeWhile (\<lambda>c. c \<noteq> slash) (rev (d @ slash # s)) = rev s"
    using s by (rule_tac takeWhile_rev_append)
  ultimately show ?thesis by (simp add: Base_def)
qed

text \<open>A path whose elements are all ordinary is already clean.\<close>

definition ordinary :: "string \<Rightarrow> bool" where
  "ordinary c \<longleftrightarrow> c \<noteq> [] \<and> c \<noteq> ''.'' \<and> c \<noteq> ''..'' \<and> slash \<notin> set c"

lemma clean_ordinary: "list_all ordinary cs \<Longrightarrow> foldl (clean_step r) st cs = rev cs @ st"
  by (induction cs arbitrary: st) (auto simp: clean_step_def ordinary_def)

lemma ordinary_no_slash: "list_all ordinary cs \<Longrightarrow> \<forall>p \<in> set cs. slash \<notin> set p"
  by (auto simp: list_all_iff ordinary_def)

lemma Clean_rooted:
  assumes "list_all ordinary cs"
  shows "Clean (slash # JoinBy ''/'' cs) = slash # JoinBy ''/'' cs"
proof (cases "cs = []")
  case True
  then show ?thesis by (simp add: Clean_def clean_step_def)
next
  case False
  with assms have "Split slash (JoinBy ''/'' cs) = cs"
    using Split_JoinBy [OF False, of slash] ordinary_no_slash [OF assms] by simp
  then show ?thesis
    using assms by (simp add: Clean_def clean_ordinary) (simp add: clean_step_def)
qed

lemma utoa_not_Nil [simp]: "utoa n \<noteq> []"
  by (subst utoa.simps) simp

end
