(* ===== verification/Strconv.thy ===== *)
theory Strconv
  imports Go_Strings
begin

text \<open>
  Package \<open>strconv\<close> as the driver uses it: \<open>ParseUint\<close> and \<open>ParseInt\<close> in base 10 with 64 bits,
  \<open>ParseBool\<close>, with the two errors of a \<open>NumError\<close>.  The digit loop keeps Go's order of checks:
  a digit that overflows is reported before a later character that is not a digit.
\<close>

datatype num_error = ErrSyntax | ErrRange

definition digit_val :: "char \<Rightarrow> nat option" where
  "digit_val c = (let n = (of_char c :: nat) in if 48 \<le> n \<and> n \<le> 57 then Some (n - 48) else None)"

fun parse_digits :: "nat \<Rightarrow> string \<Rightarrow> num_error + nat" where
  "parse_digits n [] = Inr n"
| "parse_digits n (c # cs) =
     (case digit_val c of
        None \<Rightarrow> Inl ErrSyntax
      | Some d \<Rightarrow> if 10 * n + d \<ge> 2 ^ 64 then Inl ErrRange else parse_digits (10 * n + d) cs)"

definition ParseUint :: "string \<Rightarrow> num_error + nat" where
  "ParseUint s = (if s = [] then Inl ErrSyntax else parse_digits 0 s)"

definition ParseInt :: "string \<Rightarrow> num_error + int" where
  "ParseInt s =
     (if s = [] then Inl ErrSyntax
      else let neg = (hd s = CHR ''-'');
               s' = (if hd s = CHR ''+'' \<or> hd s = CHR ''-'' then tl s else s)
           in (case ParseUint s' of
                 Inl ErrSyntax \<Rightarrow> Inl ErrSyntax
               | Inl ErrRange \<Rightarrow> Inl ErrRange
               | Inr un \<Rightarrow>
                   if \<not> neg \<and> un \<ge> 2 ^ 63 then Inl ErrRange
                   else if neg \<and> un > 2 ^ 63 then Inl ErrRange
                   else Inr (if neg then - int un else int un)))"

definition ParseBool :: "string \<Rightarrow> num_error + bool" where
  "ParseBool s =
     (if s \<in> set [''1'', ''t'', ''T'', ''true'', ''TRUE'', ''True''] then Inr True
      else if s \<in> set [''0'', ''f'', ''F'', ''false'', ''FALSE'', ''False''] then Inr False
      else Inl ErrSyntax)"

section \<open>Facts\<close>

lemma digit_val_char_of: "d < 10 \<Longrightarrow> digit_val (char_of (48 + d)) = Some d"
  by (simp add: digit_val_def Let_def)

lemma parse_digits_append:
  "parse_digits n xs = Inr m \<Longrightarrow> parse_digits n (xs @ ys) = parse_digits m ys"
  by (induction xs arbitrary: n) (auto split: option.splits if_splits)

lemma parse_digits_utoa: "n < 2 ^ 64 \<Longrightarrow> parse_digits 0 (utoa n) = Inr n"
proof (induction n rule: utoa.induct)
  case (1 n)
  show ?case
  proof (cases "n < 10")
    case True
    then show ?thesis by (subst utoa.simps) (simp add: digit_val_char_of)
  next
    case False
    with 1 have "parse_digits 0 (utoa (n div 10)) = Inr (n div 10)" by simp
    from parse_digits_append [OF this] False "1.prems" show ?thesis
      by (subst utoa.simps) (simp add: digit_val_char_of)
  qed
qed

lemma ParseUint_utoa: "n < 2 ^ 64 \<Longrightarrow> ParseUint (utoa n) = Inr n"
  using parse_digits_utoa [of n] by (simp add: ParseUint_def)

lemma utoa_digits: "c \<in> set (utoa n) \<Longrightarrow> 48 \<le> (of_char c :: nat) \<and> (of_char c :: nat) \<le> 57"
proof (induction n rule: utoa.induct)
  case (1 n)
  then show ?case
    by (cases "n < 10") (auto simp: utoa.simps [of n] of_char_of)
qed

lemma utoa_is_digit: "list_all is_digit (utoa n)"
  by (auto simp: list_all_iff is_digit_def dest: utoa_digits)

lemma utoa_hd: "48 \<le> (of_char (hd (utoa n)) :: nat) \<and> (of_char (hd (utoa n)) :: nat) \<le> 57"
  by (rule utoa_digits [of _ n]) simp

lemma utoa_no_leading_zero: "0 < n \<Longrightarrow> hd (utoa n) \<noteq> CHR ''0''"
proof (induction n rule: utoa.induct)
  case (1 n)
  show ?case
  proof (cases "n < 10")
    case True
    then have "(of_char (hd (utoa n)) :: nat) = 48 + n" by (simp add: utoa.simps [of n] of_char_of)
    with 1 show ?thesis by auto
  next
    case False
    with 1 have "hd (utoa (n div 10)) \<noteq> CHR ''0''" by simp
    with False show ?thesis by (simp add: utoa.simps [of n])
  qed
qed

lemma ParseInt_itoa:
  assumes "- (2 ^ 63) \<le> i" and "i < 2 ^ 63"
  shows "ParseInt (itoa i) = Inr i"
proof (cases "i < 0")
  case True
  with assms have "nat (- i) < 2 ^ 64" "\<not> nat (- i) > 2 ^ 63" by auto
  with True ParseUint_utoa [of "nat (- i)"] show ?thesis
    by (simp add: ParseInt_def itoa_def Let_def)
next
  case False
  with assms have *: "nat i < 2 ^ 64" "\<not> nat i \<ge> 2 ^ 63" by auto
  have "hd (utoa (nat i)) \<noteq> CHR ''-''" "hd (utoa (nat i)) \<noteq> CHR ''+''"
    using utoa_hd [of "nat i"] by auto
  with False * ParseUint_utoa [of "nat i"] show ?thesis
    by (simp add: ParseInt_def itoa_def Let_def)
qed

end
