(* ===== verification/Json_Codec.thy ===== *)
theory Json_Codec
  imports Strconv
begin

text \<open>
  The JSON encoding of a \<open>NodeEntry\<close> (\<open>pkg/driver/node_map.go\<close>), as \<open>encoding/json\<close> computes
  it for that struct.  \<open>MarshalNodeEntry\<close> writes the three members in the order of the fields
  and escapes strings with HTML escaping on, replacing invalid UTF-8.  \<open>UnmarshalNodeEntry\<close>
  parses any JSON text (objects, arrays, strings with their escapes, numbers, literals, white
  space, the nesting limit of 10000) and stores the members it knows: names match exactly or
  up to letter case, \<open>null\<close> leaves a field as it is, a value of the wrong type is an error,
  unknown members are skipped.
\<close>

section \<open>The entry\<close>

record NodeEntry =
  NodeName :: string
  NodeIP :: string
  LivenessPort :: int

section \<open>UTF-8\<close>

definition cont :: "nat \<Rightarrow> nat \<Rightarrow> char \<Rightarrow> bool" where
  "cont lo hi c = (lo \<le> ord c \<and> ord c \<le> hi)"

text \<open>The length of the well-formed multi-byte sequence a string starts with, as in \<open>unicode/utf8\<close>.\<close>

definition utf8_len :: "string \<Rightarrow> nat option" where
  "utf8_len s =
     (case s of
        b0 # b1 # rest \<Rightarrow>
          (let n = ord b0 in
           if 194 \<le> n \<and> n \<le> 223 then (if cont 128 191 b1 then Some 2 else None)
           else if 224 \<le> n \<and> n \<le> 239 then
             (if cont (if n = 224 then 160 else 128) (if n = 237 then 159 else 191) b1
              then (case rest of b2 # _ \<Rightarrow> if cont 128 191 b2 then Some 3 else None | [] \<Rightarrow> None)
              else None)
           else if 240 \<le> n \<and> n \<le> 244 then
             (if cont (if n = 240 then 144 else 128) (if n = 244 then 143 else 191) b1
              then (case rest of
                      b2 # b3 # _ \<Rightarrow> if cont 128 191 b2 \<and> cont 128 191 b3 then Some 4 else None
                    | _ \<Rightarrow> None)
              else None)
           else None)
      | _ \<Rightarrow> None)"

definition utf8_encode :: "nat \<Rightarrow> string" where
  "utf8_encode r =
     (if r < 128 then [char_of r]
      else if r < 2048 then [char_of (192 + r div 64), char_of (128 + r mod 64)]
      else if r < 65536 then
        [char_of (224 + r div 4096), char_of (128 + r div 64 mod 64), char_of (128 + r mod 64)]
      else [char_of (240 + r div 262144), char_of (128 + r div 4096 mod 64),
            char_of (128 + r div 64 mod 64), char_of (128 + r mod 64)])"

definition replacement :: string where
  "replacement = utf8_encode 65533"

fun valid_utf8 :: "string \<Rightarrow> bool" where
  "valid_utf8 [] = True"
| "valid_utf8 (c # cs) =
     (if ord c < 128 then valid_utf8 cs
      else case utf8_len (c # cs) of None \<Rightarrow> False | Some n \<Rightarrow> valid_utf8 (drop (n - 1) cs))"

section \<open>Encoding\<close>

definition dquote :: char where "dquote = CHR 0x22"
definition bslash :: char where "bslash = CHR 0x5C"

definition hex_digit :: "nat \<Rightarrow> char" where
  "hex_digit n = (if n < 10 then char_of (48 + n) else char_of (87 + n))"

definition escape_ascii :: "char \<Rightarrow> string" where
  "escape_ascii c =
     (if c = dquote \<or> c = bslash then [bslash, c]
      else if ord c = 10 then [bslash, CHR ''n'']
      else if ord c = 13 then [bslash, CHR ''r'']
      else if ord c = 9 then [bslash, CHR ''t'']
      else if ord c < 32 \<or> c = CHR ''<'' \<or> c = CHR ''>'' \<or> c = CHR ''&''
      then [bslash, CHR ''u'', CHR ''0'', CHR ''0'', hex_digit (ord c div 16), hex_digit (ord c mod 16)]
      else [c])"

definition lineSep :: string where "lineSep = [char_of (226::nat), char_of (128::nat), char_of (168::nat)]"
definition paraSep :: string where "paraSep = [char_of (226::nat), char_of (128::nat), char_of (169::nat)]"

fun escape_string :: "string \<Rightarrow> string" where
  "escape_string [] = []"
| "escape_string (c # cs) =
     (if ord c < 128 then escape_ascii c @ escape_string cs
      else case utf8_len (c # cs) of
             None \<Rightarrow> bslash # ''ufffd'' @ escape_string cs
           | Some n \<Rightarrow>
               (if take n (c # cs) = lineSep then bslash # ''u2028''
                else if take n (c # cs) = paraSep then bslash # ''u2029''
                else take n (c # cs)) @ escape_string (drop (n - 1) cs))"

definition quote :: "string \<Rightarrow> string" where
  "quote s = dquote # escape_string s @ [dquote]"

definition MarshalNodeEntry :: "NodeEntry \<Rightarrow> string" where
  "MarshalNodeEntry e =
     ''{'' @ quote ''nodeName'' @ '':'' @ quote (NodeName e)
     @ '','' @ quote ''nodeIP'' @ '':'' @ quote (NodeIP e)
     @ '','' @ quote ''livenessPort'' @ '':'' @ itoa (LivenessPort e) @ ''}''"

section \<open>Scanning\<close>

datatype json =
    JNull | JBool bool | JNum string | JStr string | JArr "json list" | JObj "(string \<times> json) list"

definition is_ws :: "char \<Rightarrow> bool" where
  "is_ws c = (ord c = 32 \<or> ord c = 9 \<or> ord c = 13 \<or> ord c = 10)"

definition skip_ws :: "string \<Rightarrow> string" where
  "skip_ws = dropWhile is_ws"

definition hex_val :: "char \<Rightarrow> nat option" where
  "hex_val c =
     (let n = ord c in
      if 48 \<le> n \<and> n \<le> 57 then Some (n - 48)
      else if 97 \<le> n \<and> n \<le> 102 then Some (n - 87)
      else if 65 \<le> n \<and> n \<le> 70 then Some (n - 55)
      else None)"

definition getu4 :: "string \<Rightarrow> nat option" where
  "getu4 s =
     (case s of
        a # b # c # d # _ \<Rightarrow>
          (case (hex_val a, hex_val b, hex_val c, hex_val d) of
             (Some w, Some x, Some y, Some z) \<Rightarrow> Some (4096 * w + 256 * x + 16 * y + z)
           | _ \<Rightarrow> None)
      | _ \<Rightarrow> None)"

definition simple_escape :: "char \<Rightarrow> char option" where
  "simple_escape d =
     (if d = dquote \<or> d = bslash \<or> d = CHR ''/'' then Some d
      else if d = CHR ''b'' then Some (char_of (8::nat))
      else if d = CHR ''f'' then Some (char_of (12::nat))
      else if d = CHR ''n'' then Some (char_of (10::nat))
      else if d = CHR ''r'' then Some (char_of (13::nat))
      else if d = CHR ''t'' then Some (char_of (9::nat))
      else None)"

definition is_surrogate :: "nat \<Rightarrow> bool" where
  "is_surrogate r = (55296 \<le> r \<and> r < 57344)"

text \<open>The second half of a surrogate pair: another \<open>\\u\<close> escape with a low surrogate.\<close>

definition surrogate_pair :: "nat \<Rightarrow> string \<Rightarrow> nat option" where
  "surrogate_pair r s =
     (case s of
        x # y # rest \<Rightarrow>
          if x = bslash \<and> y = CHR ''u'' then
            (case getu4 rest of
               None \<Rightarrow> None
             | Some r2 \<Rightarrow>
                 if r < 56320 \<and> 56320 \<le> r2 \<and> r2 < 57344
                 then Some ((r - 55296) * 1024 + (r2 - 56320) + 65536) else None)
          else None
      | _ \<Rightarrow> None)"

definition prepend :: "string \<Rightarrow> (string \<times> string) option \<Rightarrow> (string \<times> string) option" where
  "prepend p r = map_option (\<lambda>(s, rest). (p @ s, rest)) r"

text \<open>A string after its opening quote: its content with escapes resolved, and what follows.\<close>

fun lex_string :: "string \<Rightarrow> (string \<times> string) option" where
  "lex_string [] = None"
| "lex_string (c # cs) =
     (if c = dquote then Some ([], cs)
      else if c = bslash then
        (case cs of
           [] \<Rightarrow> None
         | d # ds \<Rightarrow>
             (case simple_escape d of
                Some e \<Rightarrow> prepend [e] (lex_string ds)
              | None \<Rightarrow>
                  if d = CHR ''u'' then
                    (case getu4 ds of
                       None \<Rightarrow> None
                     | Some r \<Rightarrow>
                         if is_surrogate r then
                           (case surrogate_pair r (drop 4 ds) of
                              Some r' \<Rightarrow> prepend (utf8_encode r') (lex_string (drop 10 ds))
                            | None \<Rightarrow> prepend replacement (lex_string (drop 4 ds)))
                         else prepend (utf8_encode r) (lex_string (drop 4 ds)))
                  else None))
      else if ord c < 32 then None
      else if ord c < 128 then prepend [c] (lex_string cs)
      else case utf8_len (c # cs) of
             None \<Rightarrow> prepend replacement (lex_string cs)
           | Some n \<Rightarrow> prepend (take n (c # cs)) (lex_string (drop (n - 1) cs)))"

text \<open>A number: its token and what follows.\<close>

definition lex_int :: "string \<Rightarrow> (string \<times> string) option" where
  "lex_int s =
     (case s of
        [] \<Rightarrow> None
      | c # cs \<Rightarrow>
          if c = CHR ''0'' then Some ([c], cs)
          else if is_digit c then Some (c # takeWhile is_digit cs, dropWhile is_digit cs)
          else None)"

definition lex_frac :: "string \<Rightarrow> (string \<times> string) option" where
  "lex_frac s =
     (case s of
        c # cs \<Rightarrow>
          if c = CHR ''.'' then
            (if takeWhile is_digit cs = [] then None
             else Some (c # takeWhile is_digit cs, dropWhile is_digit cs))
          else Some ([], s)
      | [] \<Rightarrow> Some ([], s))"

definition lex_exp :: "string \<Rightarrow> (string \<times> string) option" where
  "lex_exp s =
     (case s of
        c # cs \<Rightarrow>
          if c = CHR ''e'' \<or> c = CHR ''E'' then
            (let (sg, ds) = (case cs of
                d # ds \<Rightarrow> if d = CHR ''+'' \<or> d = CHR ''-'' then ([d], ds) else ([], cs)
              | [] \<Rightarrow> ([], cs))
             in if takeWhile is_digit ds = [] then None
                else Some (c # sg @ takeWhile is_digit ds, dropWhile is_digit ds))
          else Some ([], s)
      | [] \<Rightarrow> Some ([], s))"

definition lex_number :: "string \<Rightarrow> (string \<times> string) option" where
  "lex_number s =
     (let (sg, s0) = (case s of c # cs \<Rightarrow> if c = CHR ''-'' then ([c], cs) else ([], s) | [] \<Rightarrow> ([], s))
      in case lex_int s0 of
           None \<Rightarrow> None
         | Some (i, s1) \<Rightarrow>
             (case lex_frac s1 of
                None \<Rightarrow> None
              | Some (f, s2) \<Rightarrow>
                  (case lex_exp s2 of
                     None \<Rightarrow> None
                   | Some (x, s3) \<Rightarrow> Some (sg @ i @ f @ x, s3))))"

text \<open>
  Values.  \<open>fuel\<close> bounds the recursion (every call but the two that go from a value to its
  first element consumes a character), \<open>depth\<close> is the nesting still allowed.
\<close>

fun parse_value :: "nat \<Rightarrow> nat \<Rightarrow> string \<Rightarrow> (json \<times> string) option"
and parse_elems :: "nat \<Rightarrow> nat \<Rightarrow> string \<Rightarrow> (json list \<times> string) option"
and parse_members :: "nat \<Rightarrow> nat \<Rightarrow> string \<Rightarrow> ((string \<times> json) list \<times> string) option"
where
  "parse_value 0 depth s = None"
| "parse_value (Suc fuel) depth s =
     (case skip_ws s of
        [] \<Rightarrow> None
      | c # cs \<Rightarrow>
          if c = dquote then map_option (\<lambda>(x, r). (JStr x, r)) (lex_string cs)
          else if c = CHR ''{'' then
            (if depth = 0 then None
             else case skip_ws cs of
               [] \<Rightarrow> None
             | d # ds \<Rightarrow>
                 if d = CHR ''}'' then Some (JObj [], ds)
                 else map_option (\<lambda>(ms, r). (JObj ms, r)) (parse_members fuel (depth - 1) (d # ds)))
          else if c = CHR ''['' then
            (if depth = 0 then None
             else case skip_ws cs of
               [] \<Rightarrow> None
             | d # ds \<Rightarrow>
                 if d = CHR '']'' then Some (JArr [], ds)
                 else map_option (\<lambda>(xs, r). (JArr xs, r)) (parse_elems fuel (depth - 1) (d # ds)))
          else if take 4 (c # cs) = ''true'' then Some (JBool True, drop 3 cs)
          else if take 5 (c # cs) = ''false'' then Some (JBool False, drop 4 cs)
          else if take 4 (c # cs) = ''null'' then Some (JNull, drop 3 cs)
          else map_option (\<lambda>(n, r). (JNum n, r)) (lex_number (c # cs)))"
| "parse_elems 0 depth s = None"
| "parse_elems (Suc fuel) depth s =
     (case parse_value fuel depth s of
        None \<Rightarrow> None
      | Some (v, r) \<Rightarrow>
          (case skip_ws r of
             [] \<Rightarrow> None
           | c # cs \<Rightarrow>
               if c = CHR '']'' then Some ([v], cs)
               else if c = CHR '','' then
                 map_option (\<lambda>(vs, r'). (v # vs, r')) (parse_elems fuel depth cs)
               else None))"
| "parse_members 0 depth s = None"
| "parse_members (Suc fuel) depth s =
     (case skip_ws s of
        [] \<Rightarrow> None
      | q # qs \<Rightarrow>
          if q \<noteq> dquote then None
          else case lex_string qs of
            None \<Rightarrow> None
          | Some (k, r) \<Rightarrow>
              (case skip_ws r of
                 [] \<Rightarrow> None
               | c # cs \<Rightarrow>
                   if c \<noteq> CHR '':'' then None
                   else case parse_value fuel depth cs of
                     None \<Rightarrow> None
                   | Some (v, r2) \<Rightarrow>
                       (case skip_ws r2 of
                          [] \<Rightarrow> None
                        | d # ds \<Rightarrow>
                            if d = CHR ''}'' then Some ([(k, v)], ds)
                            else if d = CHR '','' then
                              map_option (\<lambda>(ms, r'). ((k, v) # ms, r')) (parse_members fuel depth ds)
                            else None)))"

definition maxNestingDepth :: nat where "maxNestingDepth = 10000"

definition parse_json :: "string \<Rightarrow> json option" where
  "parse_json s =
     (case parse_value (2 * length s + 2) maxNestingDepth s of
        Some (v, r) \<Rightarrow> if skip_ws r = [] then Some v else None
      | None \<Rightarrow> None)"

section \<open>Storing members\<close>

datatype json_error = JsonSyntax | JsonType

definition fold_byte :: "char \<Rightarrow> char \<Rightarrow> bool" where
  "fold_byte s t = (s = t \<or>
     (let u = (if 97 \<le> ord s \<and> ord s \<le> 122 then ord s - 32 else ord s);
          v = (if 97 \<le> ord t \<and> ord t \<le> 122 then ord t - 32 else ord t)
      in 65 \<le> u \<and> u \<le> 90 \<and> u = v))"

text \<open>
  Letter-case folding of a member name against a field name.  Besides ASCII letters the long s
  (\<open>C5 BF\<close>) folds to s and the Kelvin sign (\<open>E2 84 AA\<close>) to k.
\<close>

fun fold_eq :: "string \<Rightarrow> string \<Rightarrow> bool" where
  "fold_eq [] t = (t = [])"
| "fold_eq (s # ss) t =
     (case t of
        [] \<Rightarrow> False
      | b # bs \<Rightarrow>
          if ord b < 128 then fold_byte s b \<and> fold_eq ss bs
          else if s = CHR ''s'' \<or> s = CHR ''S'' then
            take 2 t = [char_of (197::nat), char_of (191::nat)] \<and> fold_eq ss (drop 2 t)
          else if s = CHR ''k'' \<or> s = CHR ''K'' then
            take 3 t = [char_of (226::nat), char_of (132::nat), char_of (170::nat)] \<and> fold_eq ss (drop 3 t)
          else False)"

definition store_string :: "json \<Rightarrow> string \<Rightarrow> json_error + string" where
  "store_string v old = (case v of JNull \<Rightarrow> Inr old | JStr s \<Rightarrow> Inr s | _ \<Rightarrow> Inl JsonType)"

definition store_int :: "json \<Rightarrow> int \<Rightarrow> json_error + int" where
  "store_int v old =
     (case v of
        JNull \<Rightarrow> Inr old
      | JNum n \<Rightarrow> (case ParseInt n of Inr i \<Rightarrow> Inr i | Inl _ \<Rightarrow> Inl JsonType)
      | _ \<Rightarrow> Inl JsonType)"

text \<open>One member: the entry and whether a type error was recorded (decoding goes on after one).\<close>

definition store_member :: "NodeEntry \<times> bool \<Rightarrow> string \<times> json \<Rightarrow> NodeEntry \<times> bool" where
  "store_member st kv =
     (case st of (e, err) \<Rightarrow> case kv of (k, v) \<Rightarrow>
      (let is = (\<lambda>f. k = f \<or> (k \<noteq> ''nodeName'' \<and> k \<noteq> ''nodeIP'' \<and> k \<noteq> ''livenessPort'' \<and> fold_eq f k))
       in if is ''nodeName'' then
            (case store_string v (NodeName e) of Inr s \<Rightarrow> (e\<lparr>NodeName := s\<rparr>, err) | Inl _ \<Rightarrow> (e, True))
          else if is ''nodeIP'' then
            (case store_string v (NodeIP e) of Inr s \<Rightarrow> (e\<lparr>NodeIP := s\<rparr>, err) | Inl _ \<Rightarrow> (e, True))
          else if is ''livenessPort'' then
            (case store_int v (LivenessPort e) of Inr i \<Rightarrow> (e\<lparr>LivenessPort := i\<rparr>, err) | Inl _ \<Rightarrow> (e, True))
          else (e, err)))"

definition zero_entry :: NodeEntry where
  "zero_entry = \<lparr>NodeName = [], NodeIP = [], LivenessPort = 0\<rparr>"

definition UnmarshalNodeEntry :: "string \<Rightarrow> json_error + NodeEntry" where
  "UnmarshalNodeEntry data =
     (case parse_json data of
        None \<Rightarrow> Inl JsonSyntax
      | Some JNull \<Rightarrow> Inr zero_entry
      | Some (JObj ms) \<Rightarrow>
          (case foldl store_member (zero_entry, False) ms of
             (e, err) \<Rightarrow> if err then Inl JsonType else Inr e)
      | Some _ \<Rightarrow> Inl JsonType)"

section \<open>Facts: strings survive encoding\<close>

declare lex_string.simps [simp del] escape_string.simps [simp del]

lemma ord_less_256: "ord c < 256"
  by simp

lemma quote_facts [simp]:
  "bslash \<noteq> dquote" "dquote \<noteq> bslash" "simple_escape (CHR ''u'') = None"
  "simple_escape dquote = Some dquote" "simple_escape bslash = Some bslash"
  "simple_escape (CHR ''n'') = Some (char_of (10::nat))"
  "simple_escape (CHR ''r'') = Some (char_of (13::nat))"
  "simple_escape (CHR ''t'') = Some (char_of (9::nat))"
  by (simp_all add: dquote_def bslash_def simple_escape_def)

lemma ord_quotes: "ord dquote = 34" "ord bslash = 92"
  by (simp_all add: dquote_def bslash_def)

lemma hex_val_hex_digit: "n < 16 \<Longrightarrow> hex_val (hex_digit n) = Some n"
  by (auto simp: hex_val_def hex_digit_def Let_def of_char_of)

lemma prepend_append: "prepend p (prepend q r) = prepend (p @ q) r"
  by (cases r) (auto simp: prepend_def)

lemma prepend_Some [simp]: "prepend p (Some (s, r)) = Some (p @ s, r)"
  by (simp add: prepend_def)

lemma lex_u_escape:
  assumes "getu4 (a # b # c # d # []) = Some r" "\<not> is_surrogate r"
  shows "lex_string (bslash # CHR ''u'' # a # b # c # d # x) = prepend (utf8_encode r) (lex_string x)"
proof -
  have "getu4 (a # b # c # d # x) = Some r"
    using assms(1) by (simp add: getu4_def split: option.splits)
  with assms(2) show ?thesis
    by (simp add: lex_string.simps(2) [of bslash])
qed

lemma lex_simple_escape:
  "simple_escape d = Some e \<Longrightarrow> lex_string (bslash # d # x) = prepend [e] (lex_string x)"
  by (simp add: lex_string.simps(2) [of bslash])

lemma getu4_ascii:
  assumes "n < 128"
  shows "getu4 [CHR ''0'', CHR ''0'', hex_digit (n div 16), hex_digit (n mod 16)] = Some n"
proof -
  have "hex_val CHR ''0'' = Some 0" by (simp add: hex_val_def)
  moreover have "n div 16 < 16" using assms by simp
  ultimately show ?thesis by (simp add: getu4_def hex_val_hex_digit)
qed

lemma lex_named_escape:
  assumes "ord c = k" and "simple_escape d = Some (char_of k)" and "escape_ascii c = [bslash, d]"
  shows "lex_string (escape_ascii c @ x) = prepend [c] (lex_string x)"
  using assms lex_simple_escape [of d c] by (metis append_Cons append_Nil char_of_char)

lemma lex_escape_ascii:
  assumes "ord c < 128"
  shows "lex_string (escape_ascii c @ x) = prepend [c] (lex_string x)"
proof -
  consider (q) "c = dquote \<or> c = bslash" | (n) "ord c = 10" | (r) "ord c = 13" | (t) "ord c = 9"
    | (u) "c \<noteq> dquote" "c \<noteq> bslash" "ord c \<noteq> 10" "ord c \<noteq> 13" "ord c \<noteq> 9"
        "ord c < 32 \<or> c = CHR ''<'' \<or> c = CHR ''>'' \<or> c = CHR ''&''"
    | (plain) "c \<noteq> dquote" "c \<noteq> bslash" "\<not> ord c < 32"
        "c \<noteq> CHR ''<''" "c \<noteq> CHR ''>''" "c \<noteq> CHR ''&''"
    by blast
  then show ?thesis
  proof cases
    case q
    then have "escape_ascii c = [bslash, c]" and "simple_escape c = Some c"
      by (auto simp: escape_ascii_def simple_escape_def)
    then show ?thesis by (simp add: lex_simple_escape)
  next
    case n
    then show ?thesis using ord_quotes
      by (intro lex_named_escape [of c 10 "CHR ''n''"]) (auto simp: escape_ascii_def simple_escape_def dquote_def bslash_def)
  next
    case r
    then show ?thesis using ord_quotes
      by (intro lex_named_escape [of c 13 "CHR ''r''"]) (auto simp: escape_ascii_def simple_escape_def dquote_def bslash_def)
  next
    case t
    then show ?thesis using ord_quotes
      by (intro lex_named_escape [of c 9 "CHR ''t''"]) (auto simp: escape_ascii_def simple_escape_def dquote_def bslash_def)
  next
    case u
    then have esc: "escape_ascii c =
      [bslash, CHR ''u'', CHR ''0'', CHR ''0'', hex_digit (ord c div 16), hex_digit (ord c mod 16)]"
      by (auto simp: escape_ascii_def)
    have "utf8_encode (ord c) = [c]" using assms by (simp add: utf8_encode_def)
    moreover have "\<not> is_surrogate (ord c)" using assms by (simp add: is_surrogate_def)
    ultimately show ?thesis
      using lex_u_escape [OF getu4_ascii [OF assms]] by (simp add: esc)
  next
    case plain
    then have "escape_ascii c = [c]" by (auto simp: escape_ascii_def)
    with plain assms show ?thesis by (simp add: lex_string.simps(2) [of c])
  qed
qed

lemma utf8_len_cases:
  assumes "utf8_len s = Some n"
  obtains (two) a b r where "s = a # b # r" "n = 2"
  | (three) a b c r where "s = a # b # c # r" "n = 3"
  | (four) a b c d r where "s = a # b # c # d # r" "n = 4"
  using assms by (auto simp: utf8_len_def Let_def split: list.splits if_splits)

lemma utf8_len_take:
  assumes "utf8_len s = Some n"
  shows "utf8_len (take n s @ x) = Some n"
  using assms by (rule utf8_len_cases) (use assms in \<open>auto simp: utf8_len_def Let_def split: if_splits list.splits\<close>)

lemma utf8_len_bounds:
  assumes "utf8_len s = Some n"
  shows "2 \<le> n" "n \<le> length s"
  using assms by (rule utf8_len_cases, auto)+

lemma lex_multibyte:
  assumes "\<not> ord c < 128" and "utf8_len (c # cs) = Some n"
  shows "lex_string (take n (c # cs) @ x) = prepend (take n (c # cs)) (lex_string x)"
proof -
  from utf8_len_bounds [OF assms(2)] have n: "2 \<le> n" "n \<le> Suc (length cs)" by auto
  let ?t = "take (n - 1) cs"
  have t: "take n (c # cs) = c # ?t" using n by (cases n) auto
  have len: "length ?t = n - 1" using n by auto
  have "utf8_len (c # ?t @ x) = Some n" using utf8_len_take [OF assms(2), of x] by (simp add: t)
  moreover have "c \<noteq> dquote" "c \<noteq> bslash" "\<not> ord c < 32"
    using assms(1) by (auto simp: dquote_def bslash_def)
  moreover have "take n (c # ?t @ x) = c # ?t" "drop (n - 1) (?t @ x) = x"
    using len n by (cases n; simp)+
  ultimately show ?thesis using assms(1)
    by (simp add: t lex_string.simps(2) [of c])
qed

lemma lex_lineSep: "lex_string (bslash # ''u2028'' @ x) = prepend lineSep (lex_string x)"
  and lex_paraSep: "lex_string (bslash # ''u2029'' @ x) = prepend paraSep (lex_string x)"
proof -
  have "getu4 ''2028'' = Some 8232" "getu4 ''2029'' = Some 8233"
    by (simp_all add: getu4_def hex_val_def)
  from this [THEN lex_u_escape, of x]
  show "lex_string (bslash # ''u2028'' @ x) = prepend lineSep (lex_string x)"
    "lex_string (bslash # ''u2029'' @ x) = prepend paraSep (lex_string x)"
    by (simp_all add: is_surrogate_def utf8_encode_def lineSep_def paraSep_def)
qed

lemma lex_escape_string:
  "valid_utf8 s \<Longrightarrow> lex_string (escape_string s @ dquote # x) = Some (s, x)"
proof (induction s rule: escape_string.induct)
  case 1
  then show ?case by (simp add: escape_string.simps lex_string.simps)
next
  case (2 c cs)
  show ?case
  proof (cases "ord c < 128")
    case True
    with 2 have "lex_string (escape_string cs @ dquote # x) = Some (cs, x)" by simp
    with True show ?thesis by (simp add: escape_string.simps lex_escape_ascii)
  next
    case False
    with "2.prems" obtain n where n: "utf8_len (c # cs) = Some n" "valid_utf8 (drop (n - 1) cs)"
      by (auto split: option.splits)
    let ?r = "escape_string (drop (n - 1) cs) @ dquote # x"
    have IH: "lex_string ?r = Some (drop (n - 1) cs, x)"
      using "2.IH"(3) [OF False n] .
    have split: "take n (c # cs) @ drop (n - 1) cs = c # cs"
      using utf8_len_bounds [OF n(1)] by (cases n) auto
    have "escape_string (c # cs) =
        (if take n (c # cs) = lineSep then bslash # ''u2028''
         else if take n (c # cs) = paraSep then bslash # ''u2029''
         else take n (c # cs)) @ escape_string (drop (n - 1) cs)"
      using False n(1) by (simp add: escape_string.simps)
    then have "lex_string (escape_string (c # cs) @ dquote # x) = prepend (take n (c # cs)) (lex_string ?r)"
      using lex_lineSep [of ?r] lex_paraSep [of ?r] lex_multibyte [OF False n(1), of ?r] by auto
    with IH split show ?thesis by simp
  qed
qed

section \<open>Facts: an entry survives encoding\<close>

declare parse_value.simps [simp del] parse_members.simps [simp del] parse_elems.simps [simp del]

lemma skip_ws_stop [simp]: "\<not> is_ws c \<Longrightarrow> skip_ws (c # cs) = c # cs"
  by (simp add: skip_ws_def)

lemma not_ws [simp]: "\<not> is_ws dquote" "\<not> is_ws (CHR ''}'')" "\<not> is_ws (CHR ''{'')"
  "\<not> is_ws (CHR '','')" "\<not> is_ws (CHR '':'')"
  by (simp_all add: is_ws_def dquote_def)

lemma value_string:
  "valid_utf8 s \<Longrightarrow> parse_value (Suc fuel) depth (quote s @ x) = Some (JStr s, x)"
  using lex_escape_string [of s x] by (simp add: parse_value.simps quote_def)

lemma member_last:
  assumes "valid_utf8 k" and "parse_value fuel depth body = Some (v, CHR ''}'' # x)"
  shows "parse_members (Suc fuel) depth (quote k @ CHR '':'' # body) = Some ([(k, v)], x)"
  using assms lex_escape_string [of k "CHR '':'' # body"]
  by (simp add: parse_members.simps quote_def)

lemma member_more:
  assumes "valid_utf8 k" and "parse_value fuel depth body = Some (v, CHR '','' # x)"
    and "parse_members fuel depth x = Some (ms, y)"
  shows "parse_members (Suc fuel) depth (quote k @ CHR '':'' # body) = Some ((k, v) # ms, y)"
  using assms lex_escape_string [of k "CHR '':'' # body"]
  by (simp add: parse_members.simps quote_def)

lemma of_char_0_digit: "(of_char (CHR ''0'') :: nat) = 48"
  by simp

lemma char_of_zero_digit: "(n :: nat) < 10 \<Longrightarrow> char_of (48 + n) = CHR ''0'' \<longleftrightarrow> n = 0"
proof -
  assume "n < 10"
  then have "(of_char (char_of (48 + n) :: char) :: nat) = 48 + n" by simp
  then show ?thesis
    by (metis add.right_neutral add_left_cancel char_of_char of_char_0_digit)
qed

lemma lex_int_utoa:
  assumes "\<not> is_digit d"
  shows "lex_int (utoa n @ d # x) = Some (utoa n, d # x)"
proof (cases "n = 0")
  case True
  then show ?thesis using char_of_zero_digit [of 0] by (simp add: utoa.simps [of 0] lex_int_def)
next
  case False
  obtain c cs where c: "utoa n = c # cs" by (cases "utoa n") auto
  with False utoa_no_leading_zero [of n] have "c \<noteq> CHR ''0''" by simp
  moreover from c utoa_is_digit [of n] have "is_digit c" "list_all is_digit cs" by simp_all
  moreover from this(2) assms have "takeWhile is_digit (cs @ d # x) = cs" "dropWhile is_digit (cs @ d # x) = d # x"
    by (induction cs) auto
  ultimately show ?thesis by (simp add: c lex_int_def)
qed

lemma lex_number_itoa: "lex_number (itoa i @ CHR ''}'' # x) = Some (itoa i, CHR ''}'' # x)"
proof -
  have int: "lex_int (utoa n @ CHR ''}'' # x) = Some (utoa n, CHR ''}'' # x)" for n
    by (rule lex_int_utoa) (simp add: is_digit_def)
  have hd: "utoa n = c # cs \<Longrightarrow> c \<noteq> CHR ''-''" for n c cs
    using utoa_hd [of n] by auto
  show ?thesis
  proof (cases "i < 0")
    case True
    then show ?thesis by (simp add: lex_number_def itoa_def int lex_frac_def lex_exp_def)
  next
    case False
    obtain c cs where c: "utoa (nat i) = c # cs" by (cases "utoa (nat i)") auto
    with False hd [OF c] int [of "nat i"] show ?thesis
      by (simp add: lex_number_def itoa_def lex_frac_def lex_exp_def)
  qed
qed

lemma value_int: "parse_value (Suc fuel) depth (itoa i @ CHR ''}'' # x) = Some (JNum (itoa i), CHR ''}'' # x)"
proof -
  obtain c cs where c: "itoa i = c # cs" and cd: "c = CHR ''-'' \<or> is_digit c"
    using utoa_is_digit [of "nat i"]
    by (cases "i < 0"; cases "utoa (nat i)") (auto simp: itoa_def)
  have "\<not> is_ws c" "c \<noteq> dquote" "c \<noteq> CHR ''{''" "c \<noteq> CHR ''[''" "c \<noteq> CHR ''t''" "c \<noteq> CHR ''f''" "c \<noteq> CHR ''n''"
    using cd by (auto simp: is_ws_def is_digit_def dquote_def)
  then show ?thesis using lex_number_itoa [of i x] by (simp add: c parse_value.simps)
qed

lemma parse_object:
  assumes "m = dquote # qs" and "depth \<noteq> 0"
  shows "parse_value (Suc fuel) depth (CHR ''{'' # m) =
    map_option (\<lambda>(ms, r). (JObj ms, r)) (parse_members fuel (depth - 1) m)"
proof -
  have "CHR ''{'' \<noteq> dquote" "dquote \<noteq> CHR ''}''" by (simp_all add: dquote_def)
  with assms show ?thesis by (simp add: parse_value.simps)
qed

lemma parse_marshal:
  assumes "valid_utf8 (NodeName e)" and "valid_utf8 (NodeIP e)"
  shows "parse_json (MarshalNodeEntry e) =
    Some (JObj [(''nodeName'', JStr (NodeName e)), (''nodeIP'', JStr (NodeIP e)),
                (''livenessPort'', JNum (itoa (LivenessPort e)))])"
proof -
  define m3 where "m3 = quote ''livenessPort'' @ CHR '':'' # (itoa (LivenessPort e) @ ''}'')"
  define m2 where "m2 = quote ''nodeIP'' @ CHR '':'' # (quote (NodeIP e) @ CHR '','' # m3)"
  define m1 where "m1 = quote ''nodeName'' @ CHR '':'' # (quote (NodeName e) @ CHR '','' # m2)"
  have eq: "MarshalNodeEntry e = CHR ''{'' # m1"
    by (simp add: MarshalNodeEntry_def m1_def m2_def m3_def)
  have q1: "m1 = dquote # tl m1" by (simp add: m1_def quote_def)
  define fuel where "fuel = 2 * length (MarshalNodeEntry e) - 4"
  have len: "3 \<le> length (MarshalNodeEntry e)" by (simp add: eq m1_def quote_def)
  then have fuel: "2 * length (MarshalNodeEntry e) + 2 = Suc (Suc (Suc (Suc (Suc (Suc fuel)))))"
    by (simp add: fuel_def)
  have 3: "parse_members (Suc (Suc f)) d m3 = Some ([(''livenessPort'', JNum (itoa (LivenessPort e)))], [])" for f d
    unfolding m3_def by (rule member_last) (simp, rule value_int)
  have 2: "parse_members (Suc (Suc (Suc f))) d m2 =
      Some ([(''nodeIP'', JStr (NodeIP e)), (''livenessPort'', JNum (itoa (LivenessPort e)))], [])" for f d
    unfolding m2_def by (rule member_more) (simp, rule value_string, rule assms(2), rule 3)
  have 1: "parse_members (Suc (Suc (Suc (Suc f)))) d m1 =
      Some ([(''nodeName'', JStr (NodeName e)), (''nodeIP'', JStr (NodeIP e)),
             (''livenessPort'', JNum (itoa (LivenessPort e)))], [])" for f d
    unfolding m1_def by (rule member_more) (simp, rule value_string, rule assms(1), rule 2)
  have "parse_value (Suc (Suc (Suc (Suc (Suc (Suc fuel)))))) maxNestingDepth (CHR ''{'' # m1) =
      map_option (\<lambda>(ms, r). (JObj ms, r)) (parse_members (Suc (Suc (Suc (Suc (Suc fuel))))) (maxNestingDepth - 1) m1)"
    using parse_object [OF q1, of maxNestingDepth] by (simp add: maxNestingDepth_def)
  then show ?thesis
    unfolding parse_json_def fuel by (simp add: eq 1 skip_ws_def)
qed

lemma Unmarshal_Marshal:
  assumes "valid_utf8 (NodeName e)" and "valid_utf8 (NodeIP e)"
    and "- (2 ^ 63) \<le> LivenessPort e" and "LivenessPort e < 2 ^ 63"
  shows "UnmarshalNodeEntry (MarshalNodeEntry e) = Inr e"
  using parse_marshal [OF assms(1,2)] ParseInt_itoa [OF assms(3,4)]
  by (simp add: UnmarshalNodeEntry_def store_member_def store_string_def store_int_def
      zero_entry_def Let_def)

text \<open>
  C31: Round trip of the registry's encoding: decoding the JSON text of an entry gives the entry
  back, for every valid UTF-8 name and address and every 64-bit port.
\<close>

theorem NodeEntry_roundtrip:
  assumes "valid_utf8 (NodeName e)" and "valid_utf8 (NodeIP e)"
    and "- (2 ^ 63) \<le> LivenessPort e" and "LivenessPort e < 2 ^ 63"
  shows "UnmarshalNodeEntry (MarshalNodeEntry e) = Inr e"
  using assms by (rule Unmarshal_Marshal)

theorem NodeEntry_roundtrip_witness:
  "UnmarshalNodeEntry (MarshalNodeEntry \<lparr>NodeName = ''n<1>'', NodeIP = ''10.0.0.1'', LivenessPort = - 7\<rparr>) =
     Inr \<lparr>NodeName = ''n<1>'', NodeIP = ''10.0.0.1'', LivenessPort = - 7\<rparr>"
  by (rule NodeEntry_roundtrip) simp_all

end
