(* ===== verification/Api_Types.thy ===== *)
theory Api_Types
  imports Go_Strings
begin

text \<open>
  The data the driver exchanges with code outside the repository: the messages of the CSI
  protocol (generated from its protobuf description), the models of the CloudTower SDK, the
  mount table entries of \<open>k8s.io/utils/mount\<close> and the ConfigMap of the Kubernetes API, each
  with the fields the driver reads or writes.  A Go pointer is an \<open>option\<close> (\<open>None\<close> is
  \<open>nil\<close>), a slice of pointers a list of options, a map a partial function or, where the
  driver counts its entries, an association list.
\<close>

section \<open>CSI messages\<close>

text \<open>
  \<open>csi.VolumeCapability_AccessMode_Mode\<close> is an open protobuf enum: \<open>MODE_OTHER\<close> stands for
  every value that has no constant in the driver.
\<close>

datatype AccessMode_Mode =
    MODE_UNKNOWN
  | SINGLE_NODE_WRITER
  | SINGLE_NODE_READER_ONLY
  | MULTI_NODE_READER_ONLY
  | MULTI_NODE_SINGLE_WRITER
  | MULTI_NODE_MULTI_WRITER
  | MODE_OTHER int

record MountVolume =
  FsType :: string
  MountFlags :: "string list"

datatype AccessType = BlockAccess | MountAccess MountVolume

record VolumeCapability =
  cap_AccessType :: "AccessType option"
  cap_AccessMode :: "AccessMode_Mode option"

record CapacityRange =
  RequiredBytes :: int64
  LimitBytes :: int64

datatype VolumeContentSource = SnapshotSource string | VolumeSource string

type_synonym params = "string \<rightharpoonup> string"

record CreateVolumeRequest =
  create_Name :: string
  create_CapacityRange :: "CapacityRange option"
  create_VolumeCapabilities :: "VolumeCapability option list"
  create_Parameters :: params
  create_ContentSource :: "VolumeContentSource option"

record Volume =
  vol_VolumeId :: string
  vol_CapacityBytes :: int64
  vol_ContentSource :: "VolumeContentSource option"
  vol_VolumeContext :: params

record ControllerPublishVolumeRequest =
  cpub_VolumeId :: string
  cpub_NodeId :: string
  cpub_Readonly :: bool
  cpub_VolumeCapability :: "VolumeCapability option"

record ControllerUnpublishVolumeRequest =
  cunpub_VolumeId :: string
  cunpub_NodeId :: string

record ValidateVolumeCapabilitiesRequest =
  val_VolumeId :: string
  val_VolumeCapabilities :: "VolumeCapability option list"
  val_VolumeContext :: params
  val_Parameters :: params

record Confirmed =
  conf_VolumeContext :: params
  conf_VolumeCapabilities :: "VolumeCapability option list"
  conf_Parameters :: params

record ControllerExpandVolumeRequest =
  cexp_VolumeId :: string
  cexp_CapacityRange :: "CapacityRange option"
  cexp_VolumeCapability :: "VolumeCapability option"

record ControllerExpandVolumeResponse =
  cexp_CapacityBytes :: int64
  cexp_NodeExpansionRequired :: bool

record NodeStageVolumeRequest =
  stage_VolumeId :: string
  stage_StagingTargetPath :: string
  stage_VolumeCapability :: "VolumeCapability option"

record NodePublishVolumeRequest =
  npub_VolumeId :: string
  npub_TargetPath :: string
  npub_StagingTargetPath :: string
  npub_VolumeCapability :: "VolumeCapability option"
  npub_Readonly :: bool

record NodeGetInfoResponse =
  info_NodeId :: string
  info_MaxVolumesPerNode :: int64

datatype ControllerCapability =
  CREATE_DELETE_VOLUME | PUBLISH_UNPUBLISH_VOLUME | CREATE_DELETE_SNAPSHOT
  | CTRL_EXPAND_VOLUME | CLONE_VOLUME

datatype NodeCapability = STAGE_UNSTAGE_VOLUME | NODE_EXPAND_VOLUME | GET_VOLUME_STATS

datatype PluginCapability = CONTROLLER_SERVICE | VOLUME_EXPANSION_ONLINE

text \<open>The getters of generated messages are safe on \<open>nil\<close>: they return the zero value.\<close>

definition GetRequiredBytes :: "CapacityRange option \<Rightarrow> int64" where
  "GetRequiredBytes r = (case r of None \<Rightarrow> 0 | Some c \<Rightarrow> RequiredBytes c)"

definition GetLimitBytes :: "CapacityRange option \<Rightarrow> int64" where
  "GetLimitBytes r = (case r of None \<Rightarrow> 0 | Some c \<Rightarrow> LimitBytes c)"

definition GetMount :: "VolumeCapability option \<Rightarrow> MountVolume option" where
  "GetMount c =
     (case c of None \<Rightarrow> None
      | Some v \<Rightarrow> (case cap_AccessType v of Some (MountAccess m) \<Rightarrow> Some m | _ \<Rightarrow> None))"

definition GetBlock :: "VolumeCapability option \<Rightarrow> bool" where
  \<comment> \<open>\<open>GetBlock() != nil\<close>\<close>
  "GetBlock c =
     (case c of None \<Rightarrow> False | Some v \<Rightarrow> cap_AccessType v = Some BlockAccess)"

definition GetMode :: "VolumeCapability option \<Rightarrow> AccessMode_Mode" where
  \<comment> \<open>\<open>GetAccessMode().GetMode()\<close>; the zero value of the enum is \<open>UNKNOWN\<close>\<close>
  "GetMode c =
     (case c of None \<Rightarrow> MODE_UNKNOWN
      | Some v \<Rightarrow> (case cap_AccessMode v of None \<Rightarrow> MODE_UNKNOWN | Some m \<Rightarrow> m))"

definition GetFsType :: "MountVolume option \<Rightarrow> string" where
  "GetFsType m = (case m of None \<Rightarrow> [] | Some v \<Rightarrow> FsType v)"

definition GetMountFlags :: "MountVolume option \<Rightarrow> string list" where
  "GetMountFlags m = (case m of None \<Rightarrow> [] | Some v \<Rightarrow> MountFlags v)"

section \<open>CloudTower models\<close>

datatype StoragePolicyType =
  REPLICA_2_THIN_PROVISION | REPLICA_3_THIN_PROVISION
  | REPLICA_2_THICK_PROVISION | REPLICA_3_THICK_PROVISION

text \<open>\<open>models.TaskStatus\<close> is a string; the driver compares it with two constants.\<close>

datatype TaskStatus = TaskStatusSUCCESSED | TaskStatusFAILED | TaskStatusOther string

record NestedRef =
  ref_ID :: "string option"

record VMVolume =
  ID :: "string option"
  Size :: "int64 option"
  Mounting :: "bool option"
  VMDisks :: "NestedRef option list"
  Labels :: "NestedRef option list"

record VM =
  vm_VMDisks :: "NestedRef option list"

record VMDisk =
  disk_ID :: "string option"
  Serial :: "string option"

record Cluster =
  cluster_ID :: "string option"

record Label =
  label_ID :: "string option"

record Task =
  Status :: "TaskStatus option"

record WithTaskVMVolume =
  wtv_TaskID :: "string option"
  wtv_Data :: "VMVolume option"

record WithTaskLabel =
  wtl_TaskID :: "string option"
  wtl_Data :: "Label option"

record WithTask =
  TaskID :: "string option"

datatype VMVolumeWhereInput = VolumeWhereName string | VolumeWhereID string

record VMVolumeCreationParams =
  cp_ClusterID :: "string option"
  cp_ElfStoragePolicy :: StoragePolicyType
  cp_Size :: int64
  cp_Name :: string
  cp_Sharing :: bool

datatype Bus = BusVIRTIO

record MountDisksParams =
  md_Index :: int32
  md_VMVolumeID :: string
  md_Boot :: int32
  md_Bus :: Bus

section \<open>Mount table, ConfigMap\<close>

record MountPoint =
  Device :: string
  Path :: string
  Type :: string
  Opts :: "string list"

record MountInfo =
  mi_Root :: string
  mi_Source :: string
  mi_MountPoint :: string
  mi_FsType :: string
  mi_MountOptions :: "string list"

text \<open>
  A ConfigMap: its binary data (\<open>None\<close> is the nil map, which cannot be written to) and the
  resource version the API server checks on update.
\<close>

record ConfigMap =
  BinaryData :: "(string \<times> string) list option"
  ResourceVersion :: nat

end
