(* ===== verification/Go_Runtime.thy ===== *)
theory Go_Runtime
  imports Api_Types
begin

text \<open>
  The effects of the driver's Go code.  A function of the driver is a function from the world
  to an outcome and the next world: it returns a value, returns an error, panics (a nil
  dereference or an index out of range) or runs forever.  The world is the state of everything
  outside the program (\<open>ext\<close>, of any type), the state the fake mounter keeps, and the
  \<open>trace\<close>, the list of the external calls made so far with their arguments, a record the
  program itself never reads.  Each service outside the repository (CloudTower, the Kubernetes
  ConfigMap client, the operating system, \<open>k8s.io/utils/mount\<close>) is a record of functions on
  \<open>ext\<close>, a parameter of the definitions that use it.
\<close>

section \<open>Errors\<close>

datatype code =
    InvalidArgument
  | NotFound
  | AlreadyExists
  | FailedPrecondition
  | Internal
  | Unimplemented

text \<open>
  An error keeps its format string and the formatted arguments instead of the rendered text.
  \<open>StatusErr\<close> is \<open>status.Error\<close>/\<open>status.Errorf\<close>, \<open>Errorf\<close> is \<open>fmt.Errorf\<close>, \<open>ExtErr\<close> an
  error made outside the program, \<open>NotExistErr\<close> one for which \<open>os.IsNotExist\<close> holds.  \<open>APtr\<close> is a
  pointer, which prints as an address.
\<close>

datatype go_error =
    StatusErr code string "fmt_arg list"
  | Errorf string "fmt_arg list"
  | MountErr string string "fmt_arg list"
  | ExtErr string
  | NotExistErr string
and fmt_arg =
    AStr string
  | AStrs "string list"
  | AInt int
  | ABool bool
  | AMode AccessMode_Mode
  | ARange "CapacityRange option"
  | APtr
  | AErr go_error

fun IsNotExist :: "go_error \<Rightarrow> bool" where
  "IsNotExist (NotExistErr _) = True"
| "IsNotExist _ = False"

fun code_of :: "go_error \<Rightarrow> code option" where
  "code_of (StatusErr c _ _) = Some c"
| "code_of _ = None"

section \<open>External calls\<close>

datatype event =
    EvGetVMVolumes VMVolumeWhereInput
  | EvCreateVMVolume VMVolumeCreationParams
  | EvDeleteVMVolume string
  | EvGetClusters string
  | EvGetVms string
  | EvAddVMDisk string MountDisksParams
  | EvRemoveVMDisk string "string list"
  | EvGetVMDisks string string
  | EvGetTasks string
  | EvGetLabels string string
  | EvCreateLabel string string
  | EvAddLabels "string list" string
  | EvConfigMapGet string
  | EvConfigMapUpdate string ConfigMap
  | EvDial string
  | EvRpcCall string
  | EvRpcClose string
  | EvLockKey string
  | EvUnlockKey string
  | EvSleep int
  | EvNow
  | EvStat string
  | EvMkdirAll string
  | EvCreate string
  | EvRemoveAll string
  | EvRemove string
  | EvLookupEnv string
  | EvReadFile string
  | EvEvalSymlinks string
  | EvSh string
  | EvCommand string "string list"
  | EvListen string string
  | EvMount string string string "string list"
  | EvUnmount string
  | EvIsLikelyNotMountPoint string
  | EvMountList
  | EvGetDiskFormat string
  | EvKFormatAndMount string string string "string list"
  | EvParseMountInfo string
  | EvRegister string
  | EvServe
  | EvLog string string
  | EvGetPVC string string
  | EvKubeConfig string
  | EvKubeClient
  | EvTowerLogin string string

text \<open>
  The calls that change something outside the program: the storage platform, the registry, the
  file system, the mount table or a device.
\<close>

definition mutates :: "event \<Rightarrow> bool" where
  "mutates ev =
     (case ev of
        EvCreateVMVolume _ \<Rightarrow> True | EvDeleteVMVolume _ \<Rightarrow> True | EvAddVMDisk _ _ \<Rightarrow> True
      | EvRemoveVMDisk _ _ \<Rightarrow> True | EvCreateLabel _ _ \<Rightarrow> True | EvAddLabels _ _ \<Rightarrow> True
      | EvConfigMapUpdate _ _ \<Rightarrow> True | EvMkdirAll _ \<Rightarrow> True | EvCreate _ \<Rightarrow> True
      | EvRemoveAll _ \<Rightarrow> True | EvRemove _ \<Rightarrow> True | EvSh _ \<Rightarrow> True | EvCommand _ _ \<Rightarrow> True
      | EvListen _ _ \<Rightarrow> True | EvMount _ _ _ _ \<Rightarrow> True | EvUnmount _ \<Rightarrow> True
      | EvKFormatAndMount _ _ _ _ \<Rightarrow> True | EvRegister _ \<Rightarrow> True | EvServe \<Rightarrow> True
      | _ \<Rightarrow> False)"

section \<open>World and outcomes\<close>

record 'w world =
  ext :: 'w
  deviceFSTypeMap :: "(string \<times> string) list"
  trace :: "event list"

datatype 'a res = Ret 'a | Fail go_error | Panic | Diverge

type_synonym ('w, 'a) io = "'w world \<Rightarrow> 'a res \<times> 'w world"
type_synonym ('w, 'a) ext_fun = "'w \<Rightarrow> (go_error + 'a) \<times> 'w"

definition returnE :: "'a \<Rightarrow> ('w, 'a) io" where
  [go_defs]: "returnE a w = (Ret a, w)"

definition failE :: "go_error \<Rightarrow> ('w, 'a) io" where
  [go_defs]: "failE e w = (Fail e, w)"

definition panicE :: "('w, 'a) io" where
  [go_defs]: "panicE w = (Panic, w)"

text \<open>A pure function with its outcome, called from effectful code.\<close>

definition liftR :: "'a res \<Rightarrow> ('w, 'a) io" where
  [go_defs]: "liftR r w = (r, w)"

text \<open>Sequencing: \<open>x, err := m; if err != nil \{ return err \}; f(x)\<close>.\<close>

definition bindE :: "('w, 'a) io \<Rightarrow> ('a \<Rightarrow> ('w, 'b) io) \<Rightarrow> ('w, 'b) io" where
  [go_defs]: "bindE m f w =
     (case m w of (r, w') \<Rightarrow>
        (case r of Ret a \<Rightarrow> f a w' | Fail e \<Rightarrow> (Fail e, w') | Panic \<Rightarrow> (Panic, w')
         | Diverge \<Rightarrow> (Diverge, w')))"

text \<open>\<open>wrapE\<close> replaces the error a call returns, as \<open>return status.Errorf(\<dots>, err)\<close> does.\<close>

definition wrapE :: "(go_error \<Rightarrow> go_error) \<Rightarrow> ('w, 'a) io \<Rightarrow> ('w, 'a) io" where
  [go_defs]: "wrapE g m w =
     (case m w of (r, w') \<Rightarrow> (case r of Fail e \<Rightarrow> Fail (g e) | _ \<Rightarrow> r, w'))"

text \<open>\<open>attemptE\<close> hands the error to the caller as a value, for code that inspects \<open>err\<close>.\<close>

definition attemptE :: "('w, 'a) io \<Rightarrow> ('w, go_error + 'a) io" where
  [go_defs]: "attemptE m w =
     (case m w of (r, w') \<Rightarrow>
        (case r of Ret a \<Rightarrow> Ret (Inr a) | Fail e \<Rightarrow> Ret (Inl e) | Panic \<Rightarrow> Panic
         | Diverge \<Rightarrow> Diverge, w'))"

text \<open>A deferred call runs when the function returns or panics; its own result is dropped.\<close>

definition deferE :: "('w, unit) io \<Rightarrow> ('w, 'a) io \<Rightarrow> ('w, 'a) io" where
  [go_defs]: "deferE cleanup m w =
     (case m w of (r, w') \<Rightarrow> if r = Diverge then (r, w') else (r, snd (cleanup w')))"

definition derefE :: "'a option \<Rightarrow> ('w, 'a) io" where
  [go_defs]: "derefE p = (case p of None \<Rightarrow> panicE | Some a \<Rightarrow> returnE a)"

definition index0E :: "'a list \<Rightarrow> ('w, 'a) io" where
  [go_defs]: "index0E xs = (case xs of [] \<Rightarrow> panicE | x # _ \<Rightarrow> returnE x)"

text \<open>\<open>payload[0]\<close> followed by a field access: the slice's first pointer, dereferenced.\<close>

definition first_of :: "'a option list \<Rightarrow> ('w, 'a) io" where
  [go_defs]: "first_of xs = bindE (index0E xs) derefE"

definition callE :: "event \<Rightarrow> ('w, 'a) ext_fun \<Rightarrow> ('w, 'a) io" where
  [go_defs]: "callE ev f w =
     (case f (ext w) of (r, x) \<Rightarrow>
        (case r of Inl e \<Rightarrow> Fail e | Inr a \<Rightarrow> Ret a, w\<lparr>ext := x, trace := trace w @ [ev]\<rparr>))"

definition emitE :: "event \<Rightarrow> ('w, unit) io" where
  [go_defs]: "emitE ev w = (Ret (), w\<lparr>trace := trace w @ [ev]\<rparr>)"

text \<open>
  Go's \<open>for \{ \<dots> \}\<close> with no condition: the body returns \<open>None\<close> to go round again and \<open>Some r\<close>
  to leave the function with \<open>r\<close>; an error or a panic leaves it too.
\<close>

partial_function (option) for_loop ::
    "('s \<Rightarrow> 'r option \<times> 's) \<Rightarrow> 's \<Rightarrow> ('r \<times> 's) option" where
  "for_loop body s =
     (case body s of (x, s') \<Rightarrow> (case x of None \<Rightarrow> for_loop body s' | Some r \<Rightarrow> Some (r, s')))"

definition loop_body :: "('w, 'a option) io \<Rightarrow> 'w world \<Rightarrow> 'a res option \<times> 'w world" where
  "loop_body m w =
     (case m w of (r, w') \<Rightarrow>
        (case r of Ret None \<Rightarrow> None | Ret (Some a) \<Rightarrow> Some (Ret a) | Fail e \<Rightarrow> Some (Fail e)
         | Panic \<Rightarrow> Some Panic | Diverge \<Rightarrow> Some Diverge, w'))"

definition forE :: "('w, 'a option) io \<Rightarrow> ('w, 'a) io" where
  "forE m w = (case for_loop (loop_body m) w of None \<Rightarrow> (Diverge, w) | Some rw \<Rightarrow> rw)"

text \<open>\<open>for _, x := range xs\<close> with a state; the body may leave the function with an error.\<close>

fun rangeE :: "('a \<Rightarrow> 's \<Rightarrow> ('w, 's) io) \<Rightarrow> 'a list \<Rightarrow> 's \<Rightarrow> ('w, 's) io" where
  "rangeE f [] s = returnE s"
| "rangeE f (x # xs) s = bindE (f x s) (rangeE f xs)"

section \<open>Services outside the repository\<close>

record 'w towerclient =
  tc_GetVMVolumes :: "VMVolumeWhereInput \<Rightarrow> ('w, VMVolume option list) ext_fun"
  tc_CreateVMVolume :: "VMVolumeCreationParams \<Rightarrow> ('w, WithTaskVMVolume option list) ext_fun"
  tc_DeleteVMVolumeFromVM :: "string \<Rightarrow> ('w, WithTask option list) ext_fun"
  tc_GetClusters :: "string \<Rightarrow> ('w, Cluster option list) ext_fun"
  tc_GetVms :: "string \<Rightarrow> ('w, VM option list) ext_fun"
  tc_AddVMDisk :: "string \<Rightarrow> MountDisksParams \<Rightarrow> ('w, WithTask option list) ext_fun"
  tc_RemoveVMDisk :: "string \<Rightarrow> string list \<Rightarrow> ('w, WithTask option list) ext_fun"
  tc_GetVMDisks :: "string \<Rightarrow> string \<Rightarrow> ('w, VMDisk option list) ext_fun"
  tc_GetTasks :: "string \<Rightarrow> ('w, Task option list) ext_fun"
  tc_GetLabels :: "string \<Rightarrow> string \<Rightarrow> ('w, Label option list) ext_fun"
  tc_CreateLabel :: "string \<Rightarrow> string \<Rightarrow> ('w, WithTaskLabel option list) ext_fun"
  tc_AddLabelsToResources :: "string list \<Rightarrow> string \<Rightarrow> ('w, WithTask option list) ext_fun"

record 'w configmaps =
  cm_Get :: "string \<Rightarrow> ('w, ConfigMap) ext_fun"
  cm_Update :: "string \<Rightarrow> ConfigMap \<Rightarrow> ('w, ConfigMap) ext_fun"

text \<open>
  The operating system as the driver sees it through \<open>os\<close>, \<open>os/exec\<close>, \<open>net\<close>, \<open>net/rpc\<close> and
  \<open>time\<close>: \<open>os_Stat\<close> tells whether the path is a directory, \<open>os_sh\<close> is the combined output of
  \<open>/bin/sh -c\<close> with the exit status, \<open>os_Liveness\<close> the \<open>Health\<close> field of the reply.  Times and
  durations are nanoseconds; \<open>os_Now\<close> may let time pass.
\<close>

record 'w os =
  os_Stat :: "string \<Rightarrow> ('w, bool) ext_fun"
  os_MkdirAll :: "string \<Rightarrow> ('w, unit) ext_fun"
  os_Create :: "string \<Rightarrow> ('w, unit) ext_fun"
  os_RemoveAll :: "string \<Rightarrow> ('w, unit) ext_fun"
  os_Remove :: "string \<Rightarrow> ('w, unit) ext_fun"
  os_LookupEnv :: "string \<Rightarrow> 'w \<Rightarrow> string option"
  os_ReadFile :: "string \<Rightarrow> ('w, string) ext_fun"
  os_EvalSymlinks :: "string \<Rightarrow> ('w, string) ext_fun"
  os_sh :: "string \<Rightarrow> 'w \<Rightarrow> (string \<times> go_error option) \<times> 'w"
  os_command :: "string \<Rightarrow> string list \<Rightarrow> 'w \<Rightarrow> (string \<times> go_error option) \<times> 'w"
  os_Dial :: "string \<Rightarrow> ('w, unit) ext_fun"
  os_Liveness :: "string \<Rightarrow> ('w, bool) ext_fun"
  os_Listen :: "string \<Rightarrow> string \<Rightarrow> ('w, unit) ext_fun"
  os_Now :: "'w \<Rightarrow> int \<times> 'w"
  os_Sleep :: "int \<Rightarrow> 'w \<Rightarrow> 'w"
  os_unicode :: unicode

text \<open>\<open>kmount.Interface\<close> and \<open>kmount.SafeFormatAndMount\<close>.\<close>

record 'w kmount =
  km_Mount :: "string \<Rightarrow> string \<Rightarrow> string \<Rightarrow> string list \<Rightarrow> ('w, unit) ext_fun"
  km_Unmount :: "string \<Rightarrow> ('w, unit) ext_fun"
  km_IsLikelyNotMountPoint :: "string \<Rightarrow> ('w, bool) ext_fun"
  km_List :: "('w, MountPoint list) ext_fun"
  km_GetDiskFormat :: "string \<Rightarrow> ('w, string) ext_fun"
  km_FormatAndMount :: "string \<Rightarrow> string \<Rightarrow> string \<Rightarrow> string list \<Rightarrow> ('w, unit) ext_fun"
  km_ParseMountInfo :: "string \<Rightarrow> ('w, MountInfo list) ext_fun"

section \<open>Time and shell\<close>

definition Millisecond :: int where "Millisecond = 1000000"
definition Second :: int where "Second = 1000 * Millisecond"
definition Minute :: int where "Minute = 60 * Second"

definition NowE :: "'w os \<Rightarrow> ('w, int) io" where
  [api_defs]: "NowE os w =
     (case os_Now os (ext w) of (t, x) \<Rightarrow> (Ret t, w\<lparr>ext := x, trace := trace w @ [EvNow]\<rparr>))"

definition SleepE :: "'w os \<Rightarrow> int \<Rightarrow> ('w, unit) io" where
  [api_defs]: "SleepE os d w =
     (Ret (), w\<lparr>ext := os_Sleep os d (ext w), trace := trace w @ [EvSleep d]\<rparr>)"

text \<open>A command's combined output; \<open>err\<close> is its exit status, handed to the caller.\<close>

definition shE :: "'w os \<Rightarrow> string \<Rightarrow> ('w, string \<times> go_error option) io" where
  [api_defs]: "shE os cmd w =
     (case os_sh os cmd (ext w) of (r, x) \<Rightarrow> (Ret r, w\<lparr>ext := x, trace := trace w @ [EvSh cmd]\<rparr>))"

definition commandE :: "'w os \<Rightarrow> string \<Rightarrow> string list \<Rightarrow> ('w, string \<times> go_error option) io" where
  [api_defs]: "commandE os prog args w =
     (case os_command os prog args (ext w) of (r, x) \<Rightarrow>
        (Ret r, w\<lparr>ext := x, trace := trace w @ [EvCommand prog args]\<rparr>))"

definition LookupEnvE :: "'w os \<Rightarrow> string \<Rightarrow> ('w, string option) io" where
  [api_defs]: "LookupEnvE os k w =
     (Ret (os_LookupEnv os k (ext w)), w\<lparr>trace := trace w @ [EvLookupEnv k]\<rparr>)"

end
