(* ===== verification/Go_Logic.thy ===== *)
theory Go_Logic
  imports Go_Runtime
begin

text \<open>
  Reasoning about the effects of \<open>Go_Runtime\<close>: the laws of sequencing; inversion of a
  successful run (\<open>ret_iffs\<close>); the footprint \<open>emits P m\<close>, which says that every external call
  \<open>m\<close> makes satisfies \<open>P\<close>, with one rule per combinator (\<open>emits_rules\<close>); the counted footprint
  \<open>at_most P n m\<close> (\<open>m\<close> makes at most \<open>n\<close> calls that satisfy \<open>P\<close>); and the rounds of a Go
  \<open>for\<close> loop, with a bound on them from an invariant.
\<close>

section \<open>Sequencing\<close>

lemma bindE_returnE [simp]: "bindE (returnE a) f = f a"
  by (simp add: fun_eq_iff go_defs)

lemma bindE_failE [simp]: "bindE (failE e) f = failE e"
  by (simp add: fun_eq_iff go_defs)

lemma bindE_panicE [simp]: "bindE panicE f = panicE"
  by (simp add: fun_eq_iff go_defs)

lemma bindE_returnE_right [simp]: "bindE m returnE = m"
  by (auto simp: fun_eq_iff go_defs split: prod.splits res.splits)

lemma bindE_assoc: "bindE (bindE m f) g = bindE m (\<lambda>a. bindE (f a) g)"
  by (auto simp: fun_eq_iff bindE_def split: prod.splits res.splits)

lemma wrapE_returnE [simp]: "wrapE g (returnE a) = returnE a"
  by (simp add: fun_eq_iff go_defs)

lemma wrapE_failE [simp]: "wrapE g (failE e) = failE (g e)"
  by (simp add: fun_eq_iff go_defs)

lemma attemptE_returnE [simp]: "attemptE (returnE a) = returnE (Inr a)"
  by (simp add: fun_eq_iff go_defs)

lemma attemptE_failE [simp]: "attemptE (failE e) = returnE (Inl e)"
  by (simp add: fun_eq_iff go_defs)

lemma derefE_simps [simp]: "derefE (Some a) = returnE a" "derefE None = panicE"
  by (simp_all add: derefE_def)

lemma index0E_simps [simp]: "index0E (x # xs) = returnE x" "index0E [] = panicE"
  by (simp_all add: index0E_def)

lemma first_of_simps [simp]:
  "first_of [] = panicE" "first_of (None # xs) = panicE" "first_of (Some a # xs) = returnE a"
  by (simp_all add: first_of_def)

lemma liftR_simps [simp]:
  "liftR (Ret a) = returnE a" "liftR (Fail e) = failE e" "liftR Panic = panicE"
  by (simp_all add: fun_eq_iff go_defs)

lemma bindE_step:
  assumes "m w = (Ret a, w')"
  shows "bindE m f w = f a w'"
  using assms by (simp add: bindE_def)

lemma bindE_stop: "m w = (Fail e, w') \<Longrightarrow> bindE m f w = (Fail e, w')"
  by (simp add: bindE_def)

lemma bindE_cases:
  obtains (ret) a w' where "m w = (Ret a, w')" "bindE m f w = f a w'"
  | (err) e w' where "m w = (Fail e, w')" "bindE m f w = (Fail e, w')"
  | (panic) w' where "m w = (Panic, w')" "bindE m f w = (Panic, w')"
  | (div) w' where "m w = (Diverge, w')" "bindE m f w = (Diverge, w')"
proof -
  obtain r w' where "m w = (r, w')" by fastforce
  then show thesis using that by (cases r) (auto simp: bindE_def)
qed

section \<open>Inversion of a successful run\<close>

lemma bindE_Ret [ret_iffs]:
  "bindE m f w = (Ret b, w') \<longleftrightarrow> (\<exists>a w1. m w = (Ret a, w1) \<and> f a w1 = (Ret b, w'))"
  by (rule bindE_cases [of m w f]) auto

lemma wrapE_Ret [ret_iffs]: "wrapE g m w = (Ret b, w') \<longleftrightarrow> m w = (Ret b, w')"
  by (auto simp: wrapE_def split: prod.splits res.splits)

lemma returnE_Ret [ret_iffs]: "returnE a w = (Ret b, w') \<longleftrightarrow> a = b \<and> w' = w"
  by (auto simp: returnE_def)

lemma liftR_Ret [ret_iffs]: "liftR r w = (Ret a, w') \<longleftrightarrow> r = Ret a \<and> w' = w"
  by (auto simp: liftR_def)

lemma failE_Ret [ret_iffs]: "failE e w = (Ret b, w') \<longleftrightarrow> False"
  by (simp add: failE_def)

lemma panicE_Ret [ret_iffs]: "panicE w = (Ret b, w') \<longleftrightarrow> False"
  by (simp add: panicE_def)

lemma derefE_Ret [ret_iffs]: "derefE p w = (Ret b, w') \<longleftrightarrow> p = Some b \<and> w' = w"
  by (cases p) (auto simp: returnE_def panicE_def)

lemma index0E_Ret [ret_iffs]: "index0E xs w = (Ret b, w') \<longleftrightarrow> xs \<noteq> [] \<and> b = hd xs \<and> w' = w"
  by (cases xs) (auto simp: returnE_def panicE_def)

lemma first_of_Ret [ret_iffs]:
  "first_of xs w = (Ret b, w') \<longleftrightarrow> xs \<noteq> [] \<and> hd xs = Some b \<and> w' = w"
  by (auto simp: first_of_def bindE_Ret index0E_Ret derefE_Ret)

lemma deferE_Ret [ret_iffs]:
  "deferE c m w = (Ret b, w') \<longleftrightarrow> (\<exists>w1. m w = (Ret b, w1) \<and> w' = snd (c w1))"
  by (auto simp: deferE_def split: prod.splits if_splits)

lemma callE_Ret [ret_iffs]:
  "callE ev f w = (Ret a, w') \<longleftrightarrow>
     (\<exists>x. f (ext w) = (Inr a, x) \<and> w' = w\<lparr>ext := x, trace := trace w @ [ev]\<rparr>)"
  by (auto simp: callE_def split: prod.splits sum.splits)

lemma emitE_Ret [ret_iffs]:
  "emitE ev w = (Ret a, w') \<longleftrightarrow> w' = w\<lparr>trace := trace w @ [ev]\<rparr>"
  by (auto simp: emitE_def)

lemma NowE_Ret [ret_iffs]:
  "NowE os w = (Ret t, w') \<longleftrightarrow>
     (\<exists>x. os_Now os (ext w) = (t, x) \<and> w' = w\<lparr>ext := x, trace := trace w @ [EvNow]\<rparr>)"
  by (auto simp: NowE_def split: prod.splits)

lemma SleepE_Ret [ret_iffs]:
  "SleepE os d w = (Ret u, w') \<longleftrightarrow>
     w' = w\<lparr>ext := os_Sleep os d (ext w), trace := trace w @ [EvSleep d]\<rparr>"
  by (auto simp: SleepE_def)

lemma shE_Ret [ret_iffs]:
  "shE os cmd w = (Ret r, w') \<longleftrightarrow>
     (\<exists>x. os_sh os cmd (ext w) = (r, x) \<and> w' = w\<lparr>ext := x, trace := trace w @ [EvSh cmd]\<rparr>)"
  by (auto simp: shE_def split: prod.splits)

lemma attemptE_Ret [ret_iffs]:
  "attemptE m w = (Ret r, w') \<longleftrightarrow>
     (case r of Inl e \<Rightarrow> m w = (Fail e, w') | Inr a \<Rightarrow> m w = (Ret a, w'))"
  by (auto simp: attemptE_def split: prod.splits res.splits sum.splits)

section \<open>Footprints\<close>

definition emits :: "(event \<Rightarrow> bool) \<Rightarrow> ('w, 'a) io \<Rightarrow> bool" where
  "emits P m \<longleftrightarrow> (\<forall>w. \<exists>evs. trace (snd (m w)) = trace w @ evs \<and> list_all P evs)"

lemma emitsI:
  "(\<And>w. \<exists>evs. trace (snd (m w)) = trace w @ evs \<and> list_all P evs) \<Longrightarrow> emits P m"
  by (simp add: emits_def)

lemma emitsE:
  assumes "emits P m"
  obtains evs where "trace (snd (m w)) = trace w @ evs" and "list_all P evs"
  using assms by (auto simp: emits_def)

lemma emits_run:
  assumes "emits P m" and "m w = (r, w')"
  obtains evs where "trace w' = trace w @ evs" and "list_all P evs"
  using emitsE [OF assms(1), of w] assms(2) by auto

lemma bindE_extends:
  assumes "\<And>a. emits (\<lambda>_. True) (f a)" and "trace (snd (m w)) = trace w @ evs"
  shows "\<exists>es. trace (snd (bindE m f w)) = trace w @ evs @ es"
proof -
  obtain r w1 where m: "m w = (r, w1)" by fastforce
  obtain r2 w2 where f: "bindE m f w = (r2, w2)" by fastforce
  show ?thesis
  proof (cases r)
    case (Ret a)
    with m f have "f a w1 = (r2, w2)" by (simp add: bindE_def)
    with emits_run [OF assms(1)] obtain es where "trace w2 = trace w1 @ es" by blast
    with assms(2) m f show ?thesis by simp
  qed (use assms(2) m in \<open>auto simp: bindE_def\<close>)
qed

lemma emits_weaken:
  assumes "emits P m" and "\<And>e. P e \<Longrightarrow> Q e"
  shows "emits Q m"
proof (rule emitsI)
  fix w
  obtain evs where "trace (snd (m w)) = trace w @ evs" and "list_all P evs"
    using assms(1) by (rule emitsE)
  with assms(2) show "\<exists>evs. trace (snd (m w)) = trace w @ evs \<and> list_all Q evs"
    by (metis list.pred_mono_strong)
qed

lemma emits_returnE [emits_rules]: "emits P (returnE a)"
  and emits_failE [emits_rules]: "emits P (failE e)"
  and emits_panicE [emits_rules]: "emits P panicE"
  by (simp_all add: emits_def go_defs)

lemma emits_liftR [emits_rules]: "emits P (liftR r)"
  by (simp add: emits_def liftR_def)

lemma emits_derefE [emits_rules]: "emits P (derefE p)"
  by (cases p) (simp_all add: emits_rules)

lemma emits_index0E [emits_rules]: "emits P (index0E xs)"
  by (cases xs) (simp_all add: emits_rules)

lemma emits_bindE [emits_rules]:
  assumes "emits P m" and "\<And>a. emits P (f a)"
  shows "emits P (bindE m f)"
proof (rule emitsI)
  fix w
  obtain evs where 1: "trace (snd (m w)) = trace w @ evs" "list_all P evs"
    using assms(1) by (rule emitsE)
  show "\<exists>evs. trace (snd (bindE m f w)) = trace w @ evs \<and> list_all P evs"
  proof (cases rule: bindE_cases [of m w f])
    case (ret a w')
    obtain evs' where "trace (snd (f a w')) = trace w' @ evs'" "list_all P evs'"
      using assms(2) [of a] by (rule emitsE)
    with 1 ret show ?thesis by (intro exI [of _ "evs @ evs'"]) simp
  qed (use 1 in auto)
qed

lemma emits_first_of [emits_rules]: "emits P (first_of xs)"
  unfolding first_of_def by (intro emits_rules)

lemma emits_wrapE [emits_rules]: "emits P m \<Longrightarrow> emits P (wrapE g m)"
  by (simp add: emits_def wrapE_def split_beta)

lemma emits_attemptE [emits_rules]: "emits P m \<Longrightarrow> emits P (attemptE m)"
  by (simp add: emits_def attemptE_def split_beta)

lemma emits_if [emits_rules]: "emits P m \<Longrightarrow> emits P n \<Longrightarrow> emits P (if b then m else n)"
  by simp

lemma emits_case_option [emits_rules]:
  "emits P m \<Longrightarrow> (\<And>a. emits P (f a)) \<Longrightarrow> emits P (case x of None \<Rightarrow> m | Some a \<Rightarrow> f a)"
  by (cases x) simp_all

lemma emits_case_sum [emits_rules]:
  "(\<And>a. emits P (f a)) \<Longrightarrow> (\<And>b. emits P (g b)) \<Longrightarrow> emits P (case x of Inl a \<Rightarrow> f a | Inr b \<Rightarrow> g b)"
  by (cases x) simp_all

lemma emits_case_prod [emits_rules]:
  "(\<And>a b. emits P (f a b)) \<Longrightarrow> emits P (case x of (a, b) \<Rightarrow> f a b)"
  by (cases x) simp

lemma emits_Let [emits_rules]: "(\<And>x. emits P (f x)) \<Longrightarrow> emits P (let x = a in f x)"
  by (simp add: Let_def)

lemma emits_callE [emits_rules]: "P ev \<Longrightarrow> emits P (callE ev f)"
  by (simp add: emits_def callE_def split: prod.splits)

lemma emits_emitE [emits_rules]: "P ev \<Longrightarrow> emits P (emitE ev)"
  by (simp add: emits_def emitE_def)

lemma emits_deferE [emits_rules]:
  assumes "emits P c" and "emits P m"
  shows "emits P (deferE c m)"
proof (rule emitsI)
  fix w
  obtain r w' where m: "m w = (r, w')" by fastforce
  obtain evs where 1: "trace w' = trace w @ evs" "list_all P evs"
    using assms(2) m by (metis emitsE snd_conv)
  obtain evs' where 2: "trace (snd (c w')) = trace w' @ evs'" "list_all P evs'"
    using assms(1) by (rule emitsE)
  show "\<exists>evs. trace (snd (deferE c m w)) = trace w @ evs \<and> list_all P evs"
  proof (cases "r = Diverge")
    case True
    with m 1 show ?thesis by (simp add: deferE_def)
  next
    case False
    with m 1 2 show ?thesis by (intro exI [of _ "evs @ evs'"]) (simp add: deferE_def)
  qed
qed

lemma emits_rangeE [emits_rules]:
  assumes "\<And>x s. emits P (f x s)"
  shows "emits P (rangeE f xs s)"
  by (induction xs arbitrary: s) (auto intro!: emits_rules assms)

lemma emits_NowE [emits_rules]: "P EvNow \<Longrightarrow> emits P (NowE os)"
  and emits_SleepE [emits_rules]: "P (EvSleep d) \<Longrightarrow> emits P (SleepE os d)"
  and emits_shE [emits_rules]: "P (EvSh c) \<Longrightarrow> emits P (shE os c)"
  and emits_commandE [emits_rules]: "P (EvCommand p as) \<Longrightarrow> emits P (commandE os p as)"
  and emits_LookupEnvE [emits_rules]: "P (EvLookupEnv k) \<Longrightarrow> emits P (LookupEnvE os k)"
  by (simp_all add: emits_def api_defs split: prod.splits)

text \<open>\<open>starts e m\<close>: from every world the first external call of \<open>m\<close> is \<open>e\<close>.\<close>

definition starts :: "event \<Rightarrow> ('w, 'a) io \<Rightarrow> bool" where
  "starts e m \<longleftrightarrow> (\<forall>w. \<exists>evs. trace (snd (m w)) = trace w @ e # evs)"

lemma startsE:
  assumes "starts e m"
  obtains evs where "trace (snd (m w)) = trace w @ e # evs"
  using assms by (auto simp: starts_def)

lemma starts_callE [starts_rules]: "starts e (callE e f)"
  and starts_emitE [starts_rules]: "starts e (emitE e)"
  by (simp_all add: starts_def callE_def emitE_def split: prod.splits)

lemma starts_wrapE [starts_rules]: "starts e m \<Longrightarrow> starts e (wrapE g m)"
  by (simp add: starts_def wrapE_def split_beta)

lemma starts_bindE [starts_rules]:
  assumes "starts e m" and "\<And>a. emits (\<lambda>_. True) (f a)"
  shows "starts e (bindE m f)"
  unfolding starts_def
proof
  fix w
  from assms(1) obtain evs where "trace (snd (m w)) = trace w @ e # evs" by (rule startsE)
  with bindE_extends [where m = m and w = w and f = f and evs = "e # evs", OF assms(2)]
  show "\<exists>evs. trace (snd (bindE m f w)) = trace w @ e # evs" by auto
qed

section \<open>Functions that return or fail\<close>

text \<open>
  \<open>yields Q m\<close>: from every world \<open>m\<close> ends with a value that satisfies \<open>Q\<close> or with an error; it
  does not panic and does not run forever.
\<close>

definition yields :: "('a \<Rightarrow> bool) \<Rightarrow> ('w, 'a) io \<Rightarrow> bool" where
  "yields Q m \<longleftrightarrow>
     (\<forall>w. case fst (m w) of Ret a \<Rightarrow> Q a | Fail _ \<Rightarrow> True | Panic \<Rightarrow> False | Diverge \<Rightarrow> False)"

lemma yields_outcome:
  assumes "yields Q m"
  shows "(\<exists>a. fst (m w) = Ret a \<and> Q a) \<or> (\<exists>e. fst (m w) = Fail e)"
  using assms [unfolded yields_def, rule_format, of w] by (cases "fst (m w)") simp_all

lemma yields_orderly: "yields Q m \<Longrightarrow> fst (m w) \<notin> {Panic, Diverge}"
  using yields_outcome [of Q m w] by auto

lemma yieldsI:
  assumes "\<And>w. (\<exists>a. fst (m w) = Ret a \<and> Q a) \<or> (\<exists>e. fst (m w) = Fail e)"
  shows "yields Q m"
  unfolding yields_def
proof
  fix w
  show "case fst (m w) of Ret a \<Rightarrow> Q a | Fail _ \<Rightarrow> True | Panic \<Rightarrow> False | Diverge \<Rightarrow> False"
    using assms [of w] by auto
qed

lemma yields_weaken: "yields Q m \<Longrightarrow> (\<And>a. Q a \<Longrightarrow> R a) \<Longrightarrow> yields R m"
  subgoal premises prems by (rule yieldsI) (use yields_outcome [OF prems(1)] prems(2) in blast)
  done

lemma yields_returnE [yields_rules]: "Q a \<Longrightarrow> yields Q (returnE a)"
  and yields_failE [yields_rules]: "yields Q (failE e)"
  by (simp_all add: yields_def go_defs)

lemma yields_derefE [yields_rules]: "(\<exists>a. p = Some a \<and> Q a) \<Longrightarrow> yields Q (derefE p)"
  by (auto intro: yields_returnE)

lemma yields_first_of [yields_rules]:
  "xs \<noteq> [] \<Longrightarrow> (\<exists>a. hd xs = Some a \<and> Q a) \<Longrightarrow> yields Q (first_of xs)"
  by (cases xs) (auto intro: yields_returnE)

lemma yields_index0E [yields_rules]: "xs \<noteq> [] \<Longrightarrow> Q (hd xs) \<Longrightarrow> yields Q (index0E xs)"
  by (cases xs) (auto intro: yields_returnE)

lemma yields_liftR [yields_rules]:
  "(\<And>a. r = Ret a \<Longrightarrow> Q a) \<Longrightarrow> r \<noteq> Panic \<Longrightarrow> r \<noteq> Diverge \<Longrightarrow> yields Q (liftR r)"
  by (cases r) (auto intro: yields_returnE yields_failE)

lemma yields_bindE:
  assumes "yields Q m" and "\<And>a. Q a \<Longrightarrow> yields R (f a)"
  shows "yields R (bindE m f)"
proof (rule yieldsI)
  fix w
  show "(\<exists>a. fst (bindE m f w) = Ret a \<and> R a) \<or> (\<exists>e. fst (bindE m f w) = Fail e)"
  proof (cases rule: bindE_cases [of m w f])
    case (ret a w')
    with yields_outcome [OF assms(1), of w] have "Q a" by simp
    from yields_outcome [OF assms(2) [OF this], of w'] ret show ?thesis by auto
  qed (use yields_outcome [OF assms(1), of w] in auto)
qed

lemma yields_wrapE [yields_rules]: "yields Q m \<Longrightarrow> yields Q (wrapE g m)"
  apply (rule yieldsI)
  subgoal for w using yields_outcome [of Q m w] by (auto simp: wrapE_def split_beta)
  done

lemma yields_deferE [yields_rules]: "yields Q m \<Longrightarrow> yields Q (deferE c m)"
  apply (rule yieldsI)
  subgoal for w using yields_outcome [of Q m w] by (auto simp: deferE_def split_beta)
  done

lemma yields_attemptE:
  "yields Q m \<Longrightarrow> yields (\<lambda>r. case r of Inl e \<Rightarrow> True | Inr a \<Rightarrow> Q a) (attemptE m)"
  apply (rule yieldsI)
  subgoal for w using yields_outcome [of Q m w] by (auto simp: attemptE_def split_beta)
  done

lemma yields_if [yields_rules]:
  "(b \<Longrightarrow> yields Q m) \<Longrightarrow> (\<not> b \<Longrightarrow> yields Q n) \<Longrightarrow> yields Q (if b then m else n)"
  by simp

lemma yields_emitE [yields_rules]: "Q () \<Longrightarrow> yields Q (emitE ev)"
  by (simp add: yields_def emitE_def)

lemma yields_callE:
  "(\<And>x a x'. f x = (Inr a, x') \<Longrightarrow> Q a) \<Longrightarrow> yields Q (callE ev f)"
  by (auto simp: yields_def callE_def split: prod.splits sum.splits)

lemma yields_callE_any [yields_rules]: "yields (\<lambda>_. True) (callE ev f)"
  by (rule yields_callE) simp

section \<open>Counted footprints\<close>

definition count_ev :: "(event \<Rightarrow> bool) \<Rightarrow> event list \<Rightarrow> nat" where
  "count_ev P evs = length (filter P evs)"

lemma count_ev_simps [simp]:
  "count_ev P [] = 0"
  "count_ev P (e # es) = (if P e then 1 else 0) + count_ev P es"
  "count_ev P (es @ fs) = count_ev P es + count_ev P fs"
  by (simp_all add: count_ev_def)

lemma count_ev_none: "list_all (\<lambda>e. \<not> P e) evs \<Longrightarrow> count_ev P evs = 0"
  by (induction evs) simp_all

definition at_most :: "(event \<Rightarrow> bool) \<Rightarrow> nat \<Rightarrow> ('w, 'a) io \<Rightarrow> bool" where
  "at_most P n m \<longleftrightarrow> (\<forall>w. \<exists>evs. trace (snd (m w)) = trace w @ evs \<and> count_ev P evs \<le> n)"

lemma at_mostE:
  assumes "at_most P n m"
  obtains evs where "trace (snd (m w)) = trace w @ evs" and "count_ev P evs \<le> n"
  using assms by (auto simp: at_most_def)

lemma at_most_emits: "emits (\<lambda>e. \<not> P e) m \<Longrightarrow> at_most P n m"
  unfolding at_most_def emits_def by (metis count_ev_none le0)

lemma at_most_callE: "1 \<le> n \<Longrightarrow> at_most P n (callE ev f)"
  by (auto simp: at_most_def callE_def split: prod.splits)

lemma at_most_bindE:
  assumes "at_most P k m" and "\<And>a. at_most P n (f a)"
  shows "at_most P (k + n) (bindE m f)"
  unfolding at_most_def
proof
  fix w
  obtain evs where 1: "trace (snd (m w)) = trace w @ evs" "count_ev P evs \<le> k"
    using assms(1) by (rule at_mostE)
  show "\<exists>evs. trace (snd (bindE m f w)) = trace w @ evs \<and> count_ev P evs \<le> k + n"
  proof (cases rule: bindE_cases [of m w f])
    case (ret a w')
    obtain evs' where "trace (snd (f a w')) = trace w' @ evs'" "count_ev P evs' \<le> n"
      using assms(2) [of a] by (rule at_mostE)
    with 1 ret show ?thesis by (intro exI [of _ "evs @ evs'"]) simp
  qed (use 1 in auto)
qed

lemma at_most_before:
  \<comment> \<open>a call that is not counted, before the rest\<close>
  "emits (\<lambda>e. \<not> P e) m \<Longrightarrow> (\<And>a. at_most P n (f a)) \<Longrightarrow> at_most P n (bindE m f)"
  using at_most_bindE [of P 0 m n f] by (simp add: at_most_emits)

lemma at_most_after:
  \<comment> \<open>nothing counted after \<open>m\<close>\<close>
  "at_most P n m \<Longrightarrow> (\<And>a. emits (\<lambda>e. \<not> P e) (f a)) \<Longrightarrow> at_most P n (bindE m f)"
  using at_most_bindE [of P n m 0 f] by (simp add: at_most_emits)

lemma at_most_wrapE: "at_most P n m \<Longrightarrow> at_most P n (wrapE g m)"
  by (simp add: at_most_def wrapE_def split_beta)

lemma at_most_if: "at_most P n m \<Longrightarrow> at_most P n m' \<Longrightarrow> at_most P n (if b then m else m')"
  by simp

section \<open>Go for loops\<close>

lemma for_loop_step:
  "body s = (None, s') \<Longrightarrow> for_loop body s = for_loop body s'"
  "body s = (Some r, s') \<Longrightarrow> for_loop body s = Some (r, s')"
  by (simp_all add: for_loop.simps [of body s])

lemma for_loop_emits:
  assumes body: "emits P m" and ret: "for_loop (loop_body m) w = Some rw"
  shows "\<exists>evs. trace (snd rw) = trace w @ evs \<and> list_all P evs"
proof -
  let ?Q = "\<lambda>w w'. \<exists>evs. trace w' = trace w @ evs \<and> list_all P evs"
  have "loop_body m = loop_body m \<longrightarrow> ?Q w (snd rw)"
  proof (rule for_loop.raw_induct [where P = "\<lambda>b w rw. b = loop_body m \<longrightarrow> ?Q w (snd rw)", OF _ ret])
    fix g b w1 rw1
    assume IH: "\<And>b w rw. g b w = Some rw \<Longrightarrow> b = loop_body m \<longrightarrow> ?Q w (snd rw)"
      and eq: "(case b w1 of (x, s') \<Rightarrow> case x of None \<Rightarrow> g b s' | Some r \<Rightarrow> Some (r, s')) = Some rw1"
    show "b = loop_body m \<longrightarrow> ?Q w1 (snd rw1)"
    proof
      assume b: "b = loop_body m"
      obtain x w3 where x: "b w1 = (x, w3)" by fastforce
      with b have "w3 = snd (m w1)" by (auto simp: loop_body_def split: prod.splits)
      with body obtain evs where 1: "trace w3 = trace w1 @ evs" "list_all P evs"
        by (metis emitsE)
      show "?Q w1 (snd rw1)"
      proof (cases x)
        case None
        with eq x have "g b w3 = Some rw1" by simp
        from IH [OF this] b obtain evs' where "trace (snd rw1) = trace w3 @ evs'" "list_all P evs'"
          by auto
        with 1 show ?thesis by (intro exI [of _ "evs @ evs'"]) simp
      qed (use eq x 1 in auto)
    qed
  qed
  then show ?thesis by simp
qed

lemma emits_forE [emits_rules]:
  assumes "emits P m"
  shows "emits P (forE m)"
proof (rule emitsI)
  fix w
  show "\<exists>evs. trace (snd (forE m w)) = trace w @ evs \<and> list_all P evs"
  proof (cases "for_loop (loop_body m) w")
    case None
    then show ?thesis by (simp add: forE_def)
  next
    case (Some rw)
    then show ?thesis using for_loop_emits [OF assms Some] by (simp add: forE_def)
  qed
qed

text \<open>
  Progress: if every round that goes on raises a bounded natural-number measure, the loop
  leaves; \<open>rounds\<close> counts the bodies run.
\<close>

fun run_rounds :: "nat \<Rightarrow> ('w, 'a option) io \<Rightarrow> 'w world \<Rightarrow> 'w world option" where
  "run_rounds 0 m w = Some w"
| "run_rounds (Suc n) m w =
     (case m w of (Ret None, w') \<Rightarrow> run_rounds n m w' | _ \<Rightarrow> None)"

lemma forE_leave:
  "m w = (Ret (Some a), w') \<Longrightarrow> forE m w = (Ret a, w')"
  "m w = (Fail e, w') \<Longrightarrow> forE m w = (Fail e, w')"
  "m w = (Panic, w') \<Longrightarrow> forE m w = (Panic, w')"
  by (auto simp: forE_def for_loop.simps [of "loop_body m" w] loop_body_def)

lemma run_rounds_for_loop:
  "run_rounds k m w = Some w1 \<Longrightarrow> for_loop (loop_body m) w = for_loop (loop_body m) w1"
proof (induction k arbitrary: w)
  case (Suc k)
  then obtain w3 where "m w = (Ret None, w3)" "run_rounds k m w3 = Some w1"
    by (auto split: prod.splits res.splits option.splits)
  moreover from this(1) have "loop_body m w = (None, w3)" by (simp add: loop_body_def)
  ultimately show ?case using Suc.IH [of w3] by (simp add: for_loop_step)
qed simp

text \<open>An invariant indexed by the number of rounds done.\<close>

lemma run_rounds_induct:
  assumes "run_rounds k m w = Some w1" and "I j w"
    and "\<And>n u u'. I n u \<Longrightarrow> m u = (Ret None, u') \<Longrightarrow> I (Suc n) u'"
  shows "I (j + k) w1"
  using assms(1,2)
proof (induction k arbitrary: w j)
  case (Suc k)
  then obtain w3 where "m w = (Ret None, w3)" "run_rounds k m w3 = Some w1"
    by (auto split: prod.splits res.splits option.splits)
  with Suc.IH [of w3 "Suc j"] assms(3) [OF Suc.prems(2)] show ?case by simp
qed simp

lemma for_loop_leaves: "fst (m w) \<noteq> Ret None \<Longrightarrow> for_loop (loop_body m) w \<noteq> None"
  by (auto simp: for_loop.simps [of "loop_body m" w] loop_body_def
      split: prod.splits res.splits option.splits)

lemma run_rounds_None:
  "run_rounds n m w = None \<Longrightarrow> \<exists>k w1. k < n \<and> run_rounds k m w = Some w1 \<and> fst (m w1) \<noteq> Ret None"
proof (induction n arbitrary: w)
  case (Suc n)
  show ?case
  proof (cases "fst (m w) = Ret None")
    case False
    then show ?thesis by (intro exI [of _ 0] exI [of _ w]) simp
  next
    case True
    then obtain w' where m: "m w = (Ret None, w')" by (cases "m w") auto
    with Suc.prems have "run_rounds n m w' = None" by simp
    from Suc.IH [OF this] obtain k w1 where
      "k < n" "run_rounds k m w' = Some w1" "fst (m w1) \<noteq> Ret None" by blast
    with m show ?thesis by (intro exI [of _ "Suc k"] exI [of _ w1]) simp
  qed
qed simp

text \<open>
  A loop that cannot go round \<open>n\<close> times leaves within \<open>n\<close> rounds, and what it returns is what
  the body returned in its last round.
\<close>

lemma forE_bounded:
  assumes "run_rounds n m w = None"
  obtains k w1 where "k < n" "run_rounds k m w = Some w1" "fst (m w1) \<noteq> Ret None"
    "forE m w = forE m w1"
proof -
  from run_rounds_None [OF assms] obtain k w1 where
    k: "k < n" "run_rounds k m w = Some w1" "fst (m w1) \<noteq> Ret None" by blast
  from for_loop_leaves [of m w1, OF k(3)] run_rounds_for_loop [OF k(2)] have "forE m w = forE m w1"
    by (auto simp: forE_def)
  with k show thesis by (rule that)
qed

text \<open>A loop that leaves did so in some round, with the outcome of that round's body.\<close>

lemma for_loop_rounds:
  assumes "for_loop (loop_body m) w = Some rw"
  shows "\<exists>k w1. run_rounds k m w = Some w1 \<and> loop_body m w1 = (Some (fst rw), snd rw)"
proof -
  let ?Q = "\<lambda>w rw. \<exists>k w1. run_rounds k m w = Some w1 \<and> loop_body m w1 = (Some (fst rw), snd rw)"
  have "loop_body m = loop_body m \<longrightarrow> ?Q w rw"
  proof (rule for_loop.raw_induct [where P = "\<lambda>b w rw. b = loop_body m \<longrightarrow> ?Q w rw", OF _ assms])
    fix g b w1 rw1
    assume IH: "\<And>b w rw. g b w = Some rw \<Longrightarrow> b = loop_body m \<longrightarrow> ?Q w rw"
      and eq: "(case b w1 of (x, s') \<Rightarrow> case x of None \<Rightarrow> g b s' | Some r \<Rightarrow> Some (r, s')) = Some rw1"
    show "b = loop_body m \<longrightarrow> ?Q w1 rw1"
    proof
      assume b: "b = loop_body m"
      obtain x w3 where x: "b w1 = (x, w3)" by fastforce
      show "?Q w1 rw1"
      proof (cases x)
        case None
        with eq x have "g b w3 = Some rw1" by simp
        from IH [OF this] b obtain k w4 where "run_rounds k m w3 = Some w4"
          "loop_body m w4 = (Some (fst rw1), snd rw1)" by auto
        moreover from None x b have "m w1 = (Ret None, w3)"
          by (auto simp: loop_body_def split: prod.splits res.splits option.splits)
        ultimately show ?thesis by (intro exI [of _ "Suc k"] exI [of _ w4]) simp
      next
        case (Some r)
        with eq x b show ?thesis by (intro exI [of _ 0] exI [of _ w1]) auto
      qed
    qed
  qed
  then show ?thesis by simp
qed

lemma forE_Ret:
  assumes "forE m w = (Ret a, w')"
  obtains k w1 where "run_rounds k m w = Some w1" "m w1 = (Ret (Some a), w')"
proof -
  from assms have "for_loop (loop_body m) w = Some (Ret a, w')"
    by (auto simp: forE_def split: option.splits)
  from for_loop_rounds [OF this] obtain k w1 where
    "run_rounds k m w = Some w1" "loop_body m w1 = (Some (Ret a), w')" by auto
  then show thesis by (intro that) (auto simp: loop_body_def split: prod.splits res.splits option.splits)
qed

lemma forE_last_round: "fst (m w) \<noteq> Ret None \<Longrightarrow> snd (forE m w) = snd (m w)"
  by (auto simp: forE_def for_loop.simps [of "loop_body m" w] loop_body_def
      split: prod.splits res.splits option.splits)

lemma forE_last_outcome:
  "fst (m w) \<noteq> Ret None \<Longrightarrow> fst (m w) \<noteq> Diverge \<Longrightarrow> fst (forE m w) \<noteq> Diverge"
  by (auto simp: forE_def for_loop.simps [of "loop_body m" w] loop_body_def
      split: prod.splits res.splits option.splits)

text \<open>
  A loop with a bound on its rounds whose body returns or fails: the loop returns or fails, and
  the calls it counts are those of its rounds.
\<close>

lemma yields_forE:
  assumes "\<And>w. run_rounds (n w) m w = None" and "yields (\<lambda>r. case r of None \<Rightarrow> True | Some a \<Rightarrow> Q a) m"
  shows "yields Q (forE m)"
proof (rule yieldsI)
  fix w
  obtain w1 where w1: "fst (m w1) \<noteq> Ret None" "forE m w = forE m w1"
    using assms(1) [of w] by (rule forE_bounded)
  from yields_outcome [OF assms(2), of w1] w1(1) consider
    (ret) a where "fst (m w1) = Ret (Some a)" "Q a" | (err) e where "fst (m w1) = Fail e" by auto
  then show "(\<exists>a. fst (forE m w) = Ret a \<and> Q a) \<or> (\<exists>e. fst (forE m w) = Fail e)"
  proof cases
    case (ret a)
    then have "m w1 = (Ret (Some a), snd (m w1))" by (simp add: prod_eq_iff)
    with ret w1(2) show ?thesis by (simp add: forE_leave(1))
  next
    case (err e)
    then have "m w1 = (Fail e, snd (m w1))" by (simp add: prod_eq_iff)
    with w1(2) show ?thesis by (simp add: forE_leave(2))
  qed
qed

lemma forE_counted:
  assumes "run_rounds (Suc n) m w = None" and one: "at_most P 1 m"
  obtains evs where "trace (snd (forE m w)) = trace w @ evs" "count_ev P evs \<le> Suc n"
proof -
  from assms(1) obtain k w1 where w1: "k < Suc n" "run_rounds k m w = Some w1"
    "fst (m w1) \<noteq> Ret None" "forE m w = forE m w1" by (rule forE_bounded)
  have "\<exists>evs. trace w1 = trace w @ evs \<and> count_ev P evs \<le> 0 + k"
  proof (rule run_rounds_induct [OF w1(2), where I = "\<lambda>j u. \<exists>evs. trace u = trace w @ evs \<and> count_ev P evs \<le> j"])
    fix j u u'
    assume "\<exists>evs. trace u = trace w @ evs \<and> count_ev P evs \<le> j" and u': "m u = (Ret None, u')"
    then obtain es where es: "trace u = trace w @ es" "count_ev P es \<le> j" by blast
    obtain fs where "trace (snd (m u)) = trace u @ fs" "count_ev P fs \<le> 1"
      using one by (rule at_mostE)
    with es u' show "\<exists>evs. trace u' = trace w @ evs \<and> count_ev P evs \<le> Suc j"
      by (intro exI [of _ "es @ fs"]) simp
  qed simp
  then obtain evs where evs: "trace w1 = trace w @ evs" "count_ev P evs \<le> k" by auto
  from at_mostE [OF one, of w1] obtain evs' where
    "trace (snd (m w1)) = trace w1 @ evs'" "count_ev P evs' \<le> 1" by blast
  with evs w1 show thesis
    by (intro that [of "evs @ evs'"]) (simp_all add: forE_last_round)
qed

section \<open>Values on return\<close>

text \<open>What holds of the value when a function returns one; \<open>returns (\<lambda>_. False)\<close> says it never does.\<close>

definition returns :: "('a \<Rightarrow> bool) \<Rightarrow> ('w, 'a) io \<Rightarrow> bool" where
  "returns Q m \<longleftrightarrow> (\<forall>w a w'. m w = (Ret a, w') \<longrightarrow> Q a)"

lemma returnsD: "returns Q m \<Longrightarrow> m w = (Ret a, w') \<Longrightarrow> Q a"
  by (auto simp: returns_def)

lemma returns_True: "returns (\<lambda>_. True) m"
  and returns_failE: "returns Q (failE e)"
  and returns_returnE: "Q a \<Longrightarrow> returns Q (returnE a)"
  by (auto simp: returns_def failE_def returnE_def)

lemma returns_wrapE: "returns Q m \<Longrightarrow> returns Q (wrapE g m)"
  by (fastforce simp: returns_def wrapE_def split: prod.splits res.splits)

lemma returns_bindE:
  assumes "returns Q m" and "\<And>a. Q a \<Longrightarrow> returns R (f a)"
  shows "returns R (bindE m f)"
  unfolding returns_def bindE_Ret using assms by (auto dest: returnsD)

lemma emits_bindE_returns:
  assumes "emits P m" and "returns Q m" and "\<And>a. Q a \<Longrightarrow> emits P (f a)"
  shows "emits P (bindE m f)"
proof (rule emitsI)
  fix w
  obtain r w1 where m: "m w = (r, w1)" by fastforce
  from emits_run [OF assms(1) m] obtain evs where evs: "trace w1 = trace w @ evs" "list_all P evs" .
  show "\<exists>evs. trace (snd (bindE m f w)) = trace w @ evs \<and> list_all P evs"
  proof (cases "\<exists>a. r = Ret a")
    case True
    then obtain a where r: "r = Ret a" ..
    with returnsD [OF assms(2)] m have "emits P (f a)" by (intro assms(3)) simp
    then obtain es where "trace (snd (f a w1)) = trace w1 @ es" "list_all P es" by (rule emitsE)
    with evs m r show ?thesis by (intro exI [of _ "evs @ es"]) (simp add: bindE_def)
  next
    case False
    with evs m show ?thesis by (cases r) (auto simp: bindE_def)
  qed
qed

end
