(* ===== verification/Demo_Services.thy ===== *)
theory Demo_Services
  imports Go_Logic
begin

text \<open>
  One concrete instance of the services outside the repository, for the examples that show the
  hypotheses of the theorems can hold: a platform with one volume whose tasks succeed, a node
  with two disks, a ConfigMap with optimistic locking and a clock that pauses advance.
\<close>

record demo =
  d_clock :: int
  d_cm :: ConfigMap
  d_files :: "string list"
  d_mounts :: "MountPoint list"

definition demo_volume :: VMVolume where
  "demo_volume = \<lparr>ID = Some ''vol-1'', Size = Some 1073741824, Mounting = Some False, VMDisks = [], Labels = []\<rparr>"

definition demo_task :: "WithTask option list" where
  "demo_task = [Some \<lparr>TaskID = Some ''t''\<rparr>]"

definition demo_tower :: "demo towerclient" where
  "demo_tower =
     \<lparr>tc_GetVMVolumes = (\<lambda>q x. (Inr (case q of VolumeWhereName _ \<Rightarrow> [] | VolumeWhereID _ \<Rightarrow> [Some demo_volume]), x)),
      tc_CreateVMVolume = (\<lambda>p x. (Inr [Some \<lparr>wtv_TaskID = Some ''t'', wtv_Data = Some demo_volume\<rparr>], x)),
      tc_DeleteVMVolumeFromVM = (\<lambda>v x. (Inr demo_task, x)),
      tc_GetClusters = (\<lambda>l x. (Inr [Some \<lparr>cluster_ID = Some ''c''\<rparr>], x)),
      tc_GetVms = (\<lambda>n x. (Inr [Some \<lparr>vm_VMDisks = []\<rparr>], x)),
      tc_AddVMDisk = (\<lambda>n p x. (Inr demo_task, x)),
      tc_RemoveVMDisk = (\<lambda>n ds x. (Inr demo_task, x)),
      tc_GetVMDisks = (\<lambda>n v x. (Inr [Some \<lparr>disk_ID = Some ''d'', Serial = Some ''serial-1-long''\<rparr>], x)),
      tc_GetTasks = (\<lambda>i x. (Inr [Some \<lparr>Status = Some TaskStatusSUCCESSED\<rparr>], x)),
      tc_GetLabels = (\<lambda>k v x. (Inr [], x)),
      tc_CreateLabel = (\<lambda>k v x. (Inr [Some \<lparr>wtl_TaskID = None, wtl_Data = Some \<lparr>label_ID = Some ''l''\<rparr>\<rparr>], x)),
      tc_AddLabelsToResources = (\<lambda>ls v x. (Inr demo_task, x))\<rparr>"

definition demo_configmaps :: "demo configmaps" where
  "demo_configmaps =
     \<lparr>cm_Get = (\<lambda>n x. (Inr (d_cm x), x)),
      cm_Update = (\<lambda>n m x.
        if ResourceVersion m = ResourceVersion (d_cm x)
        then (let m' = m\<lparr>ResourceVersion := Suc (ResourceVersion m)\<rparr> in (Inr m', x\<lparr>d_cm := m'\<rparr>))
        else (Inl (ExtErr ''conflict''), x))\<rparr>"

definition demo_unicode :: unicode where
  "demo_unicode = \<lparr>u_ToLower = (\<lambda>s. s), u_Fields = (\<lambda>s. [s]), u_TrimSpace = (\<lambda>s. s), u_SpaceLen = (\<lambda>s. 0)\<rparr>"

definition demo_sh :: "string \<Rightarrow> string" where
  "demo_sh cmd =
     (if cmd = ''lsblk -o \"NAME\" -e 1,7,11 -d -n'' then ''vda vdb ''
      else if cmd = ''udevadm info --query=all --name=vdb | grep ID_SERIAL'' then ''E: ID_SERIAL=serial-1 ''
      else if cmd = ''udevadm info --query=all --name=vda | grep ID_SERIAL'' then ''E: ID_SERIAL=other ''
      else ''1073741824'')"

definition demo_os :: "demo os" where
  "demo_os =
     \<lparr>os_Stat = (\<lambda>p x. (if p \<in> set (d_files x) then Inr True else Inl (NotExistErr p), x)),
      os_MkdirAll = (\<lambda>p x. (Inr (), x\<lparr>d_files := p # d_files x\<rparr>)),
      os_Create = (\<lambda>p x. (Inr (), x\<lparr>d_files := p # d_files x\<rparr>)),
      os_RemoveAll = (\<lambda>p x. (Inr (), x\<lparr>d_files := removeAll p (d_files x)\<rparr>)),
      os_Remove = (\<lambda>p x. (Inr (), x\<lparr>d_files := removeAll p (d_files x)\<rparr>)),
      os_LookupEnv = (\<lambda>k x. if k = ''NODE_IP'' then Some ''10.0.0.1'' else if k = ''NODE_NAME'' then Some ''node-1'' else None),
      os_ReadFile = (\<lambda>p x. (Inr [], x)),
      os_EvalSymlinks = (\<lambda>p x. (Inr p, x)),
      os_sh = (\<lambda>c x. ((demo_sh c, None), x)),
      os_command = (\<lambda>c as x. (([], None), x)),
      os_Dial = (\<lambda>a x. (Inr (), x)),
      os_Liveness = (\<lambda>a x. (Inr True, x)),
      os_Listen = (\<lambda>n a x. (Inr (), x)),
      os_Now = (\<lambda>x. (d_clock x, x)),
      os_Sleep = (\<lambda>d x. x\<lparr>d_clock := d_clock x + d\<rparr>),
      os_unicode = demo_unicode\<rparr>"

definition demo_kmount :: "demo kmount" where
  "demo_kmount =
     \<lparr>km_Mount = (\<lambda>s t f opts x. (Inr (), x\<lparr>d_mounts := \<lparr>Device = s, Path = t, Type = f, Opts = opts\<rparr> # d_mounts x\<rparr>)),
      km_Unmount = (\<lambda>t x. (Inr (), x\<lparr>d_mounts := filter (\<lambda>m. Path m \<noteq> t) (d_mounts x)\<rparr>)),
      km_IsLikelyNotMountPoint = (\<lambda>p x. (Inr (\<not> list_ex (\<lambda>m. Path m = p) (d_mounts x)), x)),
      km_List = (\<lambda>x. (Inr (d_mounts x), x)),
      km_GetDiskFormat = (\<lambda>d x. (Inr [], x)),
      km_FormatAndMount = (\<lambda>s t f opts x. (Inr (), x\<lparr>d_mounts := \<lparr>Device = s, Path = t, Type = f, Opts = opts\<rparr> # d_mounts x\<rparr>)),
      km_ParseMountInfo = (\<lambda>p x. (Inr [], x))\<rparr>"

definition demo_state :: demo where
  "demo_state = \<lparr>d_clock = 0, d_cm = \<lparr>BinaryData = None, ResourceVersion = 1\<rparr>, d_files = [], d_mounts = []\<rparr>"

definition demo_world :: "demo world" where
  "demo_world = \<lparr>ext = demo_state, deviceFSTypeMap = [], trace = []\<rparr>"

lemma demo_tower_simps [simp]:
  "tc_GetVMVolumes demo_tower q x = (Inr (case q of VolumeWhereName _ \<Rightarrow> [] | VolumeWhereID _ \<Rightarrow> [Some demo_volume]), x)"
  "tc_CreateVMVolume demo_tower p x = (Inr [Some \<lparr>wtv_TaskID = Some ''t'', wtv_Data = Some demo_volume\<rparr>], x)"
  "tc_DeleteVMVolumeFromVM demo_tower v x = (Inr demo_task, x)"
  "tc_GetClusters demo_tower l x = (Inr [Some \<lparr>cluster_ID = Some ''c''\<rparr>], x)"
  "tc_GetVms demo_tower n x = (Inr [Some \<lparr>vm_VMDisks = []\<rparr>], x)"
  "tc_AddVMDisk demo_tower n md x = (Inr demo_task, x)"
  "tc_RemoveVMDisk demo_tower n ds x = (Inr demo_task, x)"
  "tc_GetVMDisks demo_tower n v x = (Inr [Some \<lparr>disk_ID = Some ''d'', Serial = Some ''serial-1-long''\<rparr>], x)"
  "tc_GetTasks demo_tower i x = (Inr [Some \<lparr>Status = Some TaskStatusSUCCESSED\<rparr>], x)"
  "tc_GetLabels demo_tower k v x = (Inr [], x)"
  "tc_CreateLabel demo_tower k v x = (Inr [Some \<lparr>wtl_TaskID = None, wtl_Data = Some \<lparr>label_ID = Some ''l''\<rparr>\<rparr>], x)"
  "tc_AddLabelsToResources demo_tower ls v x = (Inr demo_task, x)"
  by (simp_all add: demo_tower_def)

lemma demo_configmaps_simps [simp]:
  "cm_Get demo_configmaps n x = (Inr (d_cm x), x)"
  "cm_Update demo_configmaps = (\<lambda>n m x.
        if ResourceVersion m = ResourceVersion (d_cm x)
        then (let m' = m\<lparr>ResourceVersion := Suc (ResourceVersion m)\<rparr> in (Inr m', x\<lparr>d_cm := m'\<rparr>))
        else (Inl (ExtErr ''conflict''), x))"
  by (simp_all add: demo_configmaps_def)

lemma demo_os_simps [simp]:
  "os_Stat demo_os p x = (if p \<in> set (d_files x) then Inr True else Inl (NotExistErr p), x)"
  "os_MkdirAll demo_os p x = (Inr (), x\<lparr>d_files := p # d_files x\<rparr>)"
  "os_Create demo_os p x = (Inr (), x\<lparr>d_files := p # d_files x\<rparr>)"
  "os_RemoveAll demo_os p x = (Inr (), x\<lparr>d_files := removeAll p (d_files x)\<rparr>)"
  "os_Remove demo_os p x = (Inr (), x\<lparr>d_files := removeAll p (d_files x)\<rparr>)"
  "os_LookupEnv demo_os k x = (if k = ''NODE_IP'' then Some ''10.0.0.1'' else if k = ''NODE_NAME'' then Some ''node-1'' else None)"
  "os_ReadFile demo_os p x = (Inr [], x)"
  "os_EvalSymlinks demo_os p x = (Inr p, x)"
  "os_sh demo_os c x = ((demo_sh c, None), x)"
  "os_command demo_os c as x = (([], None), x)"
  "os_Dial demo_os a x = (Inr (), x)"
  "os_Liveness demo_os a x = (Inr True, x)"
  "os_Listen demo_os n a x = (Inr (), x)"
  "os_Now demo_os x = (d_clock x, x)"
  "os_Sleep demo_os d x = (x\<lparr>d_clock := d_clock x + d\<rparr>)"
  "os_unicode demo_os = demo_unicode"
  by (simp_all add: demo_os_def)

lemma demo_kmount_simps [simp]:
  "km_Mount demo_kmount s t f opts x = (Inr (), x\<lparr>d_mounts := \<lparr>Device = s, Path = t, Type = f, Opts = opts\<rparr> # d_mounts x\<rparr>)"
  "km_Unmount demo_kmount t x = (Inr (), x\<lparr>d_mounts := filter (\<lambda>m. Path m \<noteq> t) (d_mounts x)\<rparr>)"
  "km_IsLikelyNotMountPoint demo_kmount p x = (Inr (\<not> list_ex (\<lambda>m. Path m = p) (d_mounts x)), x)"
  "km_List demo_kmount x = (Inr (d_mounts x), x)"
  "km_GetDiskFormat demo_kmount d x = (Inr [], x)"
  "km_FormatAndMount demo_kmount s t f opts x = (Inr (), x\<lparr>d_mounts := \<lparr>Device = s, Path = t, Type = f, Opts = opts\<rparr> # d_mounts x\<rparr>)"
  "km_ParseMountInfo demo_kmount p x = (Inr [], x)"
  by (simp_all add: demo_kmount_def)

lemmas demo_defs = demo_volume_def demo_task_def demo_tower_def demo_configmaps_def demo_unicode_def
  demo_os_def demo_kmount_def demo_state_def demo_world_def

end
