(* ===== verification/Retry.thy ===== *)
theory Retry
  imports Demo_Services
begin

text \<open>
  \<open>pkg/utils/utils.go\<close>: the bounded retry loop and \<open>ReadFileString\<close>.  The locale \<open>retriable\<close>
  is the contract between \<open>Retry\<close> and the function it runs: what holds when an attempt starts
  and what a successful attempt establishes.
\<close>

text \<open>
  The loop counts \<open>i\<close> up to \<open>retryLimit\<close>; \<open>n\<close> is what is left of it, \<open>err\<close> the last error.
  It sleeps after every failed attempt, the last one included.  With no attempt to make
  \<open>err\<close> is still nil.
\<close>

fun RetryLoop :: "'w os \<Rightarrow> ('w, unit) io \<Rightarrow> nat \<Rightarrow> int \<Rightarrow> go_error option \<Rightarrow> ('w, unit) io" where
  "RetryLoop os fn 0 interval err = (case err of None \<Rightarrow> returnE () | Some e \<Rightarrow> failE e)"
| "RetryLoop os fn (Suc n) interval err =
     bindE (attemptE fn) (\<lambda>r.
     case r of
       Inr _ \<Rightarrow> returnE ()
     | Inl e \<Rightarrow> bindE (SleepE os interval) (\<lambda>_. RetryLoop os fn n interval (Some e)))"

definition Retry :: "'w os \<Rightarrow> ('w, unit) io \<Rightarrow> int \<Rightarrow> int \<Rightarrow> ('w, unit) io" where
  "Retry os fn retryLimit interval = RetryLoop os fn (nat retryLimit) interval None"

definition ReadFileString :: "'w os \<Rightarrow> string \<Rightarrow> ('w, string) io" where
  "ReadFileString os filename =
     wrapE (\<lambda>err. Errorf ''failed to read %v, %v'' [AStr filename, AErr err])
       (callE (EvReadFile filename) (os_ReadFile os filename))"

section \<open>One attempt after the other\<close>

text \<open>
  \<open>attempts os fn interval k w w1 es\<close>: from \<open>w\<close>, \<open>k\<close> attempts failed with the errors \<open>es\<close>, each
  followed by the pause, and the next attempt starts in \<open>w1\<close>.
\<close>

inductive attempts ::
    "'w os \<Rightarrow> ('w, unit) io \<Rightarrow> int \<Rightarrow> nat \<Rightarrow> 'w world \<Rightarrow> 'w world \<Rightarrow> go_error list \<Rightarrow> bool"
  for os fn interval where
  attempts_none: "attempts os fn interval 0 w w []"
| attempts_more: "fn w = (Fail e, w1) \<Longrightarrow> attempts os fn interval k (snd (SleepE os interval w1)) w2 es \<Longrightarrow>
     attempts os fn interval (Suc k) w w2 (e # es)"

inductive_cases attempts_SucE: "attempts os fn interval (Suc k) w w2 es"

lemma attempts_length: "attempts os fn interval k w w1 es \<Longrightarrow> length es = k"
  by (induction rule: attempts.induct) auto

lemma SleepE_run: "SleepE os d w = (Ret (), snd (SleepE os d w))"
  by (simp add: SleepE_def)

lemma RetryLoop_fail_step:
  assumes "fn w = (Fail e, w1)"
  shows "RetryLoop os fn (Suc n) interval err w =
    RetryLoop os fn n interval (Some e) (snd (SleepE os interval w1))"
proof -
  have "attemptE fn w = (Ret (Inl e), w1)" using assms by (simp add: attemptE_def)
  then show ?thesis by (simp add: bindE_step [OF SleepE_run] bindE_step)
qed

lemma RetryLoop_ok_step:
  "fn w = (Ret (), w1) \<Longrightarrow> RetryLoop os fn (Suc n) interval err w = (Ret (), w1)"
  by (simp add: bindE_def attemptE_def returnE_def)

text \<open>
  The outcomes of the loop in terms of the attempts: an attempt succeeded before the limit, or
  none did and the last error is left.
\<close>

definition retried ::
    "'w os \<Rightarrow> ('w, unit) io \<Rightarrow> nat \<Rightarrow> int \<Rightarrow> go_error option \<Rightarrow> 'w world \<Rightarrow> unit res \<times> 'w world \<Rightarrow> bool" where
  "retried os fn n interval err w rw \<longleftrightarrow>
     (\<exists>k w1 w2 es. k < n \<and> attempts os fn interval k w w1 es \<and> fn w1 = (Ret (), w2) \<and> rw = (Ret (), w2)) \<or>
     (\<exists>w1 es. attempts os fn interval n w w1 es \<and>
        rw = (case (if es = [] then err else Some (last es)) of None \<Rightarrow> Ret () | Some e \<Rightarrow> Fail e, w1))"

lemma retried_none: "retried os fn 0 interval err w (case err of None \<Rightarrow> Ret () | Some e \<Rightarrow> Fail e, w)"
  unfolding retried_def by (rule disjI2, intro exI [of _ w] exI [of _ "[]"]) (simp add: attempts_none)

lemma retried_ok: "fn w = (Ret (), w1) \<Longrightarrow> retried os fn (Suc n) interval err w (Ret (), w1)"
  unfolding retried_def
  by (intro disjI1 exI [of _ 0] exI [of _ w] exI [of _ w1] exI [of _ "[]"]) (simp add: attempts_none)

lemma retried_fail:
  assumes "fn w = (Fail e, w1)" and "retried os fn n interval (Some e) (snd (SleepE os interval w1)) rw"
  shows "retried os fn (Suc n) interval err w rw"
  using assms(2) unfolding retried_def
proof (elim disjE exE conjE)
  fix k w2 w3 es
  assume "k < n" "attempts os fn interval k (snd (SleepE os interval w1)) w2 es" "fn w2 = (Ret (), w3)" "rw = (Ret (), w3)"
  with attempts_more [of fn, OF assms(1)] show "(\<exists>k w1 w2 es. k < Suc n \<and> attempts os fn interval k w w1 es \<and> fn w1 = (Ret (), w2) \<and>
      rw = (Ret (), w2)) \<or> (\<exists>w1 es. attempts os fn interval (Suc n) w w1 es \<and>
      rw = (case (if es = [] then err else Some (last es)) of None \<Rightarrow> Ret () | Some e \<Rightarrow> Fail e, w1))"
    by (intro disjI1 exI [of _ "Suc k"] exI [of _ w2] exI [of _ w3] exI [of _ "e # es"]) simp
next
  fix w2 es
  assume "attempts os fn interval n (snd (SleepE os interval w1)) w2 es"
    "rw = (case (if es = [] then Some e else Some (last es)) of None \<Rightarrow> Ret () | Some e \<Rightarrow> Fail e, w2)"
  with attempts_more [of fn, OF assms(1)] show "(\<exists>k w1 w2 es. k < Suc n \<and> attempts os fn interval k w w1 es \<and> fn w1 = (Ret (), w2) \<and>
      rw = (Ret (), w2)) \<or> (\<exists>w1 es. attempts os fn interval (Suc n) w w1 es \<and>
      rw = (case (if es = [] then err else Some (last es)) of None \<Rightarrow> Ret () | Some e \<Rightarrow> Fail e, w1))"
    by (intro disjI2 exI [of _ w2] exI [of _ "e # es"]) auto
qed

lemma RetryLoop_outcome:
  assumes "fst (RetryLoop os fn n interval err w) \<noteq> Panic"
    and "fst (RetryLoop os fn n interval err w) \<noteq> Diverge"
  shows "retried os fn n interval err w (RetryLoop os fn n interval err w)"
  using assms
proof (induction n arbitrary: w err)
  case 0
  have "RetryLoop os fn 0 interval err w = (case err of None \<Rightarrow> Ret () | Some e \<Rightarrow> Fail e, w)"
    by (simp add: returnE_def failE_def split: option.splits)
  then show ?case using retried_none by metis
next
  case (Suc n)
  obtain r w1 where fn: "fn w = (r, w1)" by fastforce
  show ?case
  proof (cases r)
    case (Ret u)
    with fn have "fn w = (Ret (), w1)" by simp
    then show ?thesis unfolding RetryLoop_ok_step [of fn w w1, OF \<open>fn w = (Ret (), w1)\<close>] by (rule retried_ok)
  next
    case (Fail e)
    with fn have failed: "fn w = (Fail e, w1)" by simp
    from Suc.prems show ?thesis unfolding RetryLoop_fail_step [of fn, OF failed]
      by (intro retried_fail [of fn, OF failed] Suc.IH)
  qed (use fn Suc.prems in \<open>simp_all add: bindE_def attemptE_def\<close>)
qed

lemma emits_RetryLoop [emits_rules]:
  "emits P fn \<Longrightarrow> P (EvSleep interval) \<Longrightarrow> emits P (RetryLoop os fn n interval err)"
  by (induction n arbitrary: err) (auto intro!: emits_rules split: option.splits)

lemma emits_Retry [emits_rules]:
  "emits P fn \<Longrightarrow> P (EvSleep interval) \<Longrightarrow> emits P (Retry os fn limit interval)"
  unfolding Retry_def by (intro emits_rules)

lemma yields_RetryLoop:
  assumes "yields (\<lambda>_. True) fn"
  shows "yields (\<lambda>_. True) (RetryLoop os fn n interval err)"
proof (induction n arbitrary: err)
  case 0
  show ?case by (cases err) (simp_all add: yields_rules)
next
  case (Suc n)
  have sleep: "yields (\<lambda>_. True) (SleepE os interval)" by (simp add: yields_def SleepE_def)
  show ?case unfolding RetryLoop.simps
    by (rule yields_bindE [OF yields_attemptE [OF assms]])
       (auto intro!: yields_returnE yields_bindE [OF sleep] Suc.IH split: sum.splits)
qed

section \<open>The contract of a retried function\<close>

locale retriable =
  fixes os :: "'w os" and fn :: "('w, unit) io"
    and start :: "'w world \<Rightarrow> bool" and post :: "'w world \<Rightarrow> bool"
  assumes attempt_ok: "start w \<Longrightarrow> fn w = (Ret (), w') \<Longrightarrow> post w'"
    and attempt_err: "start w \<Longrightarrow> fn w = (Fail e, w') \<Longrightarrow> start (snd (SleepE os d w'))"
begin

lemma attempts_start: "attempts os fn d k w w1 es \<Longrightarrow> start w \<Longrightarrow> start w1"
  by (induction rule: attempts.induct) (auto intro: attempt_err)

lemma retry_establishes:
  assumes "start w" and "0 < limit" and "Retry os fn limit d w = (Ret (), w')"
  shows "post w'"
proof -
  let ?L = "RetryLoop os fn (nat limit) d None w"
  have L: "?L = (Ret (), w')" using assms(3) by (simp add: Retry_def)
  then have "fst ?L \<noteq> Panic" "fst ?L \<noteq> Diverge" by simp_all
  from RetryLoop_outcome [OF this, unfolded retried_def] consider
    (ok) k w1 w2 es where "attempts os fn d k w w1 es" "fn w1 = (Ret (), w2)" "?L = (Ret (), w2)"
    | (out) w1 es where "attempts os fn d (nat limit) w w1 es"
        "?L = (case (if es = [] then None else Some (last es)) of None \<Rightarrow> Ret () | Some e \<Rightarrow> Fail e, w1)"
    by blast
  then show ?thesis
  proof cases
    case ok
    with L attempts_start [OF ok(1) assms(1)] show ?thesis by (auto intro: attempt_ok)
  next
    case out
    from attempts_length [OF out(1)] assms(2) have "es \<noteq> []" by auto
    with out L show ?thesis by simp
  qed
qed

end

section \<open>Properties\<close>

text \<open>
  C34: What \<open>Retry\<close> reports, for a function that returns: either some attempt among the first
  \<open>retryLimit\<close> succeeded after the earlier ones failed, each followed by one pause, and
  \<open>Retry\<close> stopped right there; or all \<open>retryLimit\<close> attempts failed and it reports the last error; with a
  limit of zero or less it reports success without an attempt.
\<close>

theorem Retry_outcome:
  assumes "\<forall>w. fst (fn w) \<notin> {Panic, Diverge}"
  shows "(\<exists>k w1 w2 es. k < nat limit \<and> attempts os fn d k w w1 es \<and> fn w1 = (Ret (), w2) \<and>
            Retry os fn limit d w = (Ret (), w2)) \<or>
         (\<exists>w1 es. attempts os fn d (nat limit) w w1 es \<and>
            Retry os fn limit d w = (if limit \<le> 0 then Ret () else Fail (last es), w1))"
proof -
  have "yields (\<lambda>_. True) fn" using assms by (auto simp: yields_def split: res.splits)
  from yields_orderly [OF yields_RetryLoop [OF this], of os "nat limit" d None w]
  have "fst (RetryLoop os fn (nat limit) d None w) \<noteq> Panic" "fst (RetryLoop os fn (nat limit) d None w) \<noteq> Diverge"
    by simp_all
  from RetryLoop_outcome [OF this, unfolded retried_def] show ?thesis
  proof (elim disjE exE conjE)
    fix w1 es
    assume run: "attempts os fn d (nat limit) w w1 es" "RetryLoop os fn (nat limit) d None w =
      (case (if es = [] then None else Some (last es)) of None \<Rightarrow> Ret () | Some e \<Rightarrow> Fail e, w1)"
    moreover have "es = [] \<longleftrightarrow> limit \<le> 0" using attempts_length [OF run(1)] by auto
    ultimately show ?thesis by (auto simp: Retry_def)
  qed (auto simp: Retry_def)
qed

lemma attempts_failE: "attempts os (failE e) d k w w1 es \<Longrightarrow> es = replicate k e"
  by (induction k arbitrary: w es) (auto elim: attempts.cases attempts_SucE simp: failE_def)

theorem Retry_outcome_witness:
  "\<exists>w. Retry demo_os (failE (ExtErr ''busy'')) 3 Second demo_world = (Fail (ExtErr ''busy''), w)"
  using Retry_outcome [of "failE (ExtErr ''busy'')" 3 demo_os Second demo_world]
  by (auto simp: failE_def dest: attempts_failE)

end
