(* ===== verification/Driver_Utils.thy ===== *)
theory Driver_Utils
  imports Go_Logic
begin

text \<open>
  The helpers of \<open>pkg/driver/utils.go\<close> and the tables of \<open>pkg/driver/driver.go\<close>: volume sizes
  on 64-bit words, validation of volume capabilities, the sharing decision, storage policies,
  staging paths, mount flag comparison and the creation of mount targets.  A pure function that
  may return an error or panic has type \<open>'a res\<close>.
\<close>

section \<open>Tables\<close>

definition ext2FS :: string where "ext2FS = ''ext2''"
definition ext3FS :: string where "ext3FS = ''ext3''"
definition ext4FS :: string where "ext4FS = ''ext4''"
definition xfsFS :: string where "xfsFS = ''xfs''"
definition defaultFS :: string where "defaultFS = ext4FS"

definition supportedFS :: "string \<rightharpoonup> bool" where
  "supportedFS = [ext2FS \<mapsto> True, ext3FS \<mapsto> True, ext4FS \<mapsto> True, xfsFS \<mapsto> True]"

definition mountModeAccessModes :: "AccessMode_Mode \<rightharpoonup> bool" where
  "mountModeAccessModes = [SINGLE_NODE_READER_ONLY \<mapsto> True, SINGLE_NODE_WRITER \<mapsto> True]"

definition blockModeAccessModes :: "AccessMode_Mode \<rightharpoonup> bool" where
  "blockModeAccessModes =
     [SINGLE_NODE_READER_ONLY \<mapsto> True, SINGLE_NODE_WRITER \<mapsto> True,
      MULTI_NODE_MULTI_WRITER \<mapsto> True, MULTI_NODE_READER_ONLY \<mapsto> True,
      MULTI_NODE_SINGLE_WRITER \<mapsto> True]"

definition accessModesNeedSharing :: "AccessMode_Mode \<rightharpoonup> bool" where
  "accessModesNeedSharing =
     [SINGLE_NODE_READER_ONLY \<mapsto> False, SINGLE_NODE_WRITER \<mapsto> False,
      MULTI_NODE_MULTI_WRITER \<mapsto> True, MULTI_NODE_READER_ONLY \<mapsto> True,
      MULTI_NODE_SINGLE_WRITER \<mapsto> True]"

section \<open>Volume sizes\<close>

definition GB :: uint64 where "GB = push_bit 30 1"

definition defaultVolumeSize :: uint64 where "defaultVolumeSize = 1 * GB"

text \<open>A division by zero panics; \<open>div++\<close> and the product wrap around.\<close>

definition roundUp :: "uint64 \<Rightarrow> uint64 \<Rightarrow> uint64 res" where
  "roundUp num base =
     (if base = 0 then Panic
      else let d = num div base;
               m = num mod base;
               d' = (if 0 < m then d + 1 else d)
           in Ret (d' * base))"

definition getVolumeSize :: "CapacityRange option \<Rightarrow> uint64 res" where
  "getVolumeSize capablitiesRange =
     (if sint (GetRequiredBytes capablitiesRange) < 0 \<and> sint (GetLimitBytes capablitiesRange) < 0
      then Fail (StatusErr InvalidArgument ''volume capcity range error %+v'' [ARange capablitiesRange])
      else if 0 < sint (GetRequiredBytes capablitiesRange)
      then roundUp (GetRequiredBytes capablitiesRange) GB
      else if 0 < sint (GetLimitBytes capablitiesRange)
      then roundUp (GetLimitBytes capablitiesRange) GB
      else Ret defaultVolumeSize)"

section \<open>Capabilities, sharing, storage policy\<close>

definition checkCapability :: "VolumeCapability option \<Rightarrow> unit res" where
  "checkCapability c =
     (case c of
        None \<Rightarrow> Fail (StatusErr InvalidArgument ''volumeCapablities is empty'' [])
      | Some v \<Rightarrow>
          (case cap_AccessMode v of
             None \<Rightarrow> Fail (StatusErr InvalidArgument ''access mode is empty'' [])
           | Some mode \<Rightarrow>
               (case GetMount c of
                  Some m \<Rightarrow>
                    if mountModeAccessModes mode = None
                    then Fail (StatusErr InvalidArgument
                      ''mount mode volume does not support access mode %v'' [AMode mode])
                    else let fsType = (if FsType m = [] then defaultFS else FsType m) in
                      if supportedFS fsType = None
                      then Fail (StatusErr InvalidArgument ''unsupported fs %v'' [AStr fsType])
                      else Ret ()
                | None \<Rightarrow>
                    if blockModeAccessModes mode = None
                    then Fail (StatusErr InvalidArgument
                      ''block mode volume does not support %v'' [AMode mode])
                    else Ret ())))"

fun checkCapabilityList :: "VolumeCapability option list \<Rightarrow> unit res" where
  "checkCapabilityList [] = Ret ()"
| "checkCapabilityList (c # cs) =
     (case checkCapability c of Ret _ \<Rightarrow> checkCapabilityList cs | r \<Rightarrow> r)"

definition checkVolumeCapabilities :: "VolumeCapability option list \<Rightarrow> unit res" where
  "checkVolumeCapabilities volumeCapabilities =
     (if length volumeCapabilities = 0
      then Fail (StatusErr InvalidArgument ''volumeCapablities is empty'' [])
      else checkCapabilityList volumeCapabilities)"

text \<open>The loop leaves at the first mode that needs sharing, and fails at the first unknown one.\<close>

fun checkNeedSharing :: "VolumeCapability option list \<Rightarrow> bool res" where
  "checkNeedSharing [] = Ret False"
| "checkNeedSharing (c # cs) =
     (case accessModesNeedSharing (GetMode c) of
        None \<Rightarrow> Fail (StatusErr InvalidArgument ''unknown access mode %v'' [AMode (GetMode c)])
      | Some sharing \<Rightarrow> if sharing then Ret True else checkNeedSharing cs)"

definition StoragePolicy :: string where "StoragePolicy = ''storagePolicy''"

definition getStoragePolicy :: "params \<Rightarrow> StoragePolicyType" where
  "getStoragePolicy ps =
     (case ps StoragePolicy of
        None \<Rightarrow> REPLICA_2_THIN_PROVISION
      | Some spStr \<Rightarrow>
          if spStr = ''REPLICA_2_THIN_PROVISION'' then REPLICA_2_THIN_PROVISION
          else if spStr = ''REPLICA_3_THIN_PROVISION'' then REPLICA_3_THIN_PROVISION
          else if spStr = ''REPLICA_2_THICK_PROVISION'' then REPLICA_2_THICK_PROVISION
          else if spStr = ''REPLICA_3_THICK_PROVISION'' then REPLICA_3_THICK_PROVISION
          else REPLICA_2_THIN_PROVISION)"

section \<open>Paths, flags, targets\<close>

definition generateStagingPath :: "string \<Rightarrow> string \<Rightarrow> string" where
  "generateStagingPath stagingTargetPath device = JoinPath [stagingTargetPath, Base device]"

text \<open>The first loop of \<open>checkMountFlags\<close> fills a map, the second looks every flag up in it.\<close>

definition flagsMap :: "string list \<Rightarrow> string \<rightharpoonup> bool" where
  "flagsMap actualFlags = foldl (\<lambda>m flag. m(flag \<mapsto> True)) Map.empty actualFlags"

fun flagsFound :: "(string \<rightharpoonup> bool) \<Rightarrow> string list \<Rightarrow> bool" where
  "flagsFound m [] = True"
| "flagsFound m (flag # flags) = (if m flag = None then False else flagsFound m flags)"

definition checkMountFlags :: "string list \<Rightarrow> string list \<Rightarrow> bool" where
  "checkMountFlags actualFlags expectFlags = flagsFound (flagsMap actualFlags) expectFlags"

definition createDir :: "'w os \<Rightarrow> string \<Rightarrow> ('w, unit) io" where
  "createDir os path =
     bindE (attemptE (callE (EvStat path) (os_Stat os path))) (\<lambda>st.
     case st of
       Inr isDir \<Rightarrow>
         if \<not> isDir then failE (StatusErr AlreadyExists ''%v is not dir'' [AStr path])
         else returnE ()
     | Inl err \<Rightarrow>
         if \<not> IsNotExist err then failE (StatusErr Internal ''stat %v, %v'' [AStr path, AErr err])
         else wrapE (\<lambda>err. StatusErr Internal ''failed to mkdir %v'' [AStr path])
                (callE (EvMkdirAll path) (os_MkdirAll os path)))"

definition createFile :: "'w os \<Rightarrow> string \<Rightarrow> ('w, unit) io" where
  "createFile os path =
     bindE (attemptE (callE (EvStat path) (os_Stat os path))) (\<lambda>st.
     case st of
       Inr isDir \<Rightarrow>
         if isDir then failE (StatusErr AlreadyExists ''%v is dir not file'' [AStr path])
         else returnE ()
     | Inl err \<Rightarrow>
         if \<not> IsNotExist err then failE (StatusErr Internal ''stat %v, %v'' [AStr path, AErr err])
         else wrapE (\<lambda>err. StatusErr Internal ''failed to create %v file'' [AStr path])
                (callE (EvCreate path) (os_Create os path)))"

definition getNodeIP :: "'w os \<Rightarrow> ('w, string) io" where
  "getNodeIP os =
     bindE (LookupEnvE os ''NODE_IP'') (\<lambda>nodeIP.
     case nodeIP of
       None \<Rightarrow> failE (Errorf ''failed to lookup NODE_IP env'' [])
     | Some ip \<Rightarrow> returnE ip)"

section \<open>Volume sizes: facts\<close>

lemma unat_GB [simp]: "unat GB = 1073741824"
  by (simp add: GB_def)

lemma GB_nonzero [simp]: "GB \<noteq> 0"
  by (simp add: GB_def)

definition ceil_div :: "nat \<Rightarrow> nat \<Rightarrow> nat" where
  "ceil_div n b = (if 0 < n mod b then n div b + 1 else n div b)"

lemma ceil_div_bounds:
  assumes "0 < b"
  shows "n \<le> ceil_div n b * b" and "ceil_div n b * b < n + b"
proof -
  have n: "n div b * b + n mod b = n" by (rule div_mult_mod_eq)
  have m: "n mod b < b" using assms by simp
  have "n \<le> ceil_div n b * b \<and> ceil_div n b * b < n + b"
  proof (cases "0 < n mod b")
    case True
    then have "ceil_div n b * b = n div b * b + b" by (simp add: ceil_div_def)
    with n m True show ?thesis by linarith
  next
    case False
    then have "ceil_div n b * b = n div b * b" by (simp add: ceil_div_def)
    with n False assms show ?thesis by linarith
  qed
  then show "n \<le> ceil_div n b * b" and "ceil_div n b * b < n + b" by simp_all
qed

lemma roundUp_unat:
  assumes "base \<noteq> 0" and "unat num + unat base \<le> 2 ^ 64"
  obtains r where "roundUp num base = Ret r"
    and "unat r = ceil_div (unat num) (unat base) * unat base"
proof -
  let ?k = "ceil_div (unat num) (unat base)"
  let ?d = "if 0 < num mod base then num div base + 1 else num div base"
  have b: "0 < unat base" using assms(1) by (simp add: unat_gt_0)
  with assms(2) have lt: "?k * unat base < 2 ^ 64"
    using ceil_div_bounds(2) [OF b, of "unat num"] by simp
  have "0 < num mod base \<longleftrightarrow> 0 < unat num mod unat base"
    by (simp add: word_less_nat_alt unat_mod_distrib)
  then have "?d = of_nat ?k"
    by (simp add: ceil_div_def unat_div_distrib [symmetric])
  then have "?d * base = of_nat (?k * unat base)" by simp
  then have "unat (?d * base) = unat (of_nat (?k * unat base) :: uint64)" by (rule arg_cong)
  also have "\<dots> = ?k * unat base"
    using lt by (simp only: unat_of_nat take_bit_nat_eq_self) (simp add: take_bit_nat_eq_self)
  finally have "unat (?d * base) = ?k * unat base" .
  with assms(1) show thesis by (intro that) (auto simp: roundUp_def Let_def)
qed

lemma roundUp_bounds:
  assumes "base \<noteq> 0" and "unat num + unat base \<le> 2 ^ 64"
  obtains r where "roundUp num base = Ret r" "unat base dvd unat r"
    "unat num \<le> unat r" "unat r < unat num + unat base"
proof -
  have b: "0 < unat base" using assms(1) by (simp add: unat_gt_0)
  from roundUp_unat [OF assms] obtain r where r: "roundUp num base = Ret r"
    "unat r = ceil_div (unat num) (unat base) * unat base" .
  show thesis
    by (rule that [OF r(1)]) (use ceil_div_bounds [OF b, of "unat num"] in \<open>simp_all only: r(2) dvd_triv_right\<close>)
qed

text \<open>Rounding a positive \<open>int64\<close> up to a gibibyte never wraps as a \<open>uint64\<close>.\<close>

lemma roundUp_GB:
  assumes "0 < sint (x :: int64)"
  obtains r where "roundUp x GB = Ret r" "1073741824 dvd unat r"
    "unat x \<le> unat r" "unat r < unat x + 1073741824"
proof -
  from sint64_pos_unat [OF assms] have "unat x + unat GB \<le> 2 ^ 64" by simp
  from roundUp_bounds [OF GB_nonzero this] show thesis using that by auto
qed

lemma getVolumeSize_cases:
  fixes r :: "CapacityRange option"
  obtains (neg) "sint (GetRequiredBytes r) < 0" "sint (GetLimitBytes r) < 0"
      "getVolumeSize r = Fail (StatusErr InvalidArgument ''volume capcity range error %+v'' [ARange r])"
  | (req) s where "0 < sint (GetRequiredBytes r)" "getVolumeSize r = Ret s"
      "1073741824 dvd unat s" "unat (GetRequiredBytes r) \<le> unat s"
      "unat s < unat (GetRequiredBytes r) + 1073741824"
  | (lim) s where "sint (GetRequiredBytes r) \<le> 0" "0 < sint (GetLimitBytes r)"
      "getVolumeSize r = Ret s" "1073741824 dvd unat s"
      "unat (GetLimitBytes r) \<le> unat s" "unat s < unat (GetLimitBytes r) + 1073741824"
  | (def) "sint (GetRequiredBytes r) \<le> 0" "sint (GetLimitBytes r) \<le> 0"
      "\<not> (sint (GetRequiredBytes r) < 0 \<and> sint (GetLimitBytes r) < 0)" "getVolumeSize r = Ret defaultVolumeSize"
proof (cases "sint (GetRequiredBytes r) < 0 \<and> sint (GetLimitBytes r) < 0")
  case True
  then show thesis using neg by (simp add: getVolumeSize_def)
next
  case neg: False
  show thesis
  proof (cases "0 < sint (GetRequiredBytes r)")
    case True
    then show thesis using roundUp_GB [OF True] req by (auto simp: getVolumeSize_def)
  next
    case not_req: False
    show thesis
    proof (cases "0 < sint (GetLimitBytes r)")
      case True
      with not_req show thesis using roundUp_GB [OF True] lim by (auto simp: getVolumeSize_def)
    next
      case False
      with neg not_req show thesis by (intro def) (auto simp: getVolumeSize_def)
    qed
  qed
qed

section \<open>Capabilities: facts\<close>

lemma mountModeAccessModes_None:
  "mountModeAccessModes m = None \<longleftrightarrow> m \<notin> {SINGLE_NODE_READER_ONLY, SINGLE_NODE_WRITER}"
  by (auto simp: mountModeAccessModes_def)

lemma blockModeAccessModes_None:
  "blockModeAccessModes m = None \<longleftrightarrow>
     m \<notin> {SINGLE_NODE_READER_ONLY, SINGLE_NODE_WRITER, MULTI_NODE_MULTI_WRITER,
           MULTI_NODE_READER_ONLY, MULTI_NODE_SINGLE_WRITER}"
  by (auto simp: blockModeAccessModes_def)

lemma supportedFS_None: "supportedFS f = None \<longleftrightarrow> f \<notin> {''ext2'', ''ext3'', ''ext4'', ''xfs''}"
  by (auto simp: supportedFS_def ext2FS_def ext3FS_def ext4FS_def xfsFS_def)

lemma accessModesNeedSharing_eq:
  "accessModesNeedSharing m =
     (if m \<in> {SINGLE_NODE_READER_ONLY, SINGLE_NODE_WRITER} then Some False
      else if m \<in> {MULTI_NODE_MULTI_WRITER, MULTI_NODE_READER_ONLY, MULTI_NODE_SINGLE_WRITER}
      then Some True else None)"
  by (auto simp: accessModesNeedSharing_def)

lemma checkCapabilityList_Ret:
  "checkCapabilityList cs = Ret () \<longleftrightarrow> (\<forall>c \<in> set cs. checkCapability c = Ret ())"
  by (induction cs) (auto split: res.splits)

lemma checkCapability_code:
  "checkCapability c \<noteq> Ret () \<Longrightarrow> \<exists>s as. checkCapability c = Fail (StatusErr InvalidArgument s as)"
  by (auto simp: checkCapability_def Let_def split: option.splits if_splits)

lemma checkCapabilityList_code:
  "checkCapabilityList cs \<noteq> Ret () \<Longrightarrow>
   \<exists>s as. checkCapabilityList cs = Fail (StatusErr InvalidArgument s as)"
proof (induction cs)
  case (Cons c cs)
  then show ?case using checkCapability_code [of c] by (cases "checkCapability c") auto
qed simp

section \<open>Flags, paths, targets: facts\<close>

lemma flagsMap_apply: "flagsMap fs x = (if x \<in> set fs then Some True else None)"
  unfolding flagsMap_def by (induction fs rule: rev_induct) auto

lemma flagsFound_subset: "flagsFound (flagsMap fs) gs \<longleftrightarrow> set gs \<subseteq> set fs"
  by (induction gs) (auto simp: flagsMap_apply)

lemma generateStagingPath_plain:
  assumes "list_all ordinary dir" and "ordinary vid"
  shows "generateStagingPath (slash # JoinBy ''/'' dir) vid = slash # JoinBy ''/'' (dir @ [vid])"
proof -
  have vid: "vid \<noteq> []" "slash \<notin> set vid" using assms(2) by (auto simp: ordinary_def)
  have join: "JoinBy ''/'' [slash # JoinBy ''/'' dir, vid] = slash # JoinBy ''/'' dir @ slash # vid"
    by simp
  show ?thesis
  proof (cases "dir = []")
    case True
    have "Split slash (slash # slash # vid) = [[], [], vid]"
      using vid by (simp add: Split_no_sep)
    with True assms(2) show ?thesis
      by (simp add: generateStagingPath_def Base_plain [OF vid] Clean_def clean_step_def ordinary_def)
  next
    case False
    have "JoinBy ''/'' (dir @ [vid]) = JoinBy ''/'' dir @ slash # vid"
      using JoinBy_snoc [OF False, of "''/''" vid] by simp
    moreover have "Clean (slash # JoinBy ''/'' (dir @ [vid])) = slash # JoinBy ''/'' (dir @ [vid])"
      using assms by (intro Clean_rooted) simp
    ultimately show ?thesis
      by (simp add: generateStagingPath_def Base_plain [OF vid])
  qed
qed

lemma emits_createDir [emits_rules]:
  "P (EvStat p) \<Longrightarrow> P (EvMkdirAll p) \<Longrightarrow> emits P (createDir os p)"
  unfolding createDir_def by (intro emits_rules)

lemma emits_createFile [emits_rules]:
  "P (EvStat p) \<Longrightarrow> P (EvCreate p) \<Longrightarrow> emits P (createFile os p)"
  unfolding createFile_def by (intro emits_rules)

section \<open>Properties\<close>

text \<open>The bytes a capacity range asks for: the required ones, or else the limit, or else one gibibyte.\<close>

definition askedBytes :: "CapacityRange option \<Rightarrow> int" where
  "askedBytes r =
     (if 0 < sint (GetRequiredBytes r) then sint (GetRequiredBytes r)
      else if 0 < sint (GetLimitBytes r) then sint (GetLimitBytes r) else 2 ^ 30)"

text \<open>Rounding up to gibibytes leaves the signed range exactly above \<open>2^63 - 2^30\<close>.\<close>

lemma rounded_sign:
  fixes v s :: uint64
  assumes "0 < sint v" and "1073741824 dvd unat s" and "unat v \<le> unat s" and "unat s < unat v + 1073741824"
  shows "sint s < 0 \<longleftrightarrow> 9223372035781033984 < sint v"
proof -
  have gap: "n \<le> 9223372035781033984" if "1073741824 dvd n" "n < 9223372036854775808" for n :: nat
  proof -
    from that(1) obtain k where k: "n = 1073741824 * k" by (rule dvdE)
    with that(2) have "k \<le> 8589934591" by simp
    with k show ?thesis by simp
  qed
  have q: "int (unat v) = sint v" by (rule sint64_pos_unat [OF assms(1)])
  have neg: "sint s < 0 \<longleftrightarrow> 9223372036854775808 \<le> unat s"
    using unat64_bound [of s] by (simp add: sint64_conv del: of_nat_unat)
  have "9223372036854775808 \<le> unat s \<longleftrightarrow> 9223372035781033984 < unat v"
    using assms(3,4) gap [of "unat s"] assms(2) by linarith
  then have "9223372036854775808 \<le> unat s \<longleftrightarrow> 9223372035781033984 < sint v"
    unfolding q [symmetric] by linarith
  with neg show ?thesis by simp
qed

text \<open>
  C20: The size of a new volume is exact: for a range with two negative bounds
  \<open>getVolumeSize\<close> answers InvalidArgument, and for every other one, and for none, the least multiple of a
  gibibyte that holds the required bytes when these are positive, or else the limit when that is,
  or else one gibibyte.  The size is an unsigned word; read as the int64 that is sent to
  CloudTower it is negative exactly when more than \<open>2^63 - 2^30\<close> bytes were asked for.
\<close>

theorem getVolumeSize_spec:
  "case getVolumeSize r of
     Ret s \<Rightarrow> \<not> (sint (GetRequiredBytes r) < 0 \<and> sint (GetLimitBytes r) < 0) \<and>
       2 ^ 30 dvd unat s \<and> askedBytes r \<le> int (unat s) \<and> int (unat s) < askedBytes r + 2 ^ 30 \<and>
       (sint s < 0 \<longleftrightarrow> 2 ^ 63 - 2 ^ 30 < askedBytes r)
   | Fail e \<Rightarrow> code_of e = Some InvalidArgument \<and> sint (GetRequiredBytes r) < 0 \<and> sint (GetLimitBytes r) < 0
   | Panic \<Rightarrow> False | Diverge \<Rightarrow> False"
proof (cases rule: getVolumeSize_cases [of r])
  case neg
  then show ?thesis by simp
next
  case (req s)
  then have "sint s < 0 \<longleftrightarrow> 9223372035781033984 < sint (GetRequiredBytes r)" by (intro rounded_sign) simp_all
  with req sint64_pos_unat [OF req(1)] show ?thesis by (simp add: askedBytes_def del: of_nat_unat)
next
  case (lim s)
  then have "sint s < 0 \<longleftrightarrow> 9223372035781033984 < sint (GetLimitBytes r)" by (intro rounded_sign) simp_all
  with lim sint64_pos_unat [OF lim(2)] show ?thesis by (simp add: askedBytes_def del: of_nat_unat)
next
  case def
  then show ?thesis by (auto simp: defaultVolumeSize_def askedBytes_def GB_def)
qed

text \<open>
  C33: \<open>checkVolumeCapabilities\<close> accepts exactly the non-empty lists in which every capability has
  an access mode, a file system volume a single-node mode and a supported type (ext4 when none
  is given), and any other volume one of the five modes; it answers InvalidArgument otherwise.
\<close>

theorem checkVolumeCapabilities_iff:
  "(checkVolumeCapabilities caps = Ret () \<longleftrightarrow> caps \<noteq> [] \<and> list_all (\<lambda>cap. \<exists>v mode. cap = Some v \<and> cap_AccessMode v = Some mode \<and>
      (case cap_AccessType v of
         Some (MountAccess m) \<Rightarrow> mode \<in> {SINGLE_NODE_READER_ONLY, SINGLE_NODE_WRITER} \<and>
           FsType m \<in> {[], ''ext2'', ''ext3'', ''ext4'', ''xfs''}
       | _ \<Rightarrow> mode \<in> {SINGLE_NODE_READER_ONLY, SINGLE_NODE_WRITER, MULTI_NODE_MULTI_WRITER,
           MULTI_NODE_READER_ONLY, MULTI_NODE_SINGLE_WRITER})) caps) \<and>
   (checkVolumeCapabilities caps = Ret () \<or> (\<exists>s as. checkVolumeCapabilities caps = Fail (StatusErr InvalidArgument s as)))"
proof -
  have "checkCapability cap = Ret () \<longleftrightarrow> (\<exists>v mode. cap = Some v \<and> cap_AccessMode v = Some mode \<and>
      (case cap_AccessType v of
         Some (MountAccess m) \<Rightarrow> mode \<in> {SINGLE_NODE_READER_ONLY, SINGLE_NODE_WRITER} \<and>
           FsType m \<in> {[], ''ext2'', ''ext3'', ''ext4'', ''xfs''}
       | _ \<Rightarrow> mode \<in> {SINGLE_NODE_READER_ONLY, SINGLE_NODE_WRITER, MULTI_NODE_MULTI_WRITER,
           MULTI_NODE_READER_ONLY, MULTI_NODE_SINGLE_WRITER}))" for cap
    by (auto simp: checkCapability_def GetMount_def Let_def mountModeAccessModes_None blockModeAccessModes_None
        supportedFS_None defaultFS_def ext4FS_def split: option.splits AccessType.splits if_splits)
  then show ?thesis using checkCapabilityList_Ret [of caps] checkCapabilityList_code [of caps]
    by (auto simp: checkVolumeCapabilities_def list_all_iff)
qed

text \<open>
  The sharing flag of a new volume is decided by the first capability whose mode is not a
  known single-node one: sharing when its mode is multi-node, InvalidArgument when it is
  unknown; with no such capability the volume is not shared.
\<close>

lemma checkNeedSharing_spec:
  "checkNeedSharing caps =
     (case find (\<lambda>c. GetMode c \<notin> {SINGLE_NODE_READER_ONLY, SINGLE_NODE_WRITER}) caps of
        None \<Rightarrow> Ret False
      | Some c \<Rightarrow>
          if GetMode c \<in> {MULTI_NODE_MULTI_WRITER, MULTI_NODE_READER_ONLY, MULTI_NODE_SINGLE_WRITER} then Ret True
          else Fail (StatusErr InvalidArgument ''unknown access mode %v'' [AMode (GetMode c)]))"
  by (induction caps) (auto simp: accessModesNeedSharing_eq)

text \<open>
  \<open>checkMountFlags\<close> is the subset test of the expected flags in the actual ones.
\<close>

lemma checkMountFlags_subset: "checkMountFlags actual expected \<longleftrightarrow> set expected \<subseteq> set actual"
  by (simp add: checkMountFlags_def flagsFound_subset)

text \<open>
  Volumes staged under one directory never share a staging path: for IDs that are ordinary
  path elements the path is the directory with the ID appended, so distinct IDs give distinct
  paths inside the directory.
\<close>

lemma staging_paths_distinct:
  assumes "list_all ordinary dir" and "ordinary v" and "ordinary v'"
  shows "generateStagingPath (slash # JoinBy ''/'' dir) v = slash # JoinBy ''/'' (dir @ [v]) \<and>
    (generateStagingPath (slash # JoinBy ''/'' dir) v = generateStagingPath (slash # JoinBy ''/'' dir) v' \<longleftrightarrow> v = v')"
proof -
  have "v = v'" if "JoinBy ''/'' (dir @ [v]) = JoinBy ''/'' (dir @ [v'])"
  proof -
    have "Split slash (JoinBy ''/'' (dir @ [u])) = dir @ [u]" if "ordinary u" for u
      using ordinary_no_slash [of "dir @ [u]"] assms(1) that by (intro Split_JoinBy) auto
    with that assms(2,3) show ?thesis by (metis append_same_eq append1_eq_conv)
  qed
  then show ?thesis using generateStagingPath_plain [OF assms(1,2)] generateStagingPath_plain [OF assms(1,3)] by auto
qed

lemma staging_paths_distinct_witness:
  "generateStagingPath ''/var/s'' ''vol-1'' = ''/var/s/vol-1'' \<and>
   generateStagingPath ''/var/s'' ''vol-1'' \<noteq> generateStagingPath ''/var/s'' ''vol-2''"
proof -
  have "list_all ordinary [''var'', ''s'']" "ordinary ''vol-1''" "ordinary ''vol-2''" by code_simp+
  from staging_paths_distinct [OF this] show ?thesis by (simp, metis)
qed

end
