(* ===== verification/Node_Map.thy ===== *)
theory Node_Map
  imports Json_Codec Retry Driver_Utils Demo_Services "HOL-Library.AList"
begin

text \<open>
  \<open>pkg/driver/node_map.go\<close>: the registry of node plugins, a ConfigMap whose binary data holds
  one JSON \<open>NodeEntry\<close> per node.  \<open>putEntry\<close> and \<open>getEntry\<close> are what \<open>Put\<close> and \<open>Get\<close> do with
  the data between the calls of the ConfigMap client; they implement the key/value contract of
  the locale \<open>kv_store\<close>.  \<open>configmap_contract\<close> states what the API server documents about
  resource versions; under it \<open>Put\<close> never loses another writer's update.
\<close>

record 'w nodeMap =
  nm_client :: "'w configmaps"
  nm_name :: string

definition NewNodeMap :: "string \<Rightarrow> 'w configmaps \<Rightarrow> 'w nodeMap" where
  "NewNodeMap name client = \<lparr>nm_client = client, nm_name = name\<rparr>"

definition json_err :: "json_error \<Rightarrow> go_error" where
  "json_err e = (case e of JsonSyntax \<Rightarrow> ExtErr ''json: syntax error'' | JsonType \<Rightarrow> ExtErr ''json: type error'')"

text \<open>
  A nil or empty map is replaced by a new one before it is written.  \<open>json.Marshal\<close> of the
  entry cannot fail.
\<close>

definition putEntry ::
    "(string \<times> string) list option \<Rightarrow> string \<Rightarrow> NodeEntry \<Rightarrow> ((string \<times> string) list option) res" where
  "putEntry data key entry =
     (let data' = (case data of None \<Rightarrow> [] | Some al \<Rightarrow> if length al = 0 then [] else al)
      in case map_of data' key of
           Some entryJson \<Rightarrow>
             (case UnmarshalNodeEntry entryJson of
                Inl err \<Rightarrow> Fail (StatusErr InvalidArgument ''invalid old entry %+v, %v''
                                  [AStr entryJson, AErr (json_err err)])
              | Inr oldEntry \<Rightarrow> Ret (Some (AList.update key (MarshalNodeEntry entry) data')))
         | None \<Rightarrow> Ret (Some (AList.update key (MarshalNodeEntry entry) data')))"

definition getEntry ::
    "string \<Rightarrow> (string \<times> string) list option \<Rightarrow> string \<Rightarrow> NodeEntry res" where
  "getEntry name data key =
     (case map_of (case data of None \<Rightarrow> [] | Some al \<Rightarrow> al) key of
        None \<Rightarrow> Fail (StatusErr NotFound ''not found key %v in configMap %v'' [AStr key, AStr name])
      | Some entryJson \<Rightarrow>
          (case UnmarshalNodeEntry entryJson of
             Inl err \<Rightarrow> Fail (StatusErr InvalidArgument ''invalid enrty, key %v, entry %v, %v''
                               [AStr key, AStr entryJson, AErr (json_err err)])
           | Inr entry \<Rightarrow> Ret entry))"

definition Put :: "'w nodeMap \<Rightarrow> string \<Rightarrow> NodeEntry \<Rightarrow> ('w, unit) io" where
  "Put m key entry =
     bindE (wrapE (\<lambda>err. StatusErr Internal ''failed to get configMap %v, %v'' [AStr (nm_name m), AErr err])
             (callE (EvConfigMapGet (nm_name m)) (cm_Get (nm_client m) (nm_name m)))) (\<lambda>configMap.
     bindE (liftR (putEntry (BinaryData configMap) key entry)) (\<lambda>data.
     bindE (wrapE (\<lambda>err. StatusErr Internal ''failed to update configMap %v, key %v, entry %+v, %v''
                      [AStr (nm_name m), AStr key, AStrs [NodeName entry, NodeIP entry], AInt (LivenessPort entry), AErr err])
             (callE (EvConfigMapUpdate (nm_name m) (configMap\<lparr>BinaryData := data\<rparr>))
                (cm_Update (nm_client m) (nm_name m) (configMap\<lparr>BinaryData := data\<rparr>)))) (\<lambda>_.
     returnE ())))"

definition Get :: "'w nodeMap \<Rightarrow> string \<Rightarrow> ('w, NodeEntry) io" where
  "Get m key =
     bindE (wrapE (\<lambda>err. StatusErr Internal ''failed to get configMap %v, %v'' [AStr (nm_name m), AErr err])
             (callE (EvConfigMapGet (nm_name m)) (cm_Get (nm_client m) (nm_name m)))) (\<lambda>configMap.
     liftR (getEntry (nm_name m) (BinaryData configMap) key))"

section \<open>Contracts\<close>

text \<open>A key/value store whose \<open>put\<close> may be refused.\<close>

locale kv_store =
  fixes put :: "'s \<Rightarrow> 'k \<Rightarrow> 'v \<Rightarrow> 's res" and get :: "'s \<Rightarrow> 'k \<Rightarrow> 'v res"
    and ok :: "'v \<Rightarrow> bool" and wf :: "'s \<Rightarrow> bool"
  assumes put_accepts: "wf s \<Longrightarrow> \<exists>s'. put s k v = Ret s'"
    and put_get_same: "ok v \<Longrightarrow> put s k v = Ret s' \<Longrightarrow> get s' k = Ret v"
    and put_get_other: "k' \<noteq> k \<Longrightarrow> put s k v = Ret s' \<Longrightarrow> get s' k' = get s k'"
    and put_wf: "wf s \<Longrightarrow> ok v \<Longrightarrow> put s k v = Ret s' \<Longrightarrow> wf s'"
begin

primrec puts :: "'s \<Rightarrow> ('k \<times> 'v) list \<Rightarrow> 's res" where
  "puts s [] = Ret s"
| "puts s (kv # kvs) = (case put s (fst kv) (snd kv) of Ret s' \<Rightarrow> puts s' kvs | r \<Rightarrow> r)"

text \<open>Registrations in any order and number are all accepted, and the last one of a key wins.\<close>

lemma puts_last_wins:
  "wf s \<Longrightarrow> \<forall>kv \<in> set kvs. ok (snd kv) \<Longrightarrow>
   \<exists>s'. puts s kvs = Ret s' \<and> wf s' \<and>
     (\<forall>k. get s' k = (case map_of (rev kvs) k of None \<Rightarrow> get s k | Some v \<Rightarrow> Ret v))"
proof (induction kvs arbitrary: s)
  case (Cons kv kvs)
  obtain k v where kv: "kv = (k, v)" by fastforce
  with Cons.prems obtain s1 where s1: "put s k v = Ret s1" using put_accepts by blast
  with Cons.prems kv have wf1: "wf s1" by (auto intro: put_wf)
  have same: "get s1 k = Ret v" using s1 Cons.prems(2) kv by (auto intro: put_get_same)
  from Cons.IH [OF wf1] Cons.prems(2) obtain s' where s': "puts s1 kvs = Ret s'" "wf s'"
    "\<forall>j. get s' j = (case map_of (rev kvs) j of None \<Rightarrow> get s1 j | Some v \<Rightarrow> Ret v)" by auto
  have "get s' j = (case map_of (rev (kv # kvs)) j of None \<Rightarrow> get s j | Some v \<Rightarrow> Ret v)" for j
    using s'(3) same put_get_other [OF _ s1, of j]
    by (cases "j = k") (auto simp: kv map_add_def split: option.splits)
  with s' s1 kv show ?case by auto
qed simp

end

definition entry_ok :: "NodeEntry \<Rightarrow> bool" where
  "entry_ok e = (valid_utf8 (NodeName e) \<and> valid_utf8 (NodeIP e)
     \<and> - (2 ^ 63) \<le> LivenessPort e \<and> LivenessPort e < 2 ^ 63)"

definition data_ok :: "(string \<times> string) list option \<Rightarrow> bool" where
  "data_ok data = (case data of None \<Rightarrow> True
     | Some al \<Rightarrow> list_all (\<lambda>k. case map_of al k of None \<Rightarrow> True
                      | Some j \<Rightarrow> \<not> isl (UnmarshalNodeEntry j)) (map fst al))"

lemma data_ok_iff:
  "data_ok data \<longleftrightarrow>
     (\<forall>k j. map_of (case data of None \<Rightarrow> [] | Some al \<Rightarrow> al) k = Some j \<longrightarrow> \<not> isl (UnmarshalNodeEntry j))"
proof (cases data)
  case (Some al)
  have "k \<in> fst ` set al" if "map_of al k = Some j" for k j
    using that by (metis domI dom_map_of_conv_image_fst)
  then show ?thesis unfolding data_ok_def Some
    by (auto simp: list_all_iff split: option.splits)
qed (simp add: data_ok_def)

lemma putEntry_Ret:
  "putEntry data key e = Ret data' \<Longrightarrow>
     data' = Some (AList.update key (MarshalNodeEntry e) (case data of None \<Rightarrow> [] | Some al \<Rightarrow> al))"
  by (auto simp: putEntry_def Let_def split: option.splits sum.splits if_splits)

lemma putEntry_lookup:
  assumes "putEntry data key e = Ret data'"
  obtains al where "data' = Some al"
    "map_of al = (map_of (case data of None \<Rightarrow> [] | Some al \<Rightarrow> al))(key \<mapsto> MarshalNodeEntry e)"
  using putEntry_Ret [OF assms] by (auto simp: update_conv')

lemma Unmarshal_entry_ok: "entry_ok e \<Longrightarrow> UnmarshalNodeEntry (MarshalNodeEntry e) = Inr e"
  by (rule Unmarshal_Marshal) (simp_all add: entry_ok_def)

text \<open>The data operations of the node map meet the contract.\<close>

interpretation nm: kv_store putEntry "getEntry name" entry_ok data_ok
proof
  fix s k v
  assume "data_ok s"
  then have "\<not> isl (UnmarshalNodeEntry j)"
    if "map_of (case s of None \<Rightarrow> [] | Some al \<Rightarrow> al) k = Some j" for j
    using that by (auto simp: data_ok_iff)
  then show "\<exists>s'. putEntry s k v = Ret s'"
    by (auto simp: putEntry_def Let_def split: option.splits sum.splits)
next
  fix s k v s'
  assume "entry_ok v" "putEntry s k v = Ret s'"
  then show "getEntry name s' k = Ret v"
    by (elim putEntry_lookup) (simp add: getEntry_def Unmarshal_entry_ok)
next
  fix s k v s' k'
  assume "k' \<noteq> k" "putEntry s k v = Ret s'"
  then show "getEntry name s' k' = getEntry name s k'"
    by (elim putEntry_lookup) (simp add: getEntry_def)
next
  fix s k v s'
  assume "data_ok s" "entry_ok v" "putEntry s k v = Ret s'"
  then show "data_ok s'"
    by (elim putEntry_lookup) (auto simp: data_ok_iff Unmarshal_entry_ok)
qed

text \<open>
  What the API server promises: \<open>view x n\<close> is the ConfigMap stored under \<open>n\<close> in the state \<open>x\<close>,
  \<open>later x x'\<close> that \<open>x'\<close> may come after \<open>x\<close> (other clients may write during a call).  A resource
  version is never used again for another content; \<open>Get\<close> answers with the stored object; an
  update is accepted only when the version it carries is the stored one, and stores what it
  carries.
\<close>

definition configmap_contract ::
    "'w configmaps \<Rightarrow> ('w \<Rightarrow> string \<Rightarrow> ConfigMap option) \<Rightarrow> ('w \<Rightarrow> 'w \<Rightarrow> bool) \<Rightarrow> bool" where
  "configmap_contract c view later \<longleftrightarrow>
     (\<forall>x x' n m m'. later x x' \<longrightarrow> view x n = Some m \<longrightarrow> view x' n = Some m' \<longrightarrow>
        ResourceVersion m = ResourceVersion m' \<longrightarrow> BinaryData m = BinaryData m') \<and>
     (\<forall>x n m x'. cm_Get c n x = (Inr m, x') \<longrightarrow> view x n = Some m \<and> later x x') \<and>
     (\<forall>x n m m' x'. cm_Update c n m x = (Inr m', x') \<longrightarrow>
        (\<exists>old. view x n = Some old \<and> ResourceVersion old = ResourceVersion m) \<and>
        view x' n = Some m' \<and> BinaryData m' = BinaryData m)"

lemma contract_version:
  "configmap_contract c view later \<Longrightarrow> later x x' \<Longrightarrow> view x n = Some m \<Longrightarrow> view x' n = Some m' \<Longrightarrow>
   ResourceVersion m = ResourceVersion m' \<Longrightarrow> BinaryData m = BinaryData m'"
  unfolding configmap_contract_def by blast

lemma contract_get:
  "configmap_contract c view later \<Longrightarrow> cm_Get c n x = (Inr m, x') \<Longrightarrow> view x n = Some m \<and> later x x'"
  unfolding configmap_contract_def by blast

lemma contract_update:
  assumes "configmap_contract c view later" and "cm_Update c n m x = (Inr m', x')"
  obtains old where "view x n = Some old" "ResourceVersion old = ResourceVersion m"
    "view x' n = Some m'" "BinaryData m' = BinaryData m"
  using assms unfolding configmap_contract_def by blast

text \<open>A successful \<open>Put\<close>, taken apart: what was read, and the update that was accepted.\<close>

lemma Put_Ret:
  assumes "Put m key e w = (Ret (), w')"
  obtains cm x data cm' where
    "cm_Get (nm_client m) (nm_name m) (ext w) = (Inr cm, x)"
    "putEntry (BinaryData cm) key e = Ret data"
    "cm_Update (nm_client m) (nm_name m) (cm\<lparr>BinaryData := data\<rparr>) x = (Inr cm', ext w')"
  using assms by (auto simp: Put_def ret_iffs)

lemma emits_Put [emits_rules]:
  assumes "P (EvConfigMapGet (nm_name m))" and "\<And>c. P (EvConfigMapUpdate (nm_name m) c)"
  shows "emits P (Put m key e)"
  unfolding Put_def by (intro emits_rules assms)

lemma emits_Get [emits_rules]: "P (EvConfigMapGet (nm_name m)) \<Longrightarrow> emits P (Get m key)"
  unfolding Get_def by (intro emits_rules)

text \<open>The entries of the stored ConfigMap, as the program reads them.\<close>

definition entries :: "ConfigMap \<Rightarrow> string \<rightharpoonup> string" where
  "entries m = map_of (case BinaryData m of None \<Rightarrow> [] | Some al \<Rightarrow> al)"

lemma Put_stored:
  assumes put: "Put m key e w = (Ret (), w')" and con: "configmap_contract (nm_client m) view later"
  obtains x old new where "later (ext w) x" "view x (nm_name m) = Some old"
    "view (ext w') (nm_name m) = Some new" "entries new = (entries old)(key \<mapsto> MarshalNodeEntry e)"
proof -
  from put obtain cm x data new where run: "cm_Get (nm_client m) (nm_name m) (ext w) = (Inr cm, x)"
    "putEntry (BinaryData cm) key e = Ret data"
    "cm_Update (nm_client m) (nm_name m) (cm\<lparr>BinaryData := data\<rparr>) x = (Inr new, ext w')"
    by (rule Put_Ret)
  from contract_get [OF con run(1)] have read: "view (ext w) (nm_name m) = Some cm" "later (ext w) x"
    by simp_all
  from contract_update [OF con run(3)] obtain old where
    old: "view x (nm_name m) = Some old" "ResourceVersion old = ResourceVersion cm"
    and new: "view (ext w') (nm_name m) = Some new" "BinaryData new = data" by auto
  have same: "BinaryData cm = BinaryData old"
    using contract_version [OF con read(2,1) old(1)] old(2) by simp
  obtain al where "data = Some al"
    "map_of al = (map_of (case BinaryData cm of None \<Rightarrow> [] | Some al \<Rightarrow> al))(key \<mapsto> MarshalNodeEntry e)"
    using run(2) by (rule putEntry_lookup)
  then have "entries new = (entries old)(key \<mapsto> MarshalNodeEntry e)"
    by (simp add: entries_def new(2) same)
  with read(2) old(1) new(1) show thesis by (rule that)
qed

lemma Get_run:
  assumes "cm_Get (nm_client m) (nm_name m) (ext w) = (Inr cm, x)"
    and "entries cm key = Some (MarshalNodeEntry e)" and "entry_ok e"
  shows "Get m key w = (Ret e, w\<lparr>ext := x, trace := trace w @ [EvConfigMapGet (nm_name m)]\<rparr>)"
  using assms Unmarshal_entry_ok [OF assms(3)]
  by (simp add: Get_def bindE_def wrapE_def callE_def liftR_def returnE_def getEntry_def entries_def)

lemma Get_stored:
  assumes "cm_Get (nm_client m) (nm_name m) (ext w) = (Inr cm, x)"
    and "entries cm key = Some (MarshalNodeEntry e)" and "entry_ok e"
  shows "fst (Get m key w) = Ret e"
  by (simp add: Get_run [OF assms])

section \<open>Properties\<close>

text \<open>Successive registrations, one after the other on the ConfigMap's data.\<close>

primrec putAll ::
    "(string \<times> string) list option \<Rightarrow> (string \<times> NodeEntry) list \<Rightarrow> ((string \<times> string) list option) res" where
  "putAll data [] = Ret data"
| "putAll data (kv # kvs) =
     (case putEntry data (fst kv) (snd kv) of Ret data' \<Rightarrow> putAll data' kvs | r \<Rightarrow> r)"

lemma putAll_puts: "putAll data kvs = nm.puts data kvs"
  by (induction kvs arbitrary: data) (auto split: res.splits)

text \<open>
  C32: Any sequence of registrations on a map whose entries decode is accepted, and afterwards
  every key reads as its last registration, or as before when it was not registered.
\<close>

theorem registrations_last_wins:
  assumes "data_ok data" and "\<forall>kv \<in> set kvs. entry_ok (snd kv)"
  shows "\<exists>data'. putAll data kvs = Ret data' \<and> data_ok data' \<and>
    (\<forall>k. getEntry name data' k =
       (case map_of (rev kvs) k of None \<Rightarrow> getEntry name data k | Some e \<Rightarrow> Ret e))"
  using nm.puts_last_wins [OF assms] unfolding putAll_puts .

theorem registrations_last_wins_witness:
  "\<exists>data'. putAll None [(''n1'', \<lparr>NodeName = [], NodeIP = ''10.0.0.1'', LivenessPort = 1\<rparr>),
                       (''n1'', \<lparr>NodeName = [], NodeIP = ''10.0.0.2'', LivenessPort = 2\<rparr>)] = Ret data' \<and>
     getEntry ''m'' data' ''n1'' = Ret \<lparr>NodeName = [], NodeIP = ''10.0.0.2'', LivenessPort = 2\<rparr>"
proof -
  let ?kvs = "[(''n1'', \<lparr>NodeName = [], NodeIP = ''10.0.0.1'', LivenessPort = 1\<rparr>),
               (''n1'', \<lparr>NodeName = [], NodeIP = ''10.0.0.2'', LivenessPort = 2\<rparr>)]"
  have "entry_ok \<lparr>NodeName = [], NodeIP = ''10.0.0.1'', LivenessPort = 1\<rparr>"
    "entry_ok \<lparr>NodeName = [], NodeIP = ''10.0.0.2'', LivenessPort = 2\<rparr>" by code_simp+
  then have "\<forall>kv \<in> set ?kvs. entry_ok (snd kv)" by simp
  from registrations_last_wins [of None, OF _ this, of "''m''"] obtain data' where
    "putAll None ?kvs = Ret data'"
    "\<forall>k. getEntry ''m'' data' k =
       (case map_of (rev ?kvs) k of None \<Rightarrow> getEntry ''m'' None k | Some e \<Rightarrow> Ret e)"
    by (auto simp: data_ok_def)
  from this(1) this(2) [rule_format, of "''n1''"] show ?thesis by (intro exI [of _ data'] conjI) simp_all
qed

text \<open>
  C16: A successful \<open>Put\<close> loses no other writer's registration: the stored ConfigMap differs from
  the one stored when the update was accepted in the entry of the key and in nothing else.
\<close>

theorem Put_no_lost_update:
  assumes "Put m key e w = (Ret (), w')" and "configmap_contract (nm_client m) view later"
  shows "\<exists>x old new. later (ext w) x \<and> view x (nm_name m) = Some old \<and>
    view (ext w') (nm_name m) = Some new \<and> entries new = (entries old)(key \<mapsto> MarshalNodeEntry e)"
  using Put_stored [OF assms] by metis

definition demo_later :: "demo \<Rightarrow> demo \<Rightarrow> bool" where
  "demo_later x x' \<longleftrightarrow> (ResourceVersion (d_cm x) = ResourceVersion (d_cm x') \<longrightarrow>
     BinaryData (d_cm x) = BinaryData (d_cm x'))"

lemma demo_contract: "configmap_contract demo_configmaps (\<lambda>x n. Some (d_cm x)) demo_later"
  by (auto simp: configmap_contract_def demo_configmaps_def demo_later_def Let_def split: if_splits)

definition demo_entry :: NodeEntry where
  "demo_entry = \<lparr>NodeName = [], NodeIP = ''10.0.0.1'', LivenessPort = 10103\<rparr>"

definition demo_registered :: "demo world" where
  "demo_registered = snd (Put (NewNodeMap ''nodes'' demo_configmaps) ''node-1'' demo_entry demo_world)"

lemma demo_Put: "Put (NewNodeMap ''nodes'' demo_configmaps) ''node-1'' demo_entry demo_world = (Ret (), demo_registered)"
  by (simp add: demo_registered_def Put_def NewNodeMap_def putEntry_def go_defs demo_defs Let_def)

theorem Put_no_lost_update_witness:
  "\<exists>x old new. demo_later demo_state x \<and> Some (d_cm x) = Some old \<and> Some (d_cm (ext demo_registered)) = Some new \<and>
     entries new = (entries old)(''node-1'' \<mapsto> MarshalNodeEntry demo_entry)"
  using Put_no_lost_update [OF demo_Put, of "\<lambda>x n. Some (d_cm x)" demo_later] demo_contract
  by (simp add: NewNodeMap_def demo_world_def)

text \<open>
  Round trip through the API server: after a successful \<open>Put\<close>, a \<open>Get\<close> that reads the stored
  object returns the entry that was put, field by field.
\<close>

lemma Put_then_Get:
  assumes "Put m key e w = (Ret (), w')" and "entry_ok e"
    and "configmap_contract (nm_client m) view later"
    and "cm_Get (nm_client m) (nm_name m) (ext w') = (Inr cm, x)"
  shows "fst (Get m key w') = Ret e"
proof -
  from Put_stored [OF assms(1,3)] obtain old new where
    "view (ext w') (nm_name m) = Some new" "entries new = (entries old)(key \<mapsto> MarshalNodeEntry e)" .
  moreover from contract_get [OF assms(3,4)] have "view (ext w') (nm_name m) = Some cm" by simp
  ultimately show ?thesis using assms(2,4) by (intro Get_stored) auto
qed

lemma Put_then_Get_witness:
  "fst (Get (NewNodeMap ''nodes'' demo_configmaps) ''node-1'' demo_registered) = Ret demo_entry"
proof -
  have "entry_ok demo_entry" by code_simp
  then show ?thesis
    using Put_then_Get [OF demo_Put, of "\<lambda>x n. Some (d_cm x)" demo_later] demo_contract
    by (simp add: NewNodeMap_def demo_configmaps_def)
qed

end
