(* ===== verification/Mount_Utils.thy ===== *)
theory Mount_Utils
  imports Driver_Utils Demo_Services
begin

text \<open>
  \<open>pkg/utils/mount.go\<close>: the \<open>Mount\<close> interface as a record of effectful functions, its real
  implementation \<open>mount\<close> (over \<open>kmount.SafeFormatAndMount\<close>) and the test implementation
  \<open>fakeMount\<close> (over a fake mounter and its own table of file system types).  The locale
  \<open>mount_contract\<close> is what the node server relies on; both implementations are shown to meet it.
\<close>

section \<open>The interface\<close>

record 'w Mount =
  m_Mount :: "string \<Rightarrow> string \<Rightarrow> string \<Rightarrow> string list \<Rightarrow> ('w, unit) io"
  m_Unmount :: "string \<Rightarrow> ('w, unit) io"
  m_IsLikelyNotMountPoint :: "string \<Rightarrow> ('w, bool) io"
  m_GetDiskFormat :: "string \<Rightarrow> ('w, string) io"
  m_FormatAndMount :: "string \<Rightarrow> string \<Rightarrow> string \<Rightarrow> string list \<Rightarrow> ('w, unit) io"
  m_GetMountPoint :: "string \<Rightarrow> ('w, MountPoint option) io"
  m_GetMountRef :: "string \<Rightarrow> ('w, MountInfo option) io"

text \<open>The methods of the embedded \<open>kmount\<close> values.\<close>

definition kMount :: "'w kmount \<Rightarrow> string \<Rightarrow> string \<Rightarrow> string \<Rightarrow> string list \<Rightarrow> ('w, unit) io" where
  [api_defs]: "kMount km s t f opts = callE (EvMount s t f opts) (km_Mount km s t f opts)"

definition kUnmount :: "'w kmount \<Rightarrow> string \<Rightarrow> ('w, unit) io" where
  [api_defs]: "kUnmount km t = callE (EvUnmount t) (km_Unmount km t)"

definition kIsLikelyNotMountPoint :: "'w kmount \<Rightarrow> string \<Rightarrow> ('w, bool) io" where
  [api_defs]: "kIsLikelyNotMountPoint km p =
     callE (EvIsLikelyNotMountPoint p) (km_IsLikelyNotMountPoint km p)"

definition kList :: "'w kmount \<Rightarrow> ('w, MountPoint list) io" where
  [api_defs]: "kList km = callE EvMountList (km_List km)"

definition kGetDiskFormat :: "'w kmount \<Rightarrow> string \<Rightarrow> ('w, string) io" where
  [api_defs]: "kGetDiskFormat km d = callE (EvGetDiskFormat d) (km_GetDiskFormat km d)"

definition evalSymlinks :: "'w os \<Rightarrow> string \<Rightarrow> ('w, string) io" where
  [api_defs]: "evalSymlinks os p = callE (EvEvalSymlinks p) (os_EvalSymlinks os p)"

section \<open>Mount options\<close>

fun IsMountReadOnly :: "string list \<Rightarrow> bool" where
  "IsMountReadOnly [] = False"
| "IsMountReadOnly (option # options) = (if option = ''ro'' then True else IsMountReadOnly options)"

text \<open>The loop drops \<open>rw\<close> and \<open>ro\<close>; \<open>ro\<close> is appended after it.\<close>

fun dropRwRo :: "string list \<Rightarrow> string list" where
  "dropRwRo [] = []"
| "dropRwRo (opt # options) =
     (if opt = ''rw'' \<or> opt = ''ro'' then dropRwRo options else opt # dropRwRo options)"

definition MakeReadOnlyMountOpts :: "string list \<Rightarrow> string list" where
  "MakeReadOnlyMountOpts options = dropRwRo options @ [''ro'']"

section \<open>The real mounter\<close>

definition procMountInfoPath :: string where
  "procMountInfoPath = ''/proc/self/mountinfo''"

definition formatWithOption ::
    "'w os \<Rightarrow> 'w kmount \<Rightarrow> string \<Rightarrow> string \<Rightarrow> string \<Rightarrow> string list \<Rightarrow> ('w, unit) io" where
  "formatWithOption os km source target fsType options =
     bindE (kGetDiskFormat km source) (\<lambda>existingFormat.
     if existingFormat = [] then
       (if IsMountReadOnly options
        then failE (MountErr ''UnformattedReadOnly''
          ''cannot mount unformatted disk %s as we are manipulating it in read-only mode'' [AStr source])
        else bindE (commandE os (''mkfs.'' @ fsType) (options @ [source])) (\<lambda>(output, err).
          case err of
            Some e \<Rightarrow> failE (MountErr ''FormatFailed''
              ''format of disk %q failed: type:(%q) target:(%q) options:(%q) errcode:(%v) output:(%v) ''
              [AStr source, AStr fsType, AStr target, AStrs options, AErr e, AStr output])
          | None \<Rightarrow> returnE ()))
     else returnE ())"

definition FormatAndMount ::
    "'w os \<Rightarrow> 'w kmount \<Rightarrow> string \<Rightarrow> string \<Rightarrow> string \<Rightarrow> string list \<Rightarrow> ('w, unit) io" where
  "FormatAndMount os km source target fsType options =
     (if fsType = ''xfs'' then
        bindE (formatWithOption os km source target fsType [''-m'', ''reflink=0'', ''-K'']) (\<lambda>_.
        kMount km source target fsType (options @ [''nouuid'']))
      else if fsType = ''ext4'' then
        bindE (formatWithOption os km source target fsType [''-E'', ''nodiscard'', ''-F'', ''-m0'']) (\<lambda>_.
        kMount km source target fsType options)
      else callE (EvKFormatAndMount source target fsType options)
             (km_FormatAndMount km source target fsType options))"

definition GetMountRef :: "'w os \<Rightarrow> 'w kmount \<Rightarrow> string \<Rightarrow> ('w, MountInfo option) io" where
  "GetMountRef os km path =
     bindE (evalSymlinks os path) (\<lambda>path.
     bindE (callE (EvParseMountInfo procMountInfoPath) (km_ParseMountInfo km procMountInfoPath)) (\<lambda>mis.
     returnE (find (\<lambda>mi. mi_MountPoint mi = path) mis)))"

definition GetMountPoint :: "'w os \<Rightarrow> 'w kmount \<Rightarrow> string \<Rightarrow> ('w, MountPoint option) io" where
  "GetMountPoint os km path =
     bindE (evalSymlinks os path) (\<lambda>path.
     bindE (kList km) (\<lambda>mps.
     returnE (find (\<lambda>mp. Path mp = path) mps)))"

definition NewMount :: "'w os \<Rightarrow> 'w kmount \<Rightarrow> 'w Mount" where
  "NewMount os km =
     \<lparr>m_Mount = kMount km, m_Unmount = kUnmount km,
      m_IsLikelyNotMountPoint = kIsLikelyNotMountPoint km,
      m_GetDiskFormat = kGetDiskFormat km, m_FormatAndMount = FormatAndMount os km,
      m_GetMountPoint = GetMountPoint os km, m_GetMountRef = GetMountRef os km\<rparr>"

section \<open>The fake mounter\<close>

text \<open>
  \<open>fakeMount\<close> keeps \<open>deviceFSTypeMap\<close>, the file system type each device was first mounted with;
  the model keeps it in the world's field of that name.  Its mutex makes each method atomic,
  which a call in this sequential semantics is already.
\<close>

definition fakeFormatAndMount ::
    "'w kmount \<Rightarrow> string \<Rightarrow> string \<Rightarrow> string \<Rightarrow> string list \<Rightarrow> ('w, unit) io" where
  "fakeFormatAndMount km source target fsType options w =
     (let (deviceFSType, w') =
        (case map_of (deviceFSTypeMap w) source of
           Some t \<Rightarrow> (t, w)
         | None \<Rightarrow> (fsType, w\<lparr>deviceFSTypeMap := (source, fsType) # deviceFSTypeMap w\<rparr>))
      in if deviceFSType \<noteq> fsType
         then failE (Errorf ''source %v fs type %v != target %v fs type %v''
                [AStr source, AStr deviceFSType, AStr target, AStr fsType]) w'
         else kMount km source target fsType options w')"

definition fakeGetMountPoint :: "'w os \<Rightarrow> 'w kmount \<Rightarrow> string \<Rightarrow> ('w, MountPoint option) io" where
  "fakeGetMountPoint os km path =
     bindE (evalSymlinks os path) (\<lambda>path.
     bindE (kList km) (\<lambda>mps.
     returnE (find (\<lambda>mp. Path mp = path) mps)))"

text \<open>The fields \<open>fakeMount.GetMountRef\<close> does not set keep their zero value.\<close>

definition fakeGetMountRef :: "'w os \<Rightarrow> 'w kmount \<Rightarrow> string \<Rightarrow> ('w, MountInfo option) io" where
  "fakeGetMountRef os km path =
     bindE (fakeGetMountPoint os km path) (\<lambda>mp.
     bindE (derefE mp) (\<lambda>mp.
     returnE (Some \<lparr>mi_Root = [], mi_Source = Device mp, mi_MountPoint = path,
                    mi_FsType = Type mp, mi_MountOptions = Opts mp\<rparr>)))"

definition fakeGetDiskFormat :: "string \<Rightarrow> ('w, string) io" where
  "fakeGetDiskFormat disk w =
     (case map_of (deviceFSTypeMap w) disk of
        None \<Rightarrow> returnE [] w
      | Some diskFSType \<Rightarrow> returnE diskFSType w)"

definition NewFakeMount :: "'w os \<Rightarrow> 'w kmount \<Rightarrow> 'w Mount" where
  "NewFakeMount os km =
     \<lparr>m_Mount = kMount km, m_Unmount = kUnmount km,
      m_IsLikelyNotMountPoint = kIsLikelyNotMountPoint km,
      m_GetDiskFormat = fakeGetDiskFormat, m_FormatAndMount = fakeFormatAndMount km,
      m_GetMountPoint = fakeGetMountPoint os km, m_GetMountRef = fakeGetMountRef os km\<rparr>"

section \<open>Facts\<close>

lemma IsMountReadOnly_iff: "IsMountReadOnly opts \<longleftrightarrow> ''ro'' \<in> set opts"
  by (induction opts) auto

lemma dropRwRo_filter: "dropRwRo opts = filter (\<lambda>opt. opt \<noteq> ''rw'' \<and> opt \<noteq> ''ro'') opts"
  by (induction opts) auto

lemma emits_kMount [emits_rules]: "P (EvMount s t f opts) \<Longrightarrow> emits P (kMount km s t f opts)"
  and emits_kUnmount [emits_rules]: "P (EvUnmount t) \<Longrightarrow> emits P (kUnmount km t)"
  and emits_kIsLikely [emits_rules]:
    "P (EvIsLikelyNotMountPoint p) \<Longrightarrow> emits P (kIsLikelyNotMountPoint km p)"
  and emits_kList [emits_rules]: "P EvMountList \<Longrightarrow> emits P (kList km)"
  and emits_kGetDiskFormat [emits_rules]: "P (EvGetDiskFormat d) \<Longrightarrow> emits P (kGetDiskFormat km d)"
  and emits_evalSymlinks [emits_rules]: "P (EvEvalSymlinks p) \<Longrightarrow> emits P (evalSymlinks os p)"
  unfolding api_defs by (intro emits_rules; assumption)+

lemma emits_fakeFormatAndMount [emits_rules]:
  assumes "P (EvMount s t f opts)"
  shows "emits P (fakeFormatAndMount km s t f opts)"
proof (rule emitsI)
  fix w
  have m: "\<exists>evs. trace (snd (kMount km s t f opts w')) = trace w' @ evs \<and> list_all P evs" for w'
    using emits_kMount [of P s t f opts km, OF assms] by (auto simp: emits_def)
  show "\<exists>evs. trace (snd (fakeFormatAndMount km s t f opts w)) = trace w @ evs \<and> list_all P evs"
    using m [of w] m [of "w\<lparr>deviceFSTypeMap := (s, f) # deviceFSTypeMap w\<rparr>"]
    by (auto simp: fakeFormatAndMount_def failE_def split: option.splits)
qed

lemma emits_formatWithOption [emits_rules]:
  assumes "P (EvGetDiskFormat s)" and "P (EvCommand (''mkfs.'' @ f) (opts @ [s]))"
  shows "emits P (formatWithOption os km s t f opts)"
  unfolding formatWithOption_def by (intro emits_rules assms)

lemma emits_FormatAndMount [emits_rules]:
  assumes "P (EvGetDiskFormat s)"
    and "f = ''xfs'' \<Longrightarrow> P (EvCommand ''mkfs.xfs'' [''-m'', ''reflink=0'', ''-K'', s])"
    and "f = ''ext4'' \<Longrightarrow> P (EvCommand ''mkfs.ext4'' [''-E'', ''nodiscard'', ''-F'', ''-m0'', s])"
    and "f = ''xfs'' \<Longrightarrow> P (EvMount s t f (opts @ [''nouuid'']))" and "f = ''ext4'' \<Longrightarrow> P (EvMount s t f opts)"
    and "f \<noteq> ''xfs'' \<Longrightarrow> f \<noteq> ''ext4'' \<Longrightarrow> P (EvKFormatAndMount s t f opts)"
  shows "emits P (FormatAndMount os km s t f opts)"
proof -
  have xfs: "emits P (FormatAndMount os km s t f opts)" if "f = ''xfs''"
    using that assms(1,2,4) unfolding FormatAndMount_def by (auto intro!: emits_rules)
  have ext4: "emits P (FormatAndMount os km s t f opts)" if "f = ''ext4''"
    using that assms(1,3,5) unfolding FormatAndMount_def by (auto intro!: emits_rules)
  show ?thesis
  proof (cases "f = ''xfs'' \<or> f = ''ext4''")
    case False
    with assms(6) show ?thesis unfolding FormatAndMount_def by (auto intro!: emits_rules)
  qed (use xfs ext4 in blast)
qed

lemma emits_GetMountPoint [emits_rules]:
  "P (EvEvalSymlinks p) \<Longrightarrow> P EvMountList \<Longrightarrow> emits P (GetMountPoint os km p)"
  unfolding GetMountPoint_def by (intro emits_rules)

lemma emits_GetMountRef [emits_rules]:
  "P (EvEvalSymlinks p) \<Longrightarrow> P (EvParseMountInfo procMountInfoPath) \<Longrightarrow> emits P (GetMountRef os km p)"
  unfolding GetMountRef_def by (intro emits_rules)

section \<open>What the node server relies on\<close>

text \<open>
  \<open>lookup_path\<close>: an entry \<open>GetMountPoint\<close> finds is the entry of the resolved path.
  \<open>lookup_reads\<close> and \<open>ref_reads\<close>: the two queries change nothing outside.
\<close>

locale mount_contract =
  fixes os :: "'w os" and M :: "'w Mount"
  assumes lookup_path: "m_GetMountPoint M p w = (Ret (Some mp), w') \<Longrightarrow>
      \<exists>q x. os_EvalSymlinks os p (ext w) = (Inr q, x) \<and> Path mp = q"
    and likely_reads: "emits (\<lambda>ev. \<not> mutates ev) (m_IsLikelyNotMountPoint M p)"
    and lookup_reads: "emits (\<lambda>ev. \<not> mutates ev) (m_GetMountPoint M p)"
    and ref_reads: "emits (\<lambda>ev. \<not> mutates ev) (m_GetMountRef M p)"
    and format_reads: "emits (\<lambda>ev. \<not> mutates ev) (m_GetDiskFormat M d)"

lemma lookup_run:
  assumes "bindE (evalSymlinks os p) (\<lambda>q. bindE (kList km) (\<lambda>mps.
      returnE (find (\<lambda>mp. Path mp = q) mps))) w = (Ret (Some mp), w')"
  shows "\<exists>q x. os_EvalSymlinks os p (ext w) = (Inr q, x) \<and> Path mp = q"
  using assms by (auto simp: api_defs ret_iffs dest: find_Some_set)

interpretation real_mount: mount_contract os "NewMount os km"
  by unfold_locales
    (auto simp: NewMount_def GetMountPoint_def GetMountRef_def mutates_def
      dest: lookup_run intro!: emits_rules)

interpretation fake_mount: mount_contract os "NewFakeMount os km"
proof
  show "emits (\<lambda>ev. \<not> mutates ev) (m_GetDiskFormat (NewFakeMount os km) d)" for d
    by (simp add: NewFakeMount_def fakeGetDiskFormat_def emits_def returnE_def split: option.splits)
qed (auto simp: NewFakeMount_def fakeGetMountPoint_def fakeGetMountRef_def mutates_def
      dest: lookup_run intro!: emits_rules)

section \<open>Properties\<close>

text \<open>
  C21: A disk that has a file system is never formatted: when \<open>GetDiskFormat\<close> finds one,
  \<open>FormatAndMount\<close> of an xfs or ext4 volume is the mount alone, with \<open>nouuid\<close> added for xfs, so a
  file system of another type is handed to \<open>mount\<close> and not overwritten.
\<close>

theorem FormatAndMount_keeps_data:
  assumes "f \<in> {''xfs'', ''ext4''}" and "km_GetDiskFormat km s (ext w) = (Inr fmt, x)" and "fmt \<noteq> []"
  shows "FormatAndMount os km s t f opts w =
    kMount km s t f (if f = ''xfs'' then opts @ [''nouuid''] else opts)
      (w\<lparr>ext := x, trace := trace w @ [EvGetDiskFormat s]\<rparr>)"
  using assms by (auto simp: FormatAndMount_def formatWithOption_def kGetDiskFormat_def go_defs)

theorem FormatAndMount_keeps_data_witness:
  "FormatAndMount demo_os (demo_kmount\<lparr>km_GetDiskFormat := (\<lambda>d x. (Inr ''ext4'', x))\<rparr>) ''/dev/vdb'' ''/m'' ''xfs'' [] demo_world =
   kMount (demo_kmount\<lparr>km_GetDiskFormat := (\<lambda>d x. (Inr ''ext4'', x))\<rparr>) ''/dev/vdb'' ''/m'' ''xfs'' [''nouuid'']
     (demo_world\<lparr>trace := [EvGetDiskFormat ''/dev/vdb'']\<rparr>)"
  using FormatAndMount_keeps_data [of "''xfs''" "demo_kmount\<lparr>km_GetDiskFormat := (\<lambda>d x. (Inr ''ext4'', x))\<rparr>" "''/dev/vdb''"
      demo_world "''ext4''" "ext demo_world" demo_os "''/m''" "[]"]
  by (simp add: demo_world_def)

text \<open>
  A blank disk is formatted before it is mounted: with no file system on it, a successful
  \<open>FormatAndMount\<close> ran exactly one mkfs of the asked type on that disk, with the options the
  driver fixes, and then the mount.
\<close>

lemma FormatAndMount_formats_blank:
  assumes "f \<in> {''xfs'', ''ext4''}" and "km_GetDiskFormat km s (ext w) = (Inr [], x)"
    and "FormatAndMount os km s t f opts w = (Ret (), w')"
  shows "trace w' = trace w @ [EvGetDiskFormat s,
    EvCommand (''mkfs.'' @ f) ((if f = ''xfs'' then [''-m'', ''reflink=0'', ''-K''] else [''-E'', ''nodiscard'', ''-F'', ''-m0'']) @ [s]),
    EvMount s t f (if f = ''xfs'' then opts @ [''nouuid''] else opts)]"
  using assms
  by (auto simp: FormatAndMount_def formatWithOption_def api_defs ret_iffs bindE_def callE_def commandE_def
      returnE_def failE_def split: prod.splits option.splits sum.splits)

lemma FormatAndMount_formats_blank_witness:
  "trace (snd (FormatAndMount demo_os demo_kmount ''/dev/vdb'' ''/m'' ''ext4'' [] demo_world)) =
   [EvGetDiskFormat ''/dev/vdb'', EvCommand ''mkfs.ext4'' [''-E'', ''nodiscard'', ''-F'', ''-m0'', ''/dev/vdb''],
    EvMount ''/dev/vdb'' ''/m'' ''ext4'' []]"
proof -
  have "fst (FormatAndMount demo_os demo_kmount ''/dev/vdb'' ''/m'' ''ext4'' [] demo_world) = Ret ()"
    by (simp add: FormatAndMount_def formatWithOption_def api_defs go_defs)
  then obtain w' where run: "FormatAndMount demo_os demo_kmount ''/dev/vdb'' ''/m'' ''ext4'' [] demo_world = (Ret (), w')"
    by (metis prod.collapse)
  from FormatAndMount_formats_blank [OF _ _ run, of "ext demo_world"] show ?thesis
    by (simp add: run) (simp add: demo_world_def)
qed

text \<open>
  \<open>MakeReadOnlyMountOpts\<close> keeps the other options in their order, drops every \<open>rw\<close> and \<open>ro\<close>,
  and ends with exactly one \<open>ro\<close>.
\<close>

lemma MakeReadOnlyMountOpts_spec:
  "MakeReadOnlyMountOpts opts = filter (\<lambda>opt. opt \<noteq> ''rw'' \<and> opt \<noteq> ''ro'') opts @ [''ro''] \<and>
   IsMountReadOnly (MakeReadOnlyMountOpts opts) \<and> ''rw'' \<notin> set (MakeReadOnlyMountOpts opts) \<and>
   MakeReadOnlyMountOpts (MakeReadOnlyMountOpts opts) = MakeReadOnlyMountOpts opts"
  by (simp add: MakeReadOnlyMountOpts_def dropRwRo_filter IsMountReadOnly_iff)

end
