(* ===== verification/Resizer.thy ===== *)
theory Resizer
  imports Retry Strconv Demo_Services
begin

text \<open>
  \<open>pkg/utils/resizer.go\<close>: growing a block device and its file system.  \<open>fmt.Sscanf\<close> with the
  verb \<open>%v\<close> and a \<open>uint64\<close> is modelled as the standard library computes it: leading blanks but
  no newline, an optional base prefix, digits with underscores, then \<open>strconv.ParseUint\<close> with
  base 0.  The locale \<open>resizer_contract\<close> is the \<open>Resizer\<close> interface as the node server uses it.
\<close>

section \<open>fmt.Sscanf("\%v") for uint64\<close>

text \<open>\<open>SkipSpace\<close> when a newline is not a space: \<open>None\<close> is the error ``unexpected newline''.\<close>

fun SkipSpace :: "unicode \<Rightarrow> string \<Rightarrow> string option" where
  "SkipSpace u [] = Some []"
| "SkipSpace u (c # cs) =
     (if of_char c = (13 :: nat) \<and> cs \<noteq> [] \<and> of_char (hd cs) = (10 :: nat) then SkipSpace u cs
      else if of_char c = (10 :: nat) then None
      else if of_char c \<ge> (128 :: nat) then
        (let n = u_SpaceLen u (c # cs) in if n = 0 then Some (c # cs) else SkipSpace u (drop (n - 1) cs))
      else if asciiSpace c then SkipSpace u cs
      else Some (c # cs))"

definition hexval :: "char \<Rightarrow> nat option" where
  "hexval c =
     (let n = (of_char c :: nat) in
      if 48 \<le> n \<and> n \<le> 57 then Some (n - 48)
      else if 97 \<le> n \<and> n \<le> 122 then Some (n - 87)
      else if 65 \<le> n \<and> n \<le> 90 then Some (n - 55)
      else None)"

definition in_base :: "nat \<Rightarrow> char \<Rightarrow> bool" where
  \<comment> \<open>the digits \<open>accept\<close> takes for a base, the underscore included\<close>
  "in_base b c = (c = CHR ''_'' \<or> (case hexval c of None \<Rightarrow> False | Some d \<Rightarrow> d < b))"

definition is_prefix_char :: "char \<Rightarrow> nat option" where
  "is_prefix_char c =
     (if c = CHR ''b'' \<or> c = CHR ''B'' then Some 2
      else if c = CHR ''o'' \<or> c = CHR ''O'' then Some 8
      else if c = CHR ''x'' \<or> c = CHR ''X'' then Some 16
      else None)"

text \<open>\<open>scanBasePrefix\<close> and \<open>scanNumber\<close>: the token, \<open>None\<close> for ``expected integer''.\<close>

definition scan_token :: "string \<Rightarrow> string option" where
  "scan_token s =
     (case s of
        [] \<Rightarrow> None
      | c # cs \<Rightarrow>
          if c = CHR ''0'' then
            (case cs of
               [] \<Rightarrow> Some [c]
             | d # ds \<Rightarrow>
                 (case is_prefix_char d of
                    Some b \<Rightarrow> Some (c # d # takeWhile (in_base b) ds)
                  | None \<Rightarrow> Some (c # takeWhile (in_base 8) cs)))
          else if in_base 10 c then Some (c # takeWhile (in_base 10) cs)
          else None)"

text \<open>\<open>ParseUint\<close> with base 0: the digit loop skips underscores and then checks their places.\<close>

fun digits_base :: "nat \<Rightarrow> nat \<Rightarrow> string \<Rightarrow> num_error + nat" where
  "digits_base b n [] = Inr n"
| "digits_base b n (c # cs) =
     (if c = CHR ''_'' then digits_base b n cs
      else case hexval c of
        None \<Rightarrow> Inl ErrSyntax
      | Some d \<Rightarrow>
          if b \<le> d then Inl ErrSyntax
          else if b * n + d \<ge> 2 ^ 64 then Inl ErrRange
          else digits_base b (b * n + d) cs)"

text \<open>\<open>underscoreOK\<close>: \<open>seen\<close> is \<open>Some True\<close> after a digit or a prefix, \<open>Some False\<close> after an
  underscore, \<open>None\<close> at the start or after another character.\<close>

fun underscores :: "bool \<Rightarrow> bool option \<Rightarrow> string \<Rightarrow> bool" where
  "underscores hex seen [] = (seen \<noteq> Some False)"
| "underscores hex seen (c # cs) =
     (if (case hexval c of None \<Rightarrow> False | Some d \<Rightarrow> d < 10 \<or> (hex \<and> d < 16))
      then underscores hex (Some True) cs
      else if c = CHR ''_'' then (if seen \<noteq> Some True then False else underscores hex (Some False) cs)
      else if seen = Some False then False
      else underscores hex None cs)"

definition underscoreOK :: "string \<Rightarrow> bool" where
  "underscoreOK s =
     (case s of
        c # d # ds \<Rightarrow>
          if c = CHR ''0'' \<and> is_prefix_char d \<noteq> None
          then underscores (is_prefix_char d = Some 16) (Some True) ds
          else underscores False None s
      | _ \<Rightarrow> underscores False None s)"

definition ParseUint0 :: "string \<Rightarrow> num_error + nat" where
  "ParseUint0 s =
     (if s = [] then Inl ErrSyntax
      else let (b, ds) =
             (if hd s \<noteq> CHR ''0'' then (10, s)
              else if length s \<ge> 3 \<and> is_prefix_char (s ! 1) \<noteq> None
              then (the (is_prefix_char (s ! 1)), drop 2 s)
              else (8, tl s))
           in case digits_base b 0 ds of
                Inl e \<Rightarrow> Inl e
              | Inr n \<Rightarrow> if CHR ''_'' \<in> set ds \<and> \<not> underscoreOK s then Inl ErrSyntax else Inr n)"

definition Sscanf_uint64 :: "unicode \<Rightarrow> string \<Rightarrow> nat option" where
  "Sscanf_uint64 u s =
     (case SkipSpace u s of
        None \<Rightarrow> None
      | Some s' \<Rightarrow>
          (case scan_token s' of
             None \<Rightarrow> None
           | Some tok \<Rightarrow> (case ParseUint0 tok of Inl _ \<Rightarrow> None | Inr n \<Rightarrow> Some n)))"

section \<open>The resizer\<close>

record 'w Resizer =
  ResizeBlock :: "string \<Rightarrow> uint64 \<Rightarrow> ('w, unit) io"
  ResizeFS :: "string \<Rightarrow> string \<Rightarrow> ('w, unit) io"

definition resizeCmd :: "string \<rightharpoonup> string" where
  "resizeCmd = [''ext2'' \<mapsto> ''resize2fs'', ''ext3'' \<mapsto> ''resize2fs'', ''ext4'' \<mapsto> ''resize2fs'',
                ''xfs'' \<mapsto> ''xfs_growfs'']"

definition retryLimit :: int where "retryLimit = 15"

definition lsblkSizeCmd :: "string \<Rightarrow> string" where
  "lsblkSizeCmd device = ''lsblk -b --output SIZE -n -d '' @ device"

definition getDeviceSize :: "'w os \<Rightarrow> string \<Rightarrow> ('w, uint64) io" where
  "getDeviceSize os device =
     bindE (shE os (lsblkSizeCmd device)) (\<lambda>(output, err).
     case err of
       Some e \<Rightarrow> failE (Errorf ''lsblk, cmd: %v, output: %v, error: %v''
                   [AStr (lsblkSizeCmd device), AStr output, AErr e])
     | None \<Rightarrow>
         (case Sscanf_uint64 (os_unicode os) output of
            None \<Rightarrow> failE (Errorf ''get device %v, %v'' [AStr device, AStr output])
          | Some sz \<Rightarrow> returnE (of_nat sz)))"

definition rescanCmd :: "string \<Rightarrow> string" where
  "rescanCmd device =
     ''echo '' @ [CHR 0x22] @ ''1'' @ [CHR 0x22] @ '' > /sys/class/block/'' @ Base device @ ''/device/rescan''"

definition rescan :: "'w os \<Rightarrow> string \<Rightarrow> ('w, unit) io" where
  "rescan os device =
     bindE (shE os (rescanCmd device)) (\<lambda>(output, err).
     case err of
       Some e \<Rightarrow> failE (Errorf ''rescan, cmd: %v, output: %v, error: %v''
                   [AStr (rescanCmd device), AStr output, AErr e])
     | None \<Rightarrow> returnE ())"

definition resizeAttempt :: "'w os \<Rightarrow> string \<Rightarrow> uint64 \<Rightarrow> ('w, unit) io" where
  "resizeAttempt os device sz =
     bindE (rescan os device) (\<lambda>_.
     bindE (getDeviceSize os device) (\<lambda>actualSize.
     if sz \<le> actualSize then returnE ()
     else failE (Errorf ''wait device %v size change'' [AStr device])))"

definition resizer_ResizeBlock :: "'w os \<Rightarrow> string \<Rightarrow> uint64 \<Rightarrow> ('w, unit) io" where
  "resizer_ResizeBlock os device sz = Retry os (resizeAttempt os device sz) retryLimit (1 * Second)"

definition resizer_ResizeFS :: "'w os \<Rightarrow> string \<Rightarrow> string \<Rightarrow> ('w, unit) io" where
  "resizer_ResizeFS os device fs =
     (case resizeCmd fs of
        None \<Rightarrow> failE (Errorf ''not support resize for %v'' [AStr fs])
      | Some cmd \<Rightarrow>
          bindE (shE os (cmd @ '' '' @ device)) (\<lambda>(output, err).
          case err of
            Some e \<Rightarrow> failE (Errorf ''resize fs, cmd: %v, output: %v, error: %v''
                        [AStr (cmd @ '' '' @ device), AStr output, AErr e])
          | None \<Rightarrow> returnE ()))"

definition NewResizer :: "'w os \<Rightarrow> 'w Resizer" where
  "NewResizer os = \<lparr>ResizeBlock = resizer_ResizeBlock os, ResizeFS = resizer_ResizeFS os\<rparr>"

definition NewFakeResizer :: "'w Resizer" where
  "NewFakeResizer = \<lparr>ResizeBlock = (\<lambda>device sz. returnE ()), ResizeFS = (\<lambda>device fs. returnE ())\<rparr>"

section \<open>Reading sizes\<close>

lemma hexval_digit: "digit_val c = Some d \<Longrightarrow> hexval c = Some d \<and> c \<noteq> CHR ''_''"
  by (auto simp: digit_val_def hexval_def Let_def split: if_splits)

lemma digits_base_parse_digits:
  "list_all (\<lambda>c. digit_val c \<noteq> None) s \<Longrightarrow> digits_base 10 n s = parse_digits n s"
proof (induction s arbitrary: n)
  case (Cons c cs)
  then obtain d where d: "digit_val c = Some d" by auto
  then have "d < 10" by (auto simp: digit_val_def Let_def split: if_splits)
  with Cons d hexval_digit [OF d] show ?case by simp
qed simp

lemma utoa_digit_val: "list_all (\<lambda>c. digit_val c \<noteq> None) (utoa n)"
  by (auto simp: list_all_iff digit_val_def Let_def dest: utoa_digits)

lemma digit_in_base: "digit_val c \<noteq> None \<Longrightarrow> in_base 10 c"
  by (auto simp: in_base_def digit_val_def hexval_def Let_def split: if_splits)

text \<open>What \<open>lsblk -b\<close> prints for \<open>n\<close> bytes, followed by its newline, is read back as \<open>n\<close>.\<close>

lemma ParseUint0_utoa:
  assumes "n < 2 ^ 64"
  shows "ParseUint0 (utoa n) = Inr n"
proof (cases "n = 0")
  case True
  have "utoa 0 = ''0''" by code_simp
  with True show ?thesis by (simp add: ParseUint0_def)
next
  case False
  obtain c cs where c: "utoa n = c # cs" by (cases "utoa n") auto
  have all: "list_all (\<lambda>c. digit_val c \<noteq> None) (utoa n)" by (rule utoa_digit_val)
  have "c \<noteq> CHR ''0''" using utoa_no_leading_zero [of n] False c by simp
  moreover have "CHR ''_'' \<notin> set (utoa n)" using all by (auto simp: list_all_iff digit_val_def)
  moreover have "digits_base 10 0 (utoa n) = Inr n"
    using digits_base_parse_digits [OF all] parse_digits_utoa [OF assms] by simp
  ultimately show ?thesis by (simp add: ParseUint0_def c [symmetric]) (simp add: c)
qed

lemma Sscanf_utoa:
  assumes "0 < n" and "n < 2 ^ 64" and "rest = [] \<or> \<not> in_base 10 (hd rest)"
  shows "Sscanf_uint64 u (utoa n @ rest) = Some n"
proof -
  obtain c cs where c: "utoa n = c # cs" by (cases "utoa n") auto
  have all: "list_all (\<lambda>c. digit_val c \<noteq> None) (utoa n)" by (rule utoa_digit_val)
  then have base: "list_all (in_base 10) (c # cs)" by (auto simp: c list_all_iff digit_in_base)
  have c0: "c \<noteq> CHR ''0''" using utoa_no_leading_zero [OF assms(1)] c by simp
  have digit: "48 \<le> (of_char c :: nat) \<and> (of_char c :: nat) \<le> 57" using utoa_digits [of c n] c by simp
  have skip: "SkipSpace u (c # cs @ rest) = Some (c # cs @ rest)"
    using digit by (auto simp: asciiSpace_def)
  have "takeWhile (in_base 10) (cs @ rest) = cs"
    using base assms(3) by (cases rest) (auto simp: list_all_iff takeWhile_append)
  with base c0 have token: "scan_token (c # cs @ rest) = Some (c # cs)" by (simp add: scan_token_def)
  have "ParseUint0 (c # cs) = Inr n" using ParseUint0_utoa [OF assms(2)] c by simp
  with skip token show ?thesis by (simp add: Sscanf_uint64_def c)
qed

section \<open>The contract\<close>

text \<open>
  \<open>grown\<close>: the size a successful \<open>ResizeBlock\<close> waited for has been observed.  \<open>commands_only\<close>:
  resizing runs shell commands and pauses, nothing else.
\<close>

definition shell_event :: "event \<Rightarrow> bool" where
  "shell_event ev = (case ev of EvSh _ \<Rightarrow> True | EvSleep _ \<Rightarrow> True | _ \<Rightarrow> False)"

locale resizer_contract =
  fixes R :: "'w Resizer" and observed :: "string \<Rightarrow> uint64 \<Rightarrow> 'w world \<Rightarrow> bool"
  assumes grown: "ResizeBlock R d sz w = (Ret (), w') \<Longrightarrow> observed d sz w'"
    and block_commands: "emits shell_event (ResizeBlock R d sz)"
    and fs_commands: "emits shell_event (ResizeFS R d fs)"
begin

lemma resize_both_commands:
  "emits shell_event (bindE (ResizeBlock R d sz) (\<lambda>_. ResizeFS R d fs))"
  by (intro emits_rules block_commands fs_commands)

end

text \<open>The world right after \<open>lsblk\<close> reported at least \<open>sz\<close> bytes for the device.\<close>

definition size_observed :: "'w os \<Rightarrow> string \<Rightarrow> uint64 \<Rightarrow> 'w world \<Rightarrow> bool" where
  "size_observed os device sz w \<longleftrightarrow>
     (\<exists>x output n. os_sh os (lsblkSizeCmd device) x = ((output, None), ext w) \<and>
        Sscanf_uint64 (os_unicode os) output = Some n \<and> sz \<le> of_nat n)"

lemma getDeviceSize_Ret:
  assumes "getDeviceSize os device w = (Ret s, w')"
  obtains out n where "os_sh os (lsblkSizeCmd device) (ext w) = ((out, None), ext w')"
    "Sscanf_uint64 (os_unicode os) out = Some n" "s = of_nat n"
  using assms by (auto simp: getDeviceSize_def shE_def ret_iffs split: prod.splits option.splits)

lemma resizeAttempt_observed:
  assumes "resizeAttempt os device sz w = (Ret (), w')"
  shows "size_observed os device sz w'"
proof -
  from assms obtain w1 s where s: "getDeviceSize os device w1 = (Ret s, w')" "sz \<le> s"
    by (auto simp: resizeAttempt_def ret_iffs split: if_splits)
  from getDeviceSize_Ret [OF s(1)] obtain out n where
    "os_sh os (lsblkSizeCmd device) (ext w1) = ((out, None), ext w')"
    "Sscanf_uint64 (os_unicode os) out = Some n" "s = of_nat n" .
  with s(2) show ?thesis unfolding size_observed_def by blast
qed

interpretation resize_poll: retriable os "resizeAttempt os device sz" "\<lambda>_. True" "size_observed os device sz"
  by unfold_locales (auto dest: resizeAttempt_observed)

lemma emits_resizeAttempt: "emits shell_event (resizeAttempt os device sz)"
  unfolding resizeAttempt_def rescan_def getDeviceSize_def
  by (auto intro!: emits_rules simp: shell_event_def)

interpretation real_resizer: resizer_contract "NewResizer os" "size_observed os"
proof
  fix d sz w w'
  assume "ResizeBlock (NewResizer os) d sz w = (Ret (), w')"
  then show "size_observed os d sz w'"
    by (intro resize_poll.retry_establishes [where w = w and limit = retryLimit and d = "1 * Second"])
       (simp_all add: NewResizer_def resizer_ResizeBlock_def retryLimit_def)
next
  show "emits shell_event (ResizeBlock (NewResizer os) d sz)" for d sz
    by (auto simp: NewResizer_def resizer_ResizeBlock_def shell_event_def
        intro!: emits_Retry emits_resizeAttempt)
next
  show "emits shell_event (ResizeFS (NewResizer os) d fs)" for d fs
    by (auto simp: NewResizer_def resizer_ResizeFS_def shell_event_def intro!: emits_rules split: option.splits)
qed

interpretation fake_resizer: resizer_contract NewFakeResizer "\<lambda>_ _ _. True"
  by unfold_locales (auto simp: NewFakeResizer_def intro!: emits_rules)

section \<open>Properties\<close>

lemma yields_resizeAttempt: "yields (\<lambda>_. True) (resizeAttempt os device sz)"
proof -
  have sh: "yields (\<lambda>_. True) (shE os cmd)" for cmd by (auto simp: yields_def shE_def split: prod.splits)
  show ?thesis unfolding resizeAttempt_def rescan_def getDeviceSize_def bindE_assoc
    by (auto intro!: yields_bindE [OF sh] yields_rules yields_bindE [of "\<lambda>_. True"] split: option.splits)
qed

text \<open>
  \<open>ResizeBlock\<close> always ends, after at most 15 attempts: it returns nil in the first attempt
  after which \<open>lsblk\<close> shows the asked size, and otherwise the error of the fifteenth attempt.
\<close>

lemma ResizeBlock_outcome:
  "(\<exists>k w1 w2 es. k < 15 \<and> attempts os (resizeAttempt os device sz) Second k w w1 es \<and>
      resizer_ResizeBlock os device sz w = (Ret (), w2) \<and> resizeAttempt os device sz w1 = (Ret (), w2) \<and>
      size_observed os device sz w2) \<or>
   (\<exists>w1 es. attempts os (resizeAttempt os device sz) Second 15 w w1 es \<and> length es = 15 \<and>
      resizer_ResizeBlock os device sz w = (Fail (last es), w1))"
proof -
  let ?fn = "resizeAttempt os device sz"
  have eq: "resizer_ResizeBlock os device sz w = RetryLoop os ?fn 15 Second None w"
    by (simp add: resizer_ResizeBlock_def Retry_def retryLimit_def)
  have "fst (RetryLoop os ?fn 15 Second None w) \<notin> {Panic, Diverge}"
    by (rule yields_orderly [OF yields_RetryLoop [OF yields_resizeAttempt]])
  with RetryLoop_outcome [of os ?fn 15 Second None w, unfolded retried_def] consider
    (ok) k w1 w2 es where "k < 15" "attempts os ?fn Second k w w1 es" "?fn w1 = (Ret (), w2)"
      "resizer_ResizeBlock os device sz w = (Ret (), w2)"
    | (out) w1 es where "attempts os ?fn Second 15 w w1 es"
      "resizer_ResizeBlock os device sz w =
         (case (if es = [] then None else Some (last es)) of None \<Rightarrow> Ret () | Some e \<Rightarrow> Fail e, w1)"
    unfolding eq by auto
  then show ?thesis
  proof cases
    case ok
    with resizeAttempt_observed [OF ok(3)] show ?thesis by blast
  next
    case out
    from attempts_length [OF out(1)] have "length es = 15" "es \<noteq> []" by auto
    with out show ?thesis by auto
  qed
qed

text \<open>
  \<open>getDeviceSize\<close> reads back the size \<open>lsblk -b\<close> prints: decimal digits, then the newline.
\<close>

lemma getDeviceSize_reads:
  assumes "0 < n" and "n < 2 ^ 64"
    and "os_sh os (lsblkSizeCmd device) (ext w) = ((utoa n @ [CHR 0x0A], None), x)"
  shows "getDeviceSize os device w = (Ret (of_nat n), w\<lparr>ext := x, trace := trace w @ [EvSh (lsblkSizeCmd device)]\<rparr>)"
proof -
  have "\<not> in_base 10 (CHR 0x0A)" by code_simp
  then have "Sscanf_uint64 (os_unicode os) (utoa n @ [CHR 0x0A]) = Some n" by (intro Sscanf_utoa assms) simp
  with assms(3) show ?thesis by (simp add: getDeviceSize_def shE_def bindE_def returnE_def)
qed

lemma getDeviceSize_reads_witness:
  "fst (getDeviceSize (demo_os\<lparr>os_sh := (\<lambda>cmd x. ((utoa 7 @ [CHR 0x0A], None), x))\<rparr>) ''/dev/vdb'' demo_world) = Ret 7"
  using getDeviceSize_reads [of 7 "demo_os\<lparr>os_sh := (\<lambda>cmd x. ((utoa 7 @ [CHR 0x0A], None), x))\<rparr>" "''/dev/vdb''"
      demo_world "ext demo_world"] by simp

end
