(* ===== verification/Driver_Config.thy ===== *)
theory Driver_Config
  imports Node_Map Mount_Utils Resizer
begin

text \<open>
  \<open>DriverConfig\<close> of \<open>pkg/driver/driver.go\<close> and the calls of the CloudTower client, each of which
  appends its request to the trace.  The Kubernetes and snapshot clients of the Go struct are
  not used by the driver's code and are left out.
\<close>

record 'w DriverConfig =
  DriverName :: string
  Version :: string
  Role :: string
  ClusterID :: string
  NodeID :: string
  ServerAddr :: string
  cfg_LivenessPort :: int
  cfg_NodeMap :: "'w nodeMap"
  cfg_Mount :: "'w Mount"
  cfg_Resizer :: "'w Resizer"
  TowerClient :: "'w towerclient"

definition GetVMVolumes :: "'w DriverConfig \<Rightarrow> VMVolumeWhereInput \<Rightarrow> ('w, VMVolume option list) io" where
  [api_defs]: "GetVMVolumes c q = callE (EvGetVMVolumes q) (tc_GetVMVolumes (TowerClient c) q)"

definition CreateVMVolume ::
    "'w DriverConfig \<Rightarrow> VMVolumeCreationParams \<Rightarrow> ('w, WithTaskVMVolume option list) io" where
  [api_defs]: "CreateVMVolume c p = callE (EvCreateVMVolume p) (tc_CreateVMVolume (TowerClient c) p)"

definition DeleteVMVolumeFromVM :: "'w DriverConfig \<Rightarrow> string \<Rightarrow> ('w, WithTask option list) io" where
  [api_defs]: "DeleteVMVolumeFromVM c i = callE (EvDeleteVMVolume i) (tc_DeleteVMVolumeFromVM (TowerClient c) i)"

definition GetClusters :: "'w DriverConfig \<Rightarrow> string \<Rightarrow> ('w, Cluster option list) io" where
  [api_defs]: "GetClusters c l = callE (EvGetClusters l) (tc_GetClusters (TowerClient c) l)"

definition GetVms :: "'w DriverConfig \<Rightarrow> string \<Rightarrow> ('w, VM option list) io" where
  [api_defs]: "GetVms c n = callE (EvGetVms n) (tc_GetVms (TowerClient c) n)"

definition AddVMDisk ::
    "'w DriverConfig \<Rightarrow> string \<Rightarrow> MountDisksParams \<Rightarrow> ('w, WithTask option list) io" where
  [api_defs]: "AddVMDisk c n p = callE (EvAddVMDisk n p) (tc_AddVMDisk (TowerClient c) n p)"

definition RemoveVMDisk ::
    "'w DriverConfig \<Rightarrow> string \<Rightarrow> string list \<Rightarrow> ('w, WithTask option list) io" where
  [api_defs]: "RemoveVMDisk c n ids = callE (EvRemoveVMDisk n ids) (tc_RemoveVMDisk (TowerClient c) n ids)"

definition GetVMDisks :: "'w DriverConfig \<Rightarrow> string \<Rightarrow> string \<Rightarrow> ('w, VMDisk option list) io" where
  [api_defs]: "GetVMDisks c n v = callE (EvGetVMDisks n v) (tc_GetVMDisks (TowerClient c) n v)"

definition GetTasks :: "'w DriverConfig \<Rightarrow> string \<Rightarrow> ('w, Task option list) io" where
  [api_defs]: "GetTasks c i = callE (EvGetTasks i) (tc_GetTasks (TowerClient c) i)"

definition GetLabels :: "'w DriverConfig \<Rightarrow> string \<Rightarrow> string \<Rightarrow> ('w, Label option list) io" where
  [api_defs]: "GetLabels c k v = callE (EvGetLabels k v) (tc_GetLabels (TowerClient c) k v)"

definition CreateLabel :: "'w DriverConfig \<Rightarrow> string \<Rightarrow> string \<Rightarrow> ('w, WithTaskLabel option list) io" where
  [api_defs]: "CreateLabel c k v = callE (EvCreateLabel k v) (tc_CreateLabel (TowerClient c) k v)"

definition AddLabelsToResources ::
    "'w DriverConfig \<Rightarrow> string list \<Rightarrow> string \<Rightarrow> ('w, WithTask option list) io" where
  [api_defs]: "AddLabelsToResources c ls v =
     callE (EvAddLabels ls v) (tc_AddLabelsToResources (TowerClient c) ls v)"

lemma emits_tower [emits_rules]:
  "P (EvGetVMVolumes q) \<Longrightarrow> emits P (GetVMVolumes c q)"
  "P (EvCreateVMVolume p) \<Longrightarrow> emits P (CreateVMVolume c p)"
  "P (EvDeleteVMVolume i) \<Longrightarrow> emits P (DeleteVMVolumeFromVM c i)"
  "P (EvGetClusters l) \<Longrightarrow> emits P (GetClusters c l)"
  "P (EvGetVms n) \<Longrightarrow> emits P (GetVms c n)"
  "P (EvAddVMDisk n md) \<Longrightarrow> emits P (AddVMDisk c n md)"
  "P (EvRemoveVMDisk n ids) \<Longrightarrow> emits P (RemoveVMDisk c n ids)"
  "P (EvGetVMDisks n v) \<Longrightarrow> emits P (GetVMDisks c n v)"
  "P (EvGetTasks i) \<Longrightarrow> emits P (GetTasks c i)"
  "P (EvGetLabels k v) \<Longrightarrow> emits P (GetLabels c k v)"
  "P (EvCreateLabel k v) \<Longrightarrow> emits P (CreateLabel c k v)"
  "P (EvAddLabels ls v) \<Longrightarrow> emits P (AddLabelsToResources c ls v)"
  unfolding api_defs by (rule emits_callE, assumption)+

text \<open>A configuration over the example services.\<close>

definition demo_config :: "demo DriverConfig" where
  "demo_config =
     \<lparr>DriverName = ''com.smartx.elf-csi-driver'', Version = ''v1'', Role = ''all'', ClusterID = ''k8s'', NodeID = ''node-1'',
      ServerAddr = ''unix:///csi.sock'', cfg_LivenessPort = 10103,
      cfg_NodeMap = NewNodeMap ''nodes'' demo_configmaps,
      cfg_Mount = NewMount demo_os demo_kmount, cfg_Resizer = NewResizer demo_os, TowerClient = demo_tower\<rparr>"

lemma demo_config_simps [simp]:
  "ClusterID demo_config = ''k8s''" "NodeID demo_config = ''node-1''" "cfg_LivenessPort demo_config = 10103"
  "cfg_NodeMap demo_config = NewNodeMap ''nodes'' demo_configmaps"
  "cfg_Mount demo_config = NewMount demo_os demo_kmount" "cfg_Resizer demo_config = NewResizer demo_os"
  "TowerClient demo_config = demo_tower"
  by (simp_all add: demo_config_def)

end
