(* ===== verification/Rpc_Handler.thy ===== *)
theory Rpc_Handler
  imports Go_Logic
begin

text \<open>
  The contract of an RPC method of the driver: a request its guards reject is answered with
  one of the method's status codes before any call is made, and any other request gets to the
  method's first call.  The lemmas hold for every method; the components interpret the locales
  on their handlers.
\<close>

locale rpc_handler =
  fixes handler :: "'req \<Rightarrow> ('w, 'resp) io" and invalid :: "'req \<Rightarrow> bool" and codes :: "code set"
  assumes rejects: "invalid req \<Longrightarrow> \<exists>k msg args. handler req w = (Fail (StatusErr k msg args), w) \<and> k \<in> codes"
begin

lemma rejected_unchanged: "invalid req \<Longrightarrow> snd (handler req w) = w"
  using rejects [of req w] by auto

text \<open>
  A client sends requests one after the other: the invalid ones may be dropped from the
  sequence, the world ends the same.
\<close>

lemma fold_drops_invalid:
  "fold (\<lambda>req w. snd (handler req w)) reqs w =
   fold (\<lambda>req w. snd (handler req w)) (filter (\<lambda>req. \<not> invalid req) reqs) w"
  by (induction reqs arbitrary: w) (simp_all add: rejected_unchanged)

end

locale rpc_guards = rpc_handler handler invalid codes
  for handler :: "'req \<Rightarrow> ('w, 'resp) io" and invalid :: "'req \<Rightarrow> bool" and codes :: "code set" +
  fixes first :: "'req \<Rightarrow> event"
  assumes asks: "\<not> invalid req \<Longrightarrow> starts (first req) (handler req)"
begin

lemma guards_exact:
  "if invalid req then \<exists>k msg args. handler req w = (Fail (StatusErr k msg args), w) \<and> k \<in> codes
   else \<exists>evs. trace (snd (handler req w)) = trace w @ first req # evs"
  using rejects [of req w] asks [of req] by (simp add: starts_def)

text \<open>The methods with one status code for all their guards.\<close>

lemma guards_code:
  assumes "codes = {k}"
  shows "if invalid req then \<exists>msg args. handler req w = (Fail (StatusErr k msg args), w)
    else \<exists>evs. trace (snd (handler req w)) = trace w @ first req # evs"
  using guards_exact [of req w] assms by (simp split: if_splits)

end

end
