(* ===== verification/Node_Server.thy ===== *)
theory Node_Server
  imports Driver_Config Rpc_Handler
begin

text \<open>
  \<open>pkg/driver/node.go\<close>: the node service, which finds the block device of an attached volume,
  mounts and unmounts it, grows it, and registers the node.  \<open>os\<close> is the operating system,
  \<open>c\<close> the server's configuration; the mounter and the resizer are those of the configuration.
\<close>

section \<open>Registration\<close>

text \<open>The entry \<open>registerNodeEntry\<close> writes: it leaves \<open>NodeName\<close> empty.\<close>

definition registeredEntry :: "'w DriverConfig \<Rightarrow> string \<Rightarrow> NodeEntry" where
  "registeredEntry c nodeIP = \<lparr>NodeName = [], NodeIP = nodeIP, LivenessPort = cfg_LivenessPort c\<rparr>"

definition registerNodeEntry :: "'w os \<Rightarrow> 'w DriverConfig \<Rightarrow> ('w, unit) io" where
  "registerNodeEntry os c =
     bindE (getNodeIP os) (\<lambda>nodeIP.
     Retry os (Put (cfg_NodeMap c) (NodeID c) (registeredEntry c nodeIP)) 5 (Millisecond * 500))"

section \<open>Mounting\<close>

definition detectBlockVolumeConflict :: "'w DriverConfig \<Rightarrow> string \<Rightarrow> string \<Rightarrow> ('w, unit) io" where
  "detectBlockVolumeConflict c device path =
     bindE (wrapE (\<lambda>err. StatusErr Internal ''failed to get %v mount ref, %v'' [AStr path, AErr err])
             (m_GetMountRef (cfg_Mount c) path)) (\<lambda>mountInfo.
     bindE (derefE mountInfo) (\<lambda>mi.
     if Base (mi_Root mi) \<noteq> Base device
     then failE (StatusErr AlreadyExists ''%v source device %v alreadyExists not %v''
            [AStr path, AStr (mi_Root mi), AStr device])
     else returnE ()))"

definition mountBlockVolume :: "'w os \<Rightarrow> 'w DriverConfig \<Rightarrow> string \<Rightarrow> string \<Rightarrow> bool \<Rightarrow> ('w, unit) io" where
  "mountBlockVolume os c device path readonly =
     bindE (createFile os path) (\<lambda>_.
     bindE (wrapE (\<lambda>err. StatusErr Internal ''failed to check mount point %v, %v'' [AStr path, AErr err])
             (m_IsLikelyNotMountPoint (cfg_Mount c) path)) (\<lambda>isNotMountPoint.
     if \<not> isNotMountPoint then detectBlockVolumeConflict c device path
     else
       (let mountOpts = (if readonly then [''bind''] @ [''ro''] else [''bind'']) in
        wrapE (\<lambda>err. StatusErr Internal ''failed to bind %v to %v, %v'' [AStr device, AStr path, AErr err])
          (m_Mount (cfg_Mount c) device path [] mountOpts))))"

text \<open>\<open>volume.MountFlags\<close> dereferences the volume, the getters do not.\<close>

definition detectMountVolumeConflict ::
    "'w DriverConfig \<Rightarrow> string \<Rightarrow> string \<Rightarrow> MountVolume option \<Rightarrow> ('w, unit) io" where
  "detectMountVolumeConflict c device path volume =
     bindE (derefE volume) (\<lambda>v.
     let mountFlags = MountFlags v;
         fsType = (if length (GetFsType volume) = 0 then defaultFS else GetFsType volume) in
     bindE (wrapE (\<lambda>err. StatusErr Internal ''failed to get %v mount point, %v'' [AStr path, AErr err])
             (m_GetMountPoint (cfg_Mount c) path)) (\<lambda>mountPoint.
     bindE (derefE mountPoint) (\<lambda>mp.
     if Device mp \<noteq> device
     then failE (StatusErr AlreadyExists ''%v source device %v alreadyExists not %v''
            [AStr path, AStr (Device mp), AStr device])
     else if Type mp \<noteq> fsType
     then failE (StatusErr AlreadyExists ''path %v fsType is %v not %v '' [AStr path, AStr (Type mp), AStr fsType])
     else if \<not> checkMountFlags (Opts mp) mountFlags
     then failE (StatusErr AlreadyExists ''%v actual mount flags %v is not compatible with %v''
            [AStr path, AStrs (Opts mp), AStrs mountFlags])
     else returnE ())))"

definition bindMountVolume ::
    "'w os \<Rightarrow> 'w DriverConfig \<Rightarrow> string \<Rightarrow> string \<Rightarrow> MountVolume option \<Rightarrow> bool \<Rightarrow> ('w, unit) io" where
  "bindMountVolume os c source path volume readonly =
     bindE (createDir os path) (\<lambda>_.
     let fsType = (if GetFsType volume = [] then defaultFS else GetFsType volume) in
     bindE (wrapE (\<lambda>err. StatusErr Internal ''failed to check mount point %v, %v'' [AStr path, AErr err])
             (m_IsLikelyNotMountPoint (cfg_Mount c) path)) (\<lambda>isNotMountPoint.
     bindE (wrapE (\<lambda>err. StatusErr Internal ''failed to get source mount point %v, %v'' [AStr path, AErr err])
             (m_GetMountPoint (cfg_Mount c) source)) (\<lambda>mp.
     if \<not> isNotMountPoint
     then bindE (derefE mp) (\<lambda>mp. detectMountVolumeConflict c (Device mp) path volume)
     else
       (let mountOpts = GetMountFlags volume;
            mountOpts = (if readonly then MakeReadOnlyMountOpts mountOpts else mountOpts);
            mountOpts = mountOpts @ [''bind''] in
        wrapE (\<lambda>err. StatusErr Internal ''failed to bind %v to %v, %v'' [AStr source, AStr path, AErr err])
          (m_Mount (cfg_Mount c) source path fsType mountOpts)))))"

definition mountMountVolume ::
    "'w os \<Rightarrow> 'w DriverConfig \<Rightarrow> string \<Rightarrow> string \<Rightarrow> MountVolume option \<Rightarrow> bool \<Rightarrow> ('w, unit) io" where
  "mountMountVolume os c device path volume readonly =
     bindE (createDir os path) (\<lambda>_.
     let fsType = (if GetFsType volume = [] then defaultFS else GetFsType volume);
         mountOpts = GetMountFlags volume in
     bindE (wrapE (\<lambda>err. StatusErr Internal ''failed to check mount point %v, %v'' [AStr path, AErr err])
             (m_IsLikelyNotMountPoint (cfg_Mount c) path)) (\<lambda>isNotMountPoint.
     if \<not> isNotMountPoint then detectMountVolumeConflict c device path volume
     else
       (let mountOpts = (if readonly then MakeReadOnlyMountOpts mountOpts else mountOpts) in
        wrapE (\<lambda>err. StatusErr Internal ''failed to mount %v to %v, %v'' [AStr device, AStr path, AErr err])
          (m_FormatAndMount (cfg_Mount c) device path fsType mountOpts))))"

definition unmountVolume :: "'w os \<Rightarrow> 'w DriverConfig \<Rightarrow> string \<Rightarrow> ('w, unit) io" where
  "unmountVolume os c path =
     bindE (attemptE (callE (EvStat path) (os_Stat os path))) (\<lambda>st.
     case st of
       Inl err \<Rightarrow>
         if IsNotExist err then returnE ()
         else failE (StatusErr Internal ''failed to stat %v, %v'' [AStr path, AErr err])
     | Inr _ \<Rightarrow>
         bindE (wrapE (\<lambda>err. StatusErr Internal ''failed to check mount point %v, %v'' [AStr path, AErr err])
                 (m_IsLikelyNotMountPoint (cfg_Mount c) path)) (\<lambda>isNotMountPoint.
         bindE (if \<not> isNotMountPoint
                then wrapE (\<lambda>err. StatusErr Internal ''failed to umount %v, %v'' [AStr path, AErr err])
                       (m_Unmount (cfg_Mount c) path)
                else returnE ()) (\<lambda>_.
         wrapE (\<lambda>err. StatusErr Internal ''failed to remove %v, %v'' [AStr path, AErr err])
           (callE (EvRemoveAll path) (os_RemoveAll os path)))))"

section \<open>The device of a volume\<close>

definition lsblkCmd :: string where
  "lsblkCmd = ''lsblk -o \"NAME\" -e 1,7,11 -d -n''"

definition udevCmd :: "string \<Rightarrow> string" where
  "udevCmd d = ''udevadm info --query=all --name='' @ d @ '' | grep ID_SERIAL''"

text \<open>One round of the loop over the disks \<open>lsblk\<close> lists; \<open>device\<close> is the variable of that name.\<close>

definition matchDevice :: "'w os \<Rightarrow> string \<Rightarrow> string \<Rightarrow> string \<Rightarrow> ('w, string) io" where
  "matchDevice os serial d device =
     bindE (shE os (udevCmd d)) (\<lambda>(idSerialLine, err).
     case err of
       Some _ \<Rightarrow> failE (Errorf ''failed to get ID_SERIAL from udevadm, %v'' [AStr idSerialLine])
     | None \<Rightarrow>
         (let idSerial = Split (CHR ''='') (TrimSpace (os_unicode os) idSerialLine) in
          if length idSerial \<noteq> 2 then returnE device
          else if HasPrefix serial (idSerial ! 1) then returnE (''/dev/'' @ d)
          else returnE device))"

definition getVolumeDevice :: "'w os \<Rightarrow> 'w DriverConfig \<Rightarrow> string \<Rightarrow> ('w, string) io" where
  "getVolumeDevice os c volumeID =
     bindE (GetVMDisks c (NodeID c) volumeID) (\<lambda>payload.
     if length payload < 1
     then failE (Errorf ''unable to get VM disk in VM %v with volume %v'' [AStr (NodeID c), AStr volumeID])
     else
       bindE (first_of payload) (\<lambda>disk.
       if Serial disk = None \<or> Serial disk = Some []
       then failE (Errorf ''unable to get serial from Elf API in VM %v with volume %v'' [AStr (NodeID c), AStr volumeID])
       else
         bindE (derefE (Serial disk)) (\<lambda>serial.
         bindE (shE os lsblkCmd) (\<lambda>(out, err).
         case err of
           Some _ \<Rightarrow> failE (Errorf ''failed to lsblk, %v'' [AStr out])
         | None \<Rightarrow>
             bindE (rangeE (matchDevice os serial) (Fields (os_unicode os) out) []) (\<lambda>device.
             if device = [] then failE (Errorf ''failed to get device, raw output is: %v'' [AStr out])
             else returnE device)))))"

definition node_getVolume :: "'w DriverConfig \<Rightarrow> string \<Rightarrow> ('w, VMVolume option) io" where
  "node_getVolume c volumeID =
     bindE (GetVMVolumes c (VolumeWhereID volumeID)) (\<lambda>payload.
     if length payload < 1
     then failE (Errorf ''unable to get volume with ID %v'' [AStr volumeID])
     else index0E payload)"

section \<open>The methods\<close>

definition NodeStageVolume :: "'w os \<Rightarrow> 'w DriverConfig \<Rightarrow> NodeStageVolumeRequest \<Rightarrow> ('w, unit) io" where
  "NodeStageVolume os c req =
     (let volumeID = stage_VolumeId req; stagingTargetPath = stage_StagingTargetPath req in
      if volumeID = [] then failE (StatusErr InvalidArgument ''volumeId is empty'' [])
      else if stagingTargetPath = []
      then failE (StatusErr InvalidArgument ''staging target path is empty'' [])
      else
        bindE (getVolumeDevice os c volumeID) (\<lambda>device.
        let stagingPath = generateStagingPath stagingTargetPath volumeID in
        if GetBlock (stage_VolumeCapability req)
        then mountBlockVolume os c device stagingPath False
        else mountMountVolume os c device stagingPath (GetMount (stage_VolumeCapability req)) False))"

definition NodeUnstageVolume :: "'w os \<Rightarrow> 'w DriverConfig \<Rightarrow> string \<times> string \<Rightarrow> ('w, unit) io" where
  \<comment> \<open>the request: volume ID and staging target path\<close>
  "NodeUnstageVolume os c req =
     (let (volumeID, stagingTargetPath) = req in
      if volumeID = [] then failE (StatusErr InvalidArgument ''volumeId is empty'' [])
      else if stagingTargetPath = []
      then failE (StatusErr InvalidArgument ''staging target path is empty'' [])
      else unmountVolume os c (generateStagingPath stagingTargetPath volumeID))"

definition NodePublishVolume :: "'w os \<Rightarrow> 'w DriverConfig \<Rightarrow> NodePublishVolumeRequest \<Rightarrow> ('w, unit) io" where
  "NodePublishVolume os c req =
     (let volumeID = npub_VolumeId req; targetPath = npub_TargetPath req;
          volumeCapability = npub_VolumeCapability req; stagingTargetPath = npub_StagingTargetPath req in
      if volumeID = [] then failE (StatusErr InvalidArgument ''volumeId is empty'' [])
      else if targetPath = [] then failE (StatusErr InvalidArgument ''target path is empty'' [])
      else if volumeCapability = None
      then failE (StatusErr InvalidArgument ''volumeCapability is empty'' [])
      else if stagingTargetPath = []
      then failE (StatusErr FailedPrecondition
             ''STAGE_UNSTAGE_VOLUME capability is set but no staging_target_path is empty'' [])
      else
        bindE (getVolumeDevice os c volumeID) (\<lambda>device.
        let stagingPath = generateStagingPath stagingTargetPath volumeID in
        if GetBlock volumeCapability
        then mountBlockVolume os c device targetPath (npub_Readonly req)
        else bindMountVolume os c stagingPath targetPath (GetMount volumeCapability) (npub_Readonly req)))"

definition NodeUnpublishVolume :: "'w os \<Rightarrow> 'w DriverConfig \<Rightarrow> string \<times> string \<Rightarrow> ('w, unit) io" where
  \<comment> \<open>the request: volume ID and target path\<close>
  "NodeUnpublishVolume os c req =
     (let (volumeID, targetPath) = req in
      if volumeID = [] then failE (StatusErr InvalidArgument ''volumeId is empty'' [])
      else if targetPath = [] then failE (StatusErr InvalidArgument ''target path is empty'' [])
      else unmountVolume os c targetPath)"

text \<open>\<open>NodeGetVolumeStats\<close> returns a nil response and a nil error.\<close>

definition NodeGetVolumeStats :: "('w, unit option) io" where
  "NodeGetVolumeStats = returnE None"

definition NodeGetCapabilities :: "('w, NodeCapability list) io" where
  "NodeGetCapabilities = returnE [STAGE_UNSTAGE_VOLUME, NODE_EXPAND_VOLUME, GET_VOLUME_STATS]"

definition NodeGetInfo :: "'w DriverConfig \<Rightarrow> ('w, NodeGetInfoResponse) io" where
  "NodeGetInfo c = returnE \<lparr>info_NodeId = NodeID c, info_MaxVolumesPerNode = 66\<rparr>"

definition NodeExpandVolume :: "'w os \<Rightarrow> 'w DriverConfig \<Rightarrow> string \<Rightarrow> ('w, int64) io" where
  "NodeExpandVolume os c volumeID =
     (if volumeID = [] then failE (StatusErr InvalidArgument ''volume id is empty'' [])
      else
        bindE (wrapE (\<lambda>err. StatusErr Internal ''failed to find volume %v'' [AStr volumeID])
                (node_getVolume c volumeID)) (\<lambda>p.
        bindE (wrapE (\<lambda>err. StatusErr Internal ''failed to find volume %+v device, %v'' [AStr volumeID, AErr err])
                (getVolumeDevice os c volumeID)) (\<lambda>device.
        bindE (derefE p) (\<lambda>volume.
        bindE (derefE (Size volume)) (\<lambda>sz.
        bindE (wrapE (\<lambda>err. StatusErr Internal ''failed to resize device %v, %v'' [APtr, AErr err])
                (ResizeBlock (cfg_Resizer c) device sz)) (\<lambda>_.
        bindE (wrapE (\<lambda>err. StatusErr Internal ''failed to get device %v fs type, %v'' [APtr, AErr err])
                (m_GetDiskFormat (cfg_Mount c) device)) (\<lambda>fsType.
        bindE (if fsType \<noteq> []
               then wrapE (\<lambda>err. StatusErr Internal ''failed to resize device %v fs %v , %v''
                              [APtr, AStr fsType, AErr err])
                      (ResizeFS (cfg_Resizer c) device fsType)
               else returnE ()) (\<lambda>_.
        returnE sz))))))))"

end
