(* ===== verification/Node_Correct.thy ===== *)
theory Node_Correct
  imports Node_Server
begin

text \<open>
  Correctness of the node service: conflicts are detected without changing anything, staging and
  publishing are idempotent, a read-only request never mounts writable, data is removed only
  from an unmounted path, the device of a volume is the last disk whose serial matches, growing
  a volume waits for the device.
\<close>

section \<open>Client of the mounter\<close>

context mount_contract
begin

lemma block_conflict_reads:
  "cfg_Mount c = M \<Longrightarrow> emits (\<lambda>ev. \<not> mutates ev) (detectBlockVolumeConflict c device path)"
  unfolding detectBlockVolumeConflict_def by (intro emits_rules) (simp add: ref_reads)

lemma mount_conflict_reads:
  "cfg_Mount c = M \<Longrightarrow> emits (\<lambda>ev. \<not> mutates ev) (detectMountVolumeConflict c device path volume)"
  unfolding detectMountVolumeConflict_def Let_def by (intro emits_rules) (simp add: lookup_reads)

text \<open>
  A path that is a mount point already: staging a file system only compares, and succeeds
  exactly when the device, the type and the flags of the entry are those asked for.
\<close>

lemma stage_mounted:
  assumes "cfg_Mount c = M" and "createDir os path w = (Ret (), w1)"
    and "m_IsLikelyNotMountPoint M path w1 = (Ret False, w2)"
    and "m_GetMountPoint M path w2 = (Ret (Some mp), w3)"
  shows "if Device mp = device \<and> Type mp = (if FsType v = [] then defaultFS else FsType v) \<and>
        set (MountFlags v) \<subseteq> set (Opts mp)
    then mountMountVolume os c device path (Some v) readonly w = (Ret (), w3)
    else \<exists>msg args. mountMountVolume os c device path (Some v) readonly w = (Fail (StatusErr AlreadyExists msg args), w3)"
  using assms
  by (simp add: mountMountVolume_def detectMountVolumeConflict_def Let_def bindE_def wrapE_def GetFsType_def
      checkMountFlags_def flagsFound_subset returnE_def failE_def)

text \<open>The same for a bind mount: the device compared with is that of the staged file system.\<close>

lemma publish_mounted:
  assumes "cfg_Mount c = M" and "createDir os path w = (Ret (), w1)"
    and "m_IsLikelyNotMountPoint M path w1 = (Ret False, w2)"
    and "m_GetMountPoint M source w2 = (Ret (Some smp), w3)"
    and "m_GetMountPoint M path w3 = (Ret (Some mp), w4)"
  shows "if Device mp = Device smp \<and> Type mp = (if FsType v = [] then defaultFS else FsType v) \<and>
        set (MountFlags v) \<subseteq> set (Opts mp)
    then bindMountVolume os c source path (Some v) readonly w = (Ret (), w4)
    else \<exists>msg args. bindMountVolume os c source path (Some v) readonly w = (Fail (StatusErr AlreadyExists msg args), w4)"
  using assms
  by (simp add: bindMountVolume_def detectMountVolumeConflict_def Let_def bindE_def wrapE_def GetFsType_def
      checkMountFlags_def flagsFound_subset returnE_def failE_def)

end

section \<open>Footprints\<close>

lemma NewMount_simps [simp]:
  "m_Mount (NewMount os km) = kMount km"
  "m_Unmount (NewMount os km) = kUnmount km"
  "m_IsLikelyNotMountPoint (NewMount os km) = kIsLikelyNotMountPoint km"
  "m_GetDiskFormat (NewMount os km) = kGetDiskFormat km"
  "m_FormatAndMount (NewMount os km) = FormatAndMount os km"
  "m_GetMountPoint (NewMount os km) = GetMountPoint os km"
  "m_GetMountRef (NewMount os km) = GetMountRef os km"
  by (simp_all add: NewMount_def)

lemma emits_matchDevice [emits_rules]: "P (EvSh (udevCmd d)) \<Longrightarrow> emits P (matchDevice os serial d device)"
  unfolding matchDevice_def Let_def by (intro emits_rules)

lemma emits_getVolumeDevice [emits_rules]:
  assumes "P (EvGetVMDisks (NodeID c) v)" and "\<And>cmd. P (EvSh cmd)"
  shows "emits P (getVolumeDevice os c v)"
  unfolding getVolumeDevice_def by (intro emits_rules assms)

section \<open>Unmounting\<close>

text \<open>
  C8: Data is never removed through a live mount: \<open>unmountVolume\<close> removes only its own path, and
  only after the path was reported not to be a mount point or its unmount succeeded.
\<close>

theorem unmount_before_remove:
  assumes "cfg_Mount c = NewMount os km" and "unmountVolume os c path w = (r, w')"
    and "trace w' = trace w @ evs" and "EvRemoveAll p \<in> set evs"
  shows "p = path \<and>
    ((\<exists>x y. km_IsLikelyNotMountPoint km path x = (Inr True, y) \<and>
        evs = [EvStat path, EvIsLikelyNotMountPoint path, EvRemoveAll path]) \<or>
     (\<exists>x y z. km_IsLikelyNotMountPoint km path x = (Inr False, y) \<and> km_Unmount km path y = (Inr (), z) \<and>
        evs = [EvStat path, EvIsLikelyNotMountPoint path, EvUnmount path, EvRemoveAll path]))"
  using assms
  by (auto simp: unmountVolume_def api_defs bindE_def attemptE_def wrapE_def callE_def returnE_def failE_def
      split: prod.splits sum.splits if_splits res.splits)

definition demo_staged :: "demo world" where
  "demo_staged = demo_world\<lparr>ext := demo_state\<lparr>d_files := [''/s/vol-1''],
     d_mounts := [\<lparr>Device = ''/dev/vdb'', Path = ''/s/vol-1'', Type = ''ext4'', Opts = [''rw'', ''noatime'']\<rparr>]\<rparr>\<rparr>"

lemma demo_staged_simps [simp]:
  "d_files (ext demo_staged) = [''/s/vol-1'']"
  "d_mounts (ext demo_staged) = [\<lparr>Device = ''/dev/vdb'', Path = ''/s/vol-1'', Type = ''ext4'', Opts = [''rw'', ''noatime'']\<rparr>]"
  "trace demo_staged = []"
  by (simp_all add: demo_staged_def demo_world_def)

theorem unmount_before_remove_witness:
  "\<exists>evs. trace (snd (unmountVolume demo_os demo_config ''/s/vol-1'' demo_staged)) = evs \<and> EvRemoveAll ''/s/vol-1'' \<in> set evs \<and>
     (\<exists>x y z. km_IsLikelyNotMountPoint demo_kmount ''/s/vol-1'' x = (Inr False, y) \<and>
        km_Unmount demo_kmount ''/s/vol-1'' y = (Inr (), z))"
proof -
  let ?evs = "[EvStat ''/s/vol-1'', EvIsLikelyNotMountPoint ''/s/vol-1'', EvUnmount ''/s/vol-1'', EvRemoveAll ''/s/vol-1'']"
  obtain r w' where run: "unmountVolume demo_os demo_config ''/s/vol-1'' demo_staged = (r, w')" by fastforce
  then have evs: "trace w' = trace demo_staged @ ?evs"
    by (auto simp: unmountVolume_def api_defs go_defs)
  from unmount_before_remove [OF _ run evs, of demo_kmount "''/s/vol-1''"] show ?thesis
    using run evs by simp
qed

text \<open>
  Unstaging and unpublishing are idempotent: after a successful call, when a removed path is
  gone, the same call again succeeds and only looks at the path.
\<close>

lemma unmount_idempotent:
  assumes "unmountVolume os c path w = (Ret (), w')"
    and "\<And>x x'. os_RemoveAll os path x = (Inr (), x') \<Longrightarrow> \<exists>msg. os_Stat os path x' = (Inl (NotExistErr msg), x')"
    and "\<And>x msg x'. os_Stat os path x = (Inl (NotExistErr msg), x') \<Longrightarrow> x' = x"
  shows "unmountVolume os c path w' = (Ret (), w'\<lparr>trace := trace w' @ [EvStat path]\<rparr>)"
proof -
  have gone: "\<exists>msg. os_Stat os path (ext w') = (Inl (NotExistErr msg), ext w')"
  proof -
    from assms(1) obtain st w1 where st: "attemptE (callE (EvStat path) (os_Stat os path)) w = (Ret st, w1)"
      and rest: "(case st of Inl err \<Rightarrow> if IsNotExist err then returnE ()
           else failE (StatusErr Internal ''failed to stat %v, %v'' [AStr path, AErr err])
       | Inr _ \<Rightarrow> bindE (wrapE (\<lambda>err. StatusErr Internal ''failed to check mount point %v, %v'' [AStr path, AErr err])
             (m_IsLikelyNotMountPoint (cfg_Mount c) path)) (\<lambda>isNotMountPoint.
           bindE (if \<not> isNotMountPoint
                  then wrapE (\<lambda>err. StatusErr Internal ''failed to umount %v, %v'' [AStr path, AErr err])
                         (m_Unmount (cfg_Mount c) path)
                  else returnE ()) (\<lambda>_.
           wrapE (\<lambda>err. StatusErr Internal ''failed to remove %v, %v'' [AStr path, AErr err])
             (callE (EvRemoveAll path) (os_RemoveAll os path))))) w1 = (Ret (), w')"
      unfolding unmountVolume_def by (auto simp: bindE_Ret)
    show ?thesis
    proof (cases st)
      case (Inl err)
      with rest have "IsNotExist err" "w' = w1" by (auto simp: ret_iffs split: if_splits)
      then obtain msg where "err = NotExistErr msg" by (cases err) auto
      with st Inl have "os_Stat os path (ext w) = (Inl (NotExistErr msg), ext w1)"
        by (auto simp: attemptE_def callE_def split: prod.splits sum.splits)
      with assms(3) \<open>w' = w1\<close> show ?thesis by metis
    next
      case (Inr d)
      with rest obtain x where "os_RemoveAll os path x = (Inr (), ext w')"
        by (auto simp: bindE_Ret wrapE_Ret callE_Ret)
      from assms(2) [OF this] show ?thesis .
    qed
  qed
  then show ?thesis by (auto simp: unmountVolume_def go_defs)
qed

lemma unmount_idempotent_witness:
  "\<exists>w'. unmountVolume demo_os demo_config ''/s/vol-1'' demo_staged = (Ret (), w') \<and>
     unmountVolume demo_os demo_config ''/s/vol-1'' w' = (Ret (), w'\<lparr>trace := trace w' @ [EvStat ''/s/vol-1'']\<rparr>)"
proof -
  have "fst (unmountVolume demo_os demo_config ''/s/vol-1'' demo_staged) = Ret ()"
    by (simp add: unmountVolume_def api_defs go_defs)
  then obtain w' where run: "unmountVolume demo_os demo_config ''/s/vol-1'' demo_staged = (Ret (), w')"
    by (metis prod.collapse)
  moreover have "unmountVolume demo_os demo_config ''/s/vol-1'' w' = (Ret (), w'\<lparr>trace := trace w' @ [EvStat ''/s/vol-1'']\<rparr>)"
    by (rule unmount_idempotent [OF run]) (auto split: if_splits)
  ultimately show ?thesis by blast
qed

section \<open>The device of a volume\<close>

text \<open>The test one disk's \<open>ID_SERIAL\<close> line is put to.\<close>

definition serialMatches :: "unicode \<Rightarrow> string \<Rightarrow> string \<Rightarrow> bool" where
  "serialMatches u serial line =
     (let idSerial = Split (CHR ''='') (TrimSpace u line) in length idSerial = 2 \<and> HasPrefix serial (idSerial ! 1))"

text \<open>The answers of \<open>udevadm\<close>, which only queries: \<open>line d\<close> for the disk \<open>d\<close>.\<close>

definition udev_answers :: "'w os \<Rightarrow> (string \<Rightarrow> string) \<Rightarrow> string list \<Rightarrow> bool" where
  "udev_answers os line disks \<longleftrightarrow> (\<forall>d \<in> set disks. \<forall>x. os_sh os (udevCmd d) x = ((line d, None), x))"

lemma matchDevice_step:
  assumes "os_sh os (udevCmd d) (ext w) = ((line d, None), ext w)"
  shows "matchDevice os serial d device w =
    (Ret (if serialMatches (os_unicode os) serial (line d) then ''/dev/'' @ d else device),
     w\<lparr>trace := trace w @ [EvSh (udevCmd d)]\<rparr>)"
  using assms by (simp add: matchDevice_def serialMatches_def Let_def bindE_def shE_def returnE_def)

lemma matchDevice_loop:
  assumes "udev_answers os line disks"
  shows "rangeE (matchDevice os serial) disks device w =
    (Ret (case filter (\<lambda>d. serialMatches (os_unicode os) serial (line d)) disks of [] \<Rightarrow> device
          | ds \<Rightarrow> ''/dev/'' @ last ds),
     w\<lparr>trace := trace w @ map (\<lambda>d. EvSh (udevCmd d)) disks\<rparr>)"
  using assms
proof (induction disks arbitrary: device w)
  case (Cons d disks)
  then have rest: "udev_answers os line disks" by (simp add: udev_answers_def)
  have "os_sh os (udevCmd d) (ext w) = ((line d, None), ext w)" using Cons.prems by (simp add: udev_answers_def)
  note step = matchDevice_step [where line = line, OF this]
  show ?case by (simp add: bindE_def [of "matchDevice _ _ _ _"] step Cons.IH [OF rest] split: list.splits)
qed (simp add: returnE_def)

text \<open>
  What \<open>udevadm\<close> answers for the listed disks, asked one after the other from a state on: the
  disk with the output and the error of its command.
\<close>

fun udevAnswers :: "'w os \<Rightarrow> string list \<Rightarrow> 'w \<Rightarrow> (string \<times> string \<times> go_error option) list" where
  "udevAnswers os [] x = []"
| "udevAnswers os (d # ds) x = (case os_sh os (udevCmd d) x of (r, x') \<Rightarrow> (d, r) # udevAnswers os ds x')"

lemma matchDevice_outcome:
  "fst (rangeE (matchDevice os serial) disks device w) =
    (let answers = udevAnswers os disks (ext w) in
     case find (\<lambda>(d, out, err). err \<noteq> None) answers of
       Some (d, out, err) \<Rightarrow> Fail (Errorf ''failed to get ID_SERIAL from udevadm, %v'' [AStr out])
     | None \<Rightarrow> Ret (case filter (\<lambda>(d, out, err). serialMatches (os_unicode os) serial out) answers of
                    [] \<Rightarrow> device | ms \<Rightarrow> ''/dev/'' @ fst (last ms)))"
proof (induction disks arbitrary: device w)
  case (Cons d disks)
  obtain out err x where call: "os_sh os (udevCmd d) (ext w) = ((out, err), x)" by (metis prod.collapse)
  show ?case
  proof (cases err)
    case None
    then have "matchDevice os serial d device w =
        (Ret (if serialMatches (os_unicode os) serial out then ''/dev/'' @ d else device),
         w\<lparr>ext := x, trace := trace w @ [EvSh (udevCmd d)]\<rparr>)"
      using call by (simp add: matchDevice_def serialMatches_def Let_def bindE_def shE_def returnE_def)
    with None call show ?thesis
      by (simp add: bindE_def [of "matchDevice _ _ _ _"] Cons.IH Let_def split: list.splits option.splits)
  next
    case (Some e)
    then show ?thesis using call by (simp add: matchDevice_def bindE_def shE_def failE_def)
  qed
qed (simp add: returnE_def)

text \<open>
  C25: The device of a volume: when CloudTower knows the disk of the volume in this VM and its
  serial, and \<open>lsblk\<close> lists the disks, \<open>getVolumeDevice\<close> asks \<open>udevadm\<close> for every listed disk.
  It fails with the output of the first such command that fails (as \<open>grep\<close> does for a disk
  without \<open>ID_SERIAL\<close>, even if another disk matches); otherwise it returns the last listed disk
  whose \<open>ID_SERIAL\<close> is a prefix of the serial, and an error when there is none.
\<close>

theorem getVolumeDevice_last_match:
  assumes "tc_GetVMDisks (TowerClient c) (NodeID c) v (ext w) = (Inr (Some disk # disks), x)"
    and "Serial disk = Some serial" and "serial \<noteq> []"
    and "os_sh os lsblkCmd x = ((out, None), y)"
  shows "fst (getVolumeDevice os c v w) =
    (let answers = udevAnswers os (Fields (os_unicode os) out) y;
         matching = filter (\<lambda>(d, line, err). serialMatches (os_unicode os) serial line) answers in
     case find (\<lambda>(d, line, err). err \<noteq> None) answers of
       Some (d, line, err) \<Rightarrow> Fail (Errorf ''failed to get ID_SERIAL from udevadm, %v'' [AStr line])
     | None \<Rightarrow>
         if matching = [] then Fail (Errorf ''failed to get device, raw output is: %v'' [AStr out])
         else Ret (''/dev/'' @ fst (last matching)))"
proof -
  let ?w = "w\<lparr>ext := y, trace := trace w @ [EvGetVMDisks (NodeID c) v, EvSh lsblkCmd]\<rparr>"
  let ?loop = "rangeE (matchDevice os serial) (Fields (os_unicode os) out) []"
  have "getVolumeDevice os c v w = bindE ?loop (\<lambda>device.
      if device = [] then failE (Errorf ''failed to get device, raw output is: %v'' [AStr out]) else returnE device) ?w"
    using assms by (simp add: getVolumeDevice_def api_defs bindE_def [of "callE _ _"] callE_def bindE_def [of "shE _ _"]
        shE_def returnE_def)
  moreover have "fst (bindE ?loop f ?w) = (case fst (?loop ?w) of Ret a \<Rightarrow> fst (f a (snd (?loop ?w))) | Fail e \<Rightarrow> Fail e
      | Panic \<Rightarrow> Panic | Diverge \<Rightarrow> Diverge)" for f :: "string \<Rightarrow> ('a, string) io"
    by (simp add: bindE_def split: prod.splits res.splits)
  ultimately show ?thesis
    by (simp add: matchDevice_outcome Let_def failE_def returnE_def split: option.splits list.splits)
qed

lemma demo_device:
  "Fields demo_unicode ''vda vdb '' = [''vda'', ''vdb'']"
  "serialMatches demo_unicode ''serial-1-long'' ''E: ID_SERIAL=serial-1 ''"
  "\<not> serialMatches demo_unicode ''serial-1-long'' ''E: ID_SERIAL=other ''"
  "demo_sh lsblkCmd = ''vda vdb ''" "demo_sh (udevCmd ''vda'') = ''E: ID_SERIAL=other ''"
  "demo_sh (udevCmd ''vdb'') = ''E: ID_SERIAL=serial-1 ''"
  by code_simp+

theorem getVolumeDevice_last_match_witness:
  "fst (getVolumeDevice demo_os demo_config ''vol-1'' demo_world) = Ret ''/dev/vdb''"
  using getVolumeDevice_last_match [of demo_config "''vol-1''" demo_world
      "\<lparr>disk_ID = Some ''d'', Serial = Some ''serial-1-long''\<rparr>" "[]" "ext demo_world" "''serial-1-long''"
      demo_os "''vda vdb ''" "ext demo_world"]
  by (simp add: demo_device Let_def)

lemma demo_getVolumeDevice:
  "getVolumeDevice demo_os demo_config v w =
    (Ret ''/dev/vdb'', w\<lparr>trace := trace w @ [EvGetVMDisks ''node-1'' v, EvSh lsblkCmd, EvSh (udevCmd ''vda''), EvSh (udevCmd ''vdb'')]\<rparr>)"
proof -
  have "udev_answers demo_os (\<lambda>d. demo_sh (udevCmd d)) [''vda'', ''vdb'']" by (simp add: udev_answers_def)
  from matchDevice_loop [OF this] show ?thesis
    by (simp add: getVolumeDevice_def GetVMDisks_def bindE_def callE_def shE_def returnE_def demo_device)
qed

section \<open>Staging and publishing\<close>

text \<open>
  C22: Staging is idempotent and never remounts: on a staging path that is a mount point already,
  \<open>NodeStageVolume\<close> of a file system volume succeeds exactly when the mounted device, file
  system type and flags are those asked for, answers AlreadyExists otherwise, and in both cases
  mounts and formats nothing.
\<close>

theorem NodeStageVolume_mounted:
  assumes "cfg_Mount c = NewMount os km"
    and "stage_VolumeId req \<noteq> []" and "stage_StagingTargetPath req \<noteq> []"
    and "stage_VolumeCapability req = Some cap" and "cap_AccessType cap = Some (MountAccess v)"
    and "getVolumeDevice os c (stage_VolumeId req) w = (Ret device, w0)"
    and "createDir os (generateStagingPath (stage_StagingTargetPath req) (stage_VolumeId req)) w0 = (Ret (), w1)"
    and "kIsLikelyNotMountPoint km (generateStagingPath (stage_StagingTargetPath req) (stage_VolumeId req)) w1 = (Ret False, w2)"
    and "GetMountPoint os km (generateStagingPath (stage_StagingTargetPath req) (stage_VolumeId req)) w2 = (Ret (Some mp), w3)"
  shows "if Device mp = device \<and> Type mp = (if FsType v = [] then ''ext4'' else FsType v) \<and> set (MountFlags v) \<subseteq> set (Opts mp)
    then NodeStageVolume os c req w = (Ret (), w3)
    else \<exists>msg args. NodeStageVolume os c req w = (Fail (StatusErr AlreadyExists msg args), w3)"
proof -
  let ?path = "generateStagingPath (stage_StagingTargetPath req) (stage_VolumeId req)"
  have "NodeStageVolume os c req w = mountMountVolume os c device ?path (Some v) False w0"
    using assms(2-6) by (simp add: NodeStageVolume_def Let_def bindE_def GetBlock_def GetMount_def)
  then show ?thesis
    using real_mount.stage_mounted [of c os km ?path w0 w1 w2 mp w3 device v False] assms(1,7-9)
    by (simp add: defaultFS_def ext4FS_def)
qed

definition demo_stage :: NodeStageVolumeRequest where
  "demo_stage = \<lparr>stage_VolumeId = ''vol-1'', stage_StagingTargetPath = ''/s'', stage_VolumeCapability = Some
     \<lparr>cap_AccessType = Some (MountAccess \<lparr>FsType = [], MountFlags = [''noatime'']\<rparr>), cap_AccessMode = Some SINGLE_NODE_WRITER\<rparr>\<rparr>"

lemma demo_staging_path: "generateStagingPath ''/s'' ''vol-1'' = ''/s/vol-1''"
  by code_simp

theorem NodeStageVolume_mounted_witness:
  "fst (NodeStageVolume demo_os demo_config demo_stage demo_staged) = Ret ()"
proof -
  let ?w0 = "snd (getVolumeDevice demo_os demo_config ''vol-1'' demo_staged)"
  let ?w1 = "?w0\<lparr>trace := trace ?w0 @ [EvStat ''/s/vol-1'']\<rparr>"
  let ?w2 = "?w1\<lparr>trace := trace ?w1 @ [EvIsLikelyNotMountPoint ''/s/vol-1'']\<rparr>"
  let ?w3 = "?w2\<lparr>trace := trace ?w2 @ [EvEvalSymlinks ''/s/vol-1'', EvMountList]\<rparr>"
  have "createDir demo_os ''/s/vol-1'' ?w0 = (Ret (), ?w1)"
    by (simp add: createDir_def go_defs demo_getVolumeDevice)
  moreover have "kIsLikelyNotMountPoint demo_kmount ''/s/vol-1'' ?w1 = (Ret False, ?w2)"
    by (simp add: kIsLikelyNotMountPoint_def go_defs demo_getVolumeDevice)
  moreover have "GetMountPoint demo_os demo_kmount ''/s/vol-1'' ?w2 =
      (Ret (Some \<lparr>Device = ''/dev/vdb'', Path = ''/s/vol-1'', Type = ''ext4'', Opts = [''rw'', ''noatime'']\<rparr>), ?w3)"
    by (simp add: GetMountPoint_def api_defs go_defs demo_getVolumeDevice)
  ultimately show ?thesis
    using NodeStageVolume_mounted [of demo_config demo_os demo_kmount demo_stage
        "\<lparr>cap_AccessType = Some (MountAccess \<lparr>FsType = [], MountFlags = [''noatime'']\<rparr>), cap_AccessMode = Some SINGLE_NODE_WRITER\<rparr>"
        "\<lparr>FsType = [], MountFlags = [''noatime'']\<rparr>" demo_staged "''/dev/vdb''" ?w0 ?w1 ?w2
        "\<lparr>Device = ''/dev/vdb'', Path = ''/s/vol-1'', Type = ''ext4'', Opts = [''rw'', ''noatime'']\<rparr>" ?w3]
    by (simp add: demo_stage_def demo_staging_path demo_getVolumeDevice)
qed

text \<open>
  A request without an access type crashes the node service once the path is mounted:
  \<open>NodeStageVolume\<close> does not test the volume capability, and the comparison with the existing
  mount dereferences the missing mount volume.
\<close>

lemma NodeStageVolume_nil_capability_panics:
  assumes "cfg_Mount c = NewMount os km"
    and "stage_VolumeId req \<noteq> []" and "stage_StagingTargetPath req \<noteq> []" and "stage_VolumeCapability req = None"
    and "getVolumeDevice os c (stage_VolumeId req) w = (Ret device, w0)"
    and "createDir os (generateStagingPath (stage_StagingTargetPath req) (stage_VolumeId req)) w0 = (Ret (), w1)"
    and "kIsLikelyNotMountPoint km (generateStagingPath (stage_StagingTargetPath req) (stage_VolumeId req)) w1 = (Ret False, w2)"
  shows "fst (NodeStageVolume os c req w) = Panic"
  using assms
  by (simp add: NodeStageVolume_def mountMountVolume_def detectMountVolumeConflict_def Let_def bindE_def wrapE_def
      GetBlock_def GetMount_def panicE_def)

lemma NodeStageVolume_nil_capability_panics_witness:
  "fst (NodeStageVolume demo_os demo_config (demo_stage\<lparr>stage_VolumeCapability := None\<rparr>) demo_staged) = Panic"
proof -
  let ?w0 = "snd (getVolumeDevice demo_os demo_config ''vol-1'' demo_staged)"
  let ?w1 = "?w0\<lparr>trace := trace ?w0 @ [EvStat ''/s/vol-1'']\<rparr>"
  have "createDir demo_os ''/s/vol-1'' ?w0 = (Ret (), ?w1)"
    by (simp add: createDir_def go_defs demo_getVolumeDevice)
  moreover have "kIsLikelyNotMountPoint demo_kmount ''/s/vol-1'' ?w1 =
      (Ret False, ?w1\<lparr>trace := trace ?w1 @ [EvIsLikelyNotMountPoint ''/s/vol-1'']\<rparr>)"
    by (simp add: kIsLikelyNotMountPoint_def go_defs demo_getVolumeDevice)
  ultimately show ?thesis
    using NodeStageVolume_nil_capability_panics [of demo_config demo_os demo_kmount
        "demo_stage\<lparr>stage_VolumeCapability := None\<rparr>" demo_staged "''/dev/vdb''" ?w0 ?w1]
    by (simp add: demo_stage_def demo_staging_path demo_getVolumeDevice)
qed

text \<open>What the two conflict checks look at, with the real mounter.\<close>

lemma emits_conflicts:
  assumes "cfg_Mount c = NewMount os km" and "P (EvEvalSymlinks path)" and "P EvMountList"
    and "P (EvParseMountInfo procMountInfoPath)"
  shows "emits P (detectBlockVolumeConflict c device path)" "emits P (detectMountVolumeConflict c device path volume)"
  unfolding detectBlockVolumeConflict_def detectMountVolumeConflict_def Let_def assms(1) NewMount_simps
  by (intro emits_rules assms)+

lemma emits_mountBlockVolume:
  assumes "cfg_Mount c = NewMount os km" and "P (EvStat path)" and "P (EvCreate path)"
    and "P (EvIsLikelyNotMountPoint path)" and "P (EvEvalSymlinks path)" and "P EvMountList"
    and "P (EvParseMountInfo procMountInfoPath)" and "P (EvMount device path [] (if readonly then [''bind'', ''ro''] else [''bind'']))"
  shows "emits P (mountBlockVolume os' c device path readonly)"
  unfolding mountBlockVolume_def Let_def assms(1) NewMount_simps
  by (intro emits_rules emits_conflicts [OF assms(1)] assms(2-7)) (use assms(8) in \<open>auto split: if_splits\<close>)

lemma emits_bindMountVolume:
  assumes "cfg_Mount c = NewMount os km" and "P (EvStat path)" and "P (EvMkdirAll path)"
    and "P (EvIsLikelyNotMountPoint path)" and "\<And>p. P (EvEvalSymlinks p)" and "P EvMountList"
    and "P (EvParseMountInfo procMountInfoPath)"
    and "\<And>f. P (EvMount source path f ((if readonly then MakeReadOnlyMountOpts (GetMountFlags volume) else GetMountFlags volume) @ [''bind'']))"
  shows "emits P (bindMountVolume os' c source path volume readonly)"
  unfolding bindMountVolume_def Let_def assms(1) NewMount_simps
  by (intro emits_rules emits_conflicts [OF assms(1)] assms)

lemma emits_mountMountVolume:
  fixes volume :: "MountVolume option" and readonly :: bool
  defines "f \<equiv> if GetFsType volume = [] then defaultFS else GetFsType volume"
    and "opts \<equiv> if readonly then MakeReadOnlyMountOpts (GetMountFlags volume) else GetMountFlags volume"
  assumes "cfg_Mount c = NewMount os km" and "P (EvStat path)" and "P (EvMkdirAll path)"
    and "P (EvIsLikelyNotMountPoint path)" and "P (EvEvalSymlinks path)" and "P EvMountList"
    and "P (EvParseMountInfo procMountInfoPath)" and "P (EvGetDiskFormat device)"
    and "f = ''xfs'' \<Longrightarrow> P (EvCommand ''mkfs.xfs'' [''-m'', ''reflink=0'', ''-K'', device])"
    and "f = ''ext4'' \<Longrightarrow> P (EvCommand ''mkfs.ext4'' [''-E'', ''nodiscard'', ''-F'', ''-m0'', device])"
    and "f = ''xfs'' \<Longrightarrow> P (EvMount device path f (opts @ [''nouuid'']))" and "f = ''ext4'' \<Longrightarrow> P (EvMount device path f opts)"
    and "f \<noteq> ''xfs'' \<Longrightarrow> f \<noteq> ''ext4'' \<Longrightarrow> P (EvKFormatAndMount device path f opts)"
  shows "emits P (mountMountVolume os' c device path volume readonly)"
  unfolding mountMountVolume_def Let_def assms(3) NewMount_simps f_def [symmetric] opts_def [symmetric]
  by (intro emits_rules emits_conflicts [OF assms(3)] assms(4-))

definition readonly_mount :: "string \<Rightarrow> event \<Rightarrow> bool" where
  "readonly_mount target e =
     (case e of EvMount s t f opts \<Rightarrow> t = target \<and> ''ro'' \<in> set opts \<and> ''rw'' \<notin> set opts \<and> ''bind'' \<in> set opts
      | EvKFormatAndMount _ _ _ _ \<Rightarrow> False | _ \<Rightarrow> True)"

text \<open>
  C19: A read-only publish never mounts writable: whatever the flags of the request and whatever
  the outcome, every mount \<open>NodePublishVolume\<close> makes for it has \<open>ro\<close> and not \<open>rw\<close> among its
  options, is a bind mount, and has the requested target.
\<close>

theorem NodePublishVolume_readonly:
  assumes "cfg_Mount c = NewMount os km" and "npub_Readonly req"
  shows "\<exists>evs. trace (snd (NodePublishVolume os c req w)) = trace w @ evs \<and>
    list_all (readonly_mount (npub_TargetPath req)) evs"
proof -
  let ?P = "readonly_mount (npub_TargetPath req)"
  have block: "emits ?P (mountBlockVolume os c device (npub_TargetPath req) (npub_Readonly req))" for device
    by (rule emits_mountBlockVolume [OF assms(1)]) (simp_all add: readonly_mount_def assms(2))
  have bind: "emits ?P (bindMountVolume os c source (npub_TargetPath req) volume (npub_Readonly req))" for source volume
    by (rule emits_bindMountVolume [OF assms(1)])
       (simp_all add: readonly_mount_def assms(2) MakeReadOnlyMountOpts_def dropRwRo_filter)
  have "emits ?P (NodePublishVolume os c req)"
    unfolding NodePublishVolume_def Let_def
    by (intro emits_rules block bind) (simp_all add: readonly_mount_def)
  then show ?thesis by (auto simp: emits_def)
qed

definition demo_publish_ro :: NodePublishVolumeRequest where
  "demo_publish_ro = \<lparr>npub_VolumeId = ''vol-1'', npub_TargetPath = ''/t'', npub_StagingTargetPath = ''/s'',
     npub_VolumeCapability = Some \<lparr>cap_AccessType = Some (MountAccess \<lparr>FsType = [], MountFlags = [''rw'']\<rparr>),
       cap_AccessMode = Some SINGLE_NODE_WRITER\<rparr>, npub_Readonly = True\<rparr>"

theorem NodePublishVolume_readonly_witness:
  "\<exists>evs. trace (snd (NodePublishVolume demo_os demo_config demo_publish_ro demo_staged)) = evs \<and>
     list_all (readonly_mount ''/t'') evs"
  using NodePublishVolume_readonly [of demo_config demo_os demo_kmount demo_publish_ro demo_staged]
  by (simp add: demo_publish_ro_def)

text \<open>
  What staging may change for a request and a device: the staging path, the one mount of the
  device on it, and a blank device, which one of two fixed commands or the mounter formats.
\<close>

definition stage_effect :: "NodeStageVolumeRequest \<Rightarrow> string \<Rightarrow> event \<Rightarrow> bool" where
  "stage_effect req device e =
     (let path = generateStagingPath (stage_StagingTargetPath req) (stage_VolumeId req);
          block = GetBlock (stage_VolumeCapability req); volume = GetMount (stage_VolumeCapability req);
          fs = (if GetFsType volume = [] then ''ext4'' else GetFsType volume); flags = GetMountFlags volume in
      case e of
        EvMkdirAll p \<Rightarrow> \<not> block \<and> p = path
      | EvCreate p \<Rightarrow> block \<and> p = path
      | EvMount s t f opts \<Rightarrow> s = device \<and> t = path \<and>
          (if block then f = [] \<and> opts = [''bind'']
           else f = fs \<and> (f = ''xfs'' \<and> opts = flags @ [''nouuid''] \<or> f = ''ext4'' \<and> opts = flags))
      | EvKFormatAndMount s t f opts \<Rightarrow>
          \<not> block \<and> s = device \<and> t = path \<and> f = fs \<and> f \<notin> {''xfs'', ''ext4''} \<and> opts = flags
      | EvCommand prog args \<Rightarrow> \<not> block \<and>
          (fs = ''xfs'' \<and> prog = ''mkfs.xfs'' \<and> args = [''-m'', ''reflink=0'', ''-K'', device] \<or>
           fs = ''ext4'' \<and> prog = ''mkfs.ext4'' \<and> args = [''-E'', ''nodiscard'', ''-F'', ''-m0'', device])
      | _ \<Rightarrow> \<not> mutates e)"

text \<open>
  C23: Staging touches nothing but its own volume: once the device is found, the only directory or
  file \<open>NodeStageVolume\<close> creates is the staging path, the only mounts are of the device on the
  staging path (a plain bind for a block volume; the requested file system with the requested
  flags otherwise, ext4 when none is given, and \<open>nouuid\<close> added for xfs), and the only programs it
  runs are \<open>mkfs.xfs\<close> and \<open>mkfs.ext4\<close>, for that file system, with fixed options and the device as
  their only operand; other file systems are left to the mounter's \<open>FormatAndMount\<close>.
\<close>

theorem NodeStageVolume_effects:
  assumes "cfg_Mount c = NewMount os km"
    and "stage_VolumeId req \<noteq> []" and "stage_StagingTargetPath req \<noteq> []"
    and "getVolumeDevice os c (stage_VolumeId req) w = (Ret device, w0)"
  shows "\<exists>evs. trace (snd (NodeStageVolume os c req w)) = trace w0 @ evs \<and> list_all (stage_effect req device) evs"
proof -
  let ?path = "generateStagingPath (stage_StagingTargetPath req) (stage_VolumeId req)"
  let ?P = "stage_effect req device"
  have "emits ?P (mountBlockVolume os c device ?path False)" if "GetBlock (stage_VolumeCapability req)"
    by (rule emits_mountBlockVolume [OF assms(1)]) (simp_all add: stage_effect_def mutates_def that)
  moreover have "emits ?P (mountMountVolume os c device ?path (GetMount (stage_VolumeCapability req)) False)"
    if "\<not> GetBlock (stage_VolumeCapability req)"
    by (rule emits_mountMountVolume [OF assms(1)])
       (simp_all add: stage_effect_def mutates_def that defaultFS_def ext4FS_def Let_def split: if_splits)
  ultimately have "emits ?P (if GetBlock (stage_VolumeCapability req) then mountBlockVolume os c device ?path False
      else mountMountVolume os c device ?path (GetMount (stage_VolumeCapability req)) False)" by simp
  moreover have "NodeStageVolume os c req w = (if GetBlock (stage_VolumeCapability req) then mountBlockVolume os c device ?path False
      else mountMountVolume os c device ?path (GetMount (stage_VolumeCapability req)) False) w0"
    using assms(2-4) by (simp add: NodeStageVolume_def Let_def bindE_def)
  ultimately show ?thesis by (auto simp: emits_def)
qed

theorem NodeStageVolume_effects_witness:
  "\<exists>evs. trace (snd (NodeStageVolume demo_os demo_config demo_stage demo_world)) =
       trace (snd (getVolumeDevice demo_os demo_config ''vol-1'' demo_world)) @ evs \<and>
     list_all (stage_effect demo_stage ''/dev/vdb'') evs"
  using NodeStageVolume_effects [of demo_config demo_os demo_kmount demo_stage demo_world "''/dev/vdb''"
      "snd (getVolumeDevice demo_os demo_config ''vol-1'' demo_world)"]
  by (simp add: demo_stage_def demo_staging_path demo_getVolumeDevice)

section \<open>Growing, rejected requests\<close>

text \<open>
  C24: \<open>NodeExpandVolume\<close> reports a size only after the kernel showed it: on success the reported
  capacity is the volume's size on the platform, and during the call \<open>lsblk\<close> had reported at
  least that many bytes for the volume's device.
\<close>

theorem NodeExpandVolume_observed:
  assumes "cfg_Resizer c = NewResizer os" and "NodeExpandVolume os c v w = (Ret sz, w')"
  shows "(\<exists>vol vols x. tc_GetVMVolumes (TowerClient c) (VolumeWhereID v) (ext w) = (Inr (Some vol # vols), x) \<and> Size vol = Some sz) \<and>
    (\<exists>device w1 w2 w3. getVolumeDevice os c v w1 = (Ret device, w2) \<and>
       ResizeBlock (cfg_Resizer c) device sz w2 = (Ret (), w3) \<and> size_observed os device sz w3)"
proof -
  from assms(2) obtain payload vol x device w1 w2 w3 where
    get: "tc_GetVMVolumes (TowerClient c) (VolumeWhereID v) (ext w) = (Inr payload, x)" "payload \<noteq> []"
      "Some vol = hd payload" "Size vol = Some sz"
    and dev: "getVolumeDevice os c v w1 = (Ret device, w2)"
    and resize: "ResizeBlock (cfg_Resizer c) device sz w2 = (Ret (), w3)"
    by (auto simp: NodeExpandVolume_def node_getVolume_def GetVMVolumes_def ret_iffs split: if_splits)
  from resize assms(1) have "size_observed os device sz w3" by (simp add: real_resizer.grown)
  with dev resize get show ?thesis by (cases payload) auto
qed

lemma demo_resize:
  "ResizeBlock (NewResizer demo_os) ''/dev/vdb'' 1073741824 w =
    (Ret (), w\<lparr>trace := trace w @ [EvSh (rescanCmd ''/dev/vdb''), EvSh (lsblkSizeCmd ''/dev/vdb'')]\<rparr>)"
proof -
  have sh: "demo_sh (lsblkSizeCmd ''/dev/vdb'') = ''1073741824''" by code_simp
  have "utoa 1073741824 = ''1073741824''" by (simp add: utoa.simps char_of_def bit_Suc_0_iff)
  with Sscanf_utoa [of 1073741824 "[]" demo_unicode]
  have scan: "Sscanf_uint64 demo_unicode ''1073741824'' = Some 1073741824" by simp
  have "resizeAttempt demo_os ''/dev/vdb'' 1073741824 w =
      (Ret (), w\<lparr>trace := trace w @ [EvSh (rescanCmd ''/dev/vdb''), EvSh (lsblkSizeCmd ''/dev/vdb'')]\<rparr>)"
    by (simp add: resizeAttempt_def rescan_def getDeviceSize_def shE_def bindE_def returnE_def sh scan)
  then have "RetryLoop demo_os (resizeAttempt demo_os ''/dev/vdb'' 1073741824) (Suc 14) Second None w =
      (Ret (), w\<lparr>trace := trace w @ [EvSh (rescanCmd ''/dev/vdb''), EvSh (lsblkSizeCmd ''/dev/vdb'')]\<rparr>)"
    by (rule RetryLoop_ok_step)
  then show ?thesis by (simp add: NewResizer_def resizer_ResizeBlock_def Retry_def retryLimit_def del: RetryLoop.simps)
qed

theorem NodeExpandVolume_observed_witness:
  "\<exists>device w1 w2 w3. getVolumeDevice demo_os demo_config ''vol-1'' w1 = (Ret device, w2) \<and>
     ResizeBlock (NewResizer demo_os) device 1073741824 w2 = (Ret (), w3) \<and> size_observed demo_os device 1073741824 w3"
proof -
  have "fst (NodeExpandVolume demo_os demo_config ''vol-1'' demo_world) = Ret 1073741824"
    by (simp add: NodeExpandVolume_def node_getVolume_def GetVMVolumes_def kGetDiskFormat_def bindE_def wrapE_def callE_def
        returnE_def demo_volume_def demo_getVolumeDevice demo_resize)
  then obtain w' where "NodeExpandVolume demo_os demo_config ''vol-1'' demo_world = (Ret 1073741824, w')"
    by (metis prod.collapse)
  from NodeExpandVolume_observed [OF _ this] show ?thesis by simp
qed

text \<open>The guards of the node's methods.\<close>

definition stage_invalid :: "NodeStageVolumeRequest \<Rightarrow> bool" where
  "stage_invalid req \<longleftrightarrow> stage_VolumeId req = [] \<or> stage_StagingTargetPath req = []"

definition npublish_invalid :: "NodePublishVolumeRequest \<Rightarrow> bool" where
  "npublish_invalid req \<longleftrightarrow> npub_VolumeId req = [] \<or> npub_TargetPath req = [] \<or>
     npub_VolumeCapability req = None \<or> npub_StagingTargetPath req = []"

definition ids_invalid :: "string \<times> string \<Rightarrow> bool" where
  "ids_invalid req \<longleftrightarrow> fst req = [] \<or> snd req = []"

interpretation stage_rpc: rpc_handler "NodeStageVolume os c" stage_invalid "{InvalidArgument}"
  by unfold_locales (auto simp: NodeStageVolume_def stage_invalid_def Let_def failE_def)

interpretation npublish_rpc: rpc_handler "NodePublishVolume os c" npublish_invalid "{InvalidArgument, FailedPrecondition}"
  by unfold_locales (auto simp: NodePublishVolume_def npublish_invalid_def Let_def failE_def)

interpretation unstage_rpc: rpc_handler "NodeUnstageVolume os c" ids_invalid "{InvalidArgument}"
  by unfold_locales (auto simp: NodeUnstageVolume_def ids_invalid_def Let_def failE_def)

interpretation nunpublish_rpc: rpc_handler "NodeUnpublishVolume os c" ids_invalid "{InvalidArgument}"
  by unfold_locales (auto simp: NodeUnpublishVolume_def ids_invalid_def Let_def failE_def)

interpretation nexpand_rpc: rpc_handler "NodeExpandVolume os c" "\<lambda>v. v = []" "{InvalidArgument}"
  by unfold_locales (simp add: NodeExpandVolume_def failE_def)

text \<open>
  Requests the node's guards reject have no effect: they can be left out of any sequence of
  requests to a method, and the node ends in the same state.
\<close>

lemma node_drops_invalid:
  "fold (\<lambda>req w. snd (NodeStageVolume os c req w)) sreqs w =
     fold (\<lambda>req w. snd (NodeStageVolume os c req w)) (filter (\<lambda>r. \<not> stage_invalid r) sreqs) w \<and>
   fold (\<lambda>req w. snd (NodePublishVolume os c req w)) preqs w =
     fold (\<lambda>req w. snd (NodePublishVolume os c req w)) (filter (\<lambda>r. \<not> npublish_invalid r) preqs) w \<and>
   fold (\<lambda>req w. snd (NodeUnstageVolume os c req w)) ureqs w =
     fold (\<lambda>req w. snd (NodeUnstageVolume os c req w)) (filter (\<lambda>r. \<not> ids_invalid r) ureqs) w \<and>
   fold (\<lambda>req w. snd (NodeUnpublishVolume os c req w)) ureqs w =
     fold (\<lambda>req w. snd (NodeUnpublishVolume os c req w)) (filter (\<lambda>r. \<not> ids_invalid r) ureqs) w \<and>
   fold (\<lambda>v w. snd (NodeExpandVolume os c v w)) vs w =
     fold (\<lambda>v w. snd (NodeExpandVolume os c v w)) (filter (\<lambda>v. v \<noteq> []) vs) w"
  by (intro conjI)
     (rule stage_rpc.fold_drops_invalid npublish_rpc.fold_drops_invalid unstage_rpc.fold_drops_invalid
        nunpublish_rpc.fold_drops_invalid nexpand_rpc.fold_drops_invalid)+

section \<open>Registration\<close>

text \<open>The retried write of the node's entry: a success leaves the entry stored.\<close>

definition entry_stored ::
    "('w \<Rightarrow> string \<Rightarrow> ConfigMap option) \<Rightarrow> 'w nodeMap \<Rightarrow> string \<Rightarrow> NodeEntry \<Rightarrow> 'w world \<Rightarrow> bool" where
  "entry_stored view m key e w \<longleftrightarrow>
     (\<exists>cm. view (ext w) (nm_name m) = Some cm \<and> entries cm key = Some (MarshalNodeEntry e))"

lemma Put_entry_stored:
  assumes "configmap_contract (nm_client m) view later" and "Put m key e w = (Ret (), w')"
  shows "entry_stored view m key e w'"
proof -
  from Put_stored [OF assms(2,1)] obtain old new where "view (ext w') (nm_name m) = Some new"
    "entries new = (entries old)(key \<mapsto> MarshalNodeEntry e)" .
  then show ?thesis by (simp add: entry_stored_def)
qed

lemma register_stored:
  assumes con: "configmap_contract (nm_client (cfg_NodeMap c)) view later"
    and run: "registerNodeEntry os c w = (Ret (), w')"
  obtains ip where "os_LookupEnv os ''NODE_IP'' (ext w) = Some ip"
    "entry_stored view (cfg_NodeMap c) (NodeID c) (registeredEntry c ip) w'"
proof -
  from run obtain ip w1 where ip: "os_LookupEnv os ''NODE_IP'' (ext w) = Some ip"
    and retry: "Retry os (Put (cfg_NodeMap c) (NodeID c) (registeredEntry c ip)) 5 (Millisecond * 500) w1 = (Ret (), w')"
    by (auto simp: registerNodeEntry_def getNodeIP_def LookupEnvE_def bindE_Ret returnE_Ret failE_Ret split: option.splits)
  have put: "retriable os (Put (cfg_NodeMap c) (NodeID c) (registeredEntry c ip)) (\<lambda>_. True)
      (entry_stored view (cfg_NodeMap c) (NodeID c) (registeredEntry c ip))"
    by unfold_locales (auto intro: Put_entry_stored [OF con])
  show thesis by (rule that [OF ip retriable.retry_establishes [OF put _ _ retry]]) simp_all
qed

end
