(* ===== verification/Controller.thy ===== *)
theory Controller
  imports Driver_Config
begin

text \<open>
  \<open>pkg/driver/controller.go\<close>: the controller service.  Every handler is the sequence of checks
  and calls of its Go method; \<open>os\<close> is the operating system (clock, network, Unicode tables),
  \<open>c\<close> the server's configuration.  The server's key mutex appears as the events \<open>EvLockKey\<close>
  and \<open>EvUnlockKey\<close>, the deferred unlock as \<open>deferE\<close>.
\<close>

section \<open>Waiting for a task\<close>

definition checkTaskFinished :: "Task option \<Rightarrow> int res" where
  "checkTaskFinished task =
     (case task of
        None \<Rightarrow> Panic
      | Some t \<Rightarrow>
          (case Status t of
             None \<Rightarrow> Panic
           | Some TaskStatusSUCCESSED \<Rightarrow> Ret 0
           | Some TaskStatusFAILED \<Rightarrow> Ret 1
           | Some _ \<Rightarrow> Ret (-1)))"

text \<open>One round of the loop: \<open>None\<close> goes on, \<open>Some ()\<close> returns nil.\<close>

definition waitRound :: "'w os \<Rightarrow> 'w DriverConfig \<Rightarrow> string \<Rightarrow> int \<Rightarrow> ('w, unit option) io" where
  "waitRound os c i start =
     bindE (GetTasks c i) (\<lambda>tasks.
     if \<not> (length tasks > 0) then
       bindE (SleepE os (5 * Second)) (\<lambda>_.
       bindE (NowE os) (\<lambda>now.
       if now - start > 1 * Minute then failE (Errorf ''task %s not found after 1 minute'' [AStr i])
       else returnE None))
     else
       bindE (index0E tasks) (\<lambda>t.
       bindE (liftR (checkTaskFinished t)) (\<lambda>k.
       if k \<ge> 0 then
         bindE (derefE t) (\<lambda>t.
         bindE (derefE (Status t)) (\<lambda>st.
         if st = TaskStatusFAILED then failE (Errorf ''task %s failed'' [AStr i])
         else returnE (Some ())))
       else
         bindE (SleepE os (5 * Second)) (\<lambda>_.
         bindE (NowE os) (\<lambda>now.
         if now - start > 10 * Minute then failE (Errorf ''task %s timeout'' [AStr i])
         else returnE None)))))"

definition waitTask :: "'w os \<Rightarrow> 'w DriverConfig \<Rightarrow> string option \<Rightarrow> ('w, unit) io" where
  "waitTask os c taskID =
     (case taskID of
        None \<Rightarrow> returnE ()
      | Some i \<Rightarrow> bindE (NowE os) (\<lambda>start. forE (waitRound os c i start)))"

section \<open>Volumes and labels\<close>

definition getVolume :: "'w DriverConfig \<Rightarrow> string \<Rightarrow> ('w, VMVolume option) io" where
  "getVolume c volumeID =
     bindE (GetVMVolumes c (VolumeWhereID volumeID)) (\<lambda>payload.
     if length payload < 1
     then failE (Errorf ''unable to get volume with ID %v'' [AStr volumeID])
     else index0E payload)"

definition createVmVolume ::
    "'w os \<Rightarrow> 'w DriverConfig \<Rightarrow> string \<Rightarrow> string \<Rightarrow> StoragePolicyType \<Rightarrow> uint64 \<Rightarrow> bool
     \<Rightarrow> ('w, VMVolume option) io" where
  "createVmVolume os c clusterLocalID name storagePolicy sz sharing =
     bindE (GetVMVolumes c (VolumeWhereName name)) (\<lambda>payload.
     if length payload > 0 then index0E payload
     else
       bindE (GetClusters c clusterLocalID) (\<lambda>clusters.
       if length clusters = 0
       then failE (StatusErr InvalidArgument ''failed to get cluster with local id: %v'' [AStr clusterLocalID])
       else
         bindE (first_of clusters) (\<lambda>cluster.
         bindE (CreateVMVolume c \<lparr>cp_ClusterID = cluster_ID cluster, cp_ElfStoragePolicy = storagePolicy,
                 cp_Size = sz, cp_Name = name, cp_Sharing = sharing\<rparr>) (\<lambda>created.
         bindE (first_of created) (\<lambda>withTaskVMVolume.
         bindE (waitTask os c (wtv_TaskID withTaskVMVolume)) (\<lambda>_.
         returnE (wtv_Data withTaskVMVolume)))))))"

definition defaultClusterLabelKey :: string where
  "defaultClusterLabelKey = ''k8s-cluster-id''"

definition upsertLabel :: "'w DriverConfig \<Rightarrow> string \<Rightarrow> string \<Rightarrow> ('w, Label option) io" where
  "upsertLabel c key value =
     bindE (GetLabels c key value) (\<lambda>payload.
     if length payload > 0 then index0E payload
     else
       bindE (CreateLabel c key value) (\<lambda>created.
       if length created = 0
       then failE (Errorf ''create label for key %s value %s failed'' [AStr key, AStr value])
       else bindE (first_of created) (\<lambda>l. returnE (wtl_Data l))))"

definition addVolumeLabels ::
    "'w os \<Rightarrow> 'w DriverConfig \<Rightarrow> string \<Rightarrow> string list \<Rightarrow> ('w, unit) io" where
  "addVolumeLabels os c volumeID labels =
     bindE (AddLabelsToResources c labels volumeID) (\<lambda>payload.
     if length payload = 0 then failE (Errorf ''add label to volume %s failed'' [AStr volumeID])
     else bindE (first_of payload) (\<lambda>t. waitTask os c (TaskID t)))"

text \<open>The loop over the volume's labels: whether one of them is the cluster's.\<close>

fun labelAttached :: "NestedRef option list \<Rightarrow> Label option \<Rightarrow> ('w, bool) io" where
  "labelAttached [] label = returnE False"
| "labelAttached (l # ls) label =
     bindE (derefE l) (\<lambda>l'.
     bindE (derefE (ref_ID l')) (\<lambda>i.
     bindE (derefE label) (\<lambda>lb.
     bindE (derefE (label_ID lb)) (\<lambda>j.
     if i = j then returnE True else labelAttached ls label))))"

definition reconcileVolumeLabel :: "'w os \<Rightarrow> 'w DriverConfig \<Rightarrow> VMVolume \<Rightarrow> ('w, unit) io" where
  "reconcileVolumeLabel os c vmVolume =
     bindE (wrapE (\<lambda>err. StatusErr Internal ''upsert volume label for cluster %s failed'' [AStr (ClusterID c)])
             (upsertLabel c defaultClusterLabelKey (ClusterID c))) (\<lambda>label.
     bindE (labelAttached (Labels vmVolume) label) (\<lambda>found.
     if found then returnE ()
     else
       bindE (derefE (ID vmVolume)) (\<lambda>vid.
       bindE (derefE label) (\<lambda>lb.
       bindE (derefE (label_ID lb)) (\<lambda>lid.
       wrapE (\<lambda>err. StatusErr Internal ''add volume label for volume %s failed'' [AStr vid])
         (addVolumeLabels os c vid [lid]))))))"

section \<open>CreateVolume, DeleteVolume\<close>

definition CreateVolume :: "'w os \<Rightarrow> 'w DriverConfig \<Rightarrow> CreateVolumeRequest \<Rightarrow> ('w, Volume) io" where
  "CreateVolume os c req =
     (let volumeName = ToLower (os_unicode os) (create_Name req) in
      if volumeName = [] then failE (StatusErr InvalidArgument ''volume name is empty'' [])
      else
        bindE (liftR (getVolumeSize (create_CapacityRange req))) (\<lambda>sz.
        let params = create_Parameters req;
            clusterLocalId = (case params ''elfCluster'' of None \<Rightarrow> [] | Some s \<Rightarrow> s);
            sp = getStoragePolicy params in
        bindE (liftR (checkNeedSharing (create_VolumeCapabilities req))) (\<lambda>sharing.
        bindE (createVmVolume os c clusterLocalId volumeName sp sz sharing) (\<lambda>p.
        bindE (derefE p) (\<lambda>vmVolume.
        bindE (reconcileVolumeLabel os c vmVolume) (\<lambda>_.
        bindE (derefE (ID vmVolume)) (\<lambda>vid.
        bindE (derefE (Size vmVolume)) (\<lambda>capacity.
        returnE \<lparr>vol_VolumeId = vid, vol_CapacityBytes = capacity,
                 vol_ContentSource = create_ContentSource req,
                 vol_VolumeContext = create_Parameters req\<rparr>))))))))"

definition DeleteVolume :: "'w os \<Rightarrow> 'w DriverConfig \<Rightarrow> string \<Rightarrow> ('w, unit) io" where
  "DeleteVolume os c volumeID =
     (if volumeID = [] then failE (StatusErr InvalidArgument ''volumeId is empty'' [])
      else
        bindE (wrapE (\<lambda>err. StatusErr Internal ''failed to find volume %v, %v'' [AStr volumeID, AErr err])
                (getVolume c volumeID)) (\<lambda>p.
        bindE (derefE p) (\<lambda>volume.
        if Mounting volume = Some True
        then failE (StatusErr FailedPrecondition ''volume %v is in use'' [AStr volumeID])
        else
          bindE (wrapE (\<lambda>err. StatusErr Internal ''failed to delete volume %v, %v'' [AStr volumeID, AErr err])
                  (DeleteVMVolumeFromVM c volumeID)) (\<lambda>deleted.
          bindE (first_of deleted) (\<lambda>t.
          wrapE (\<lambda>err. StatusErr Internal ''delete volume %v task failed, %v'' [AStr volumeID, AErr err])
            (waitTask os c (TaskID t)))))))"

section \<open>Publishing\<close>

definition canPublishToNode :: "'w os \<Rightarrow> string \<Rightarrow> ('w, unit) io" where
  "canPublishToNode os nodeAddr =
     bindE (wrapE (\<lambda>err. StatusErr Internal ''failed to connect to %v, %v'' [AStr nodeAddr, AErr err])
             (callE (EvDial nodeAddr) (os_Dial os nodeAddr))) (\<lambda>_.
     deferE (emitE (EvRpcClose nodeAddr))
       (bindE (wrapE (\<lambda>err. StatusErr Internal ''failed to call %v NodeLiveness.Liveness, %v''
                              [AStr nodeAddr, AErr err])
                (callE (EvRpcCall nodeAddr) (os_Liveness os nodeAddr))) (\<lambda>health.
        if \<not> health
        then failE (StatusErr FailedPrecondition ''can't publish volume to a unhealth node, %+v'' [ABool health])
        else returnE ())))"

definition publishVolumeToVm :: "'w os \<Rightarrow> 'w DriverConfig \<Rightarrow> string \<Rightarrow> string \<Rightarrow> ('w, unit) io" where
  "publishVolumeToVm os c volumeID nodeName =
     bindE (GetVMVolumes c (VolumeWhereID volumeID)) (\<lambda>payload.
     if length payload < 1 then failE (Errorf ''unable to get volume: %v'' [AStr volumeID])
     else
       bindE (first_of payload) (\<lambda>volume.
       if length (VMDisks volume) > 0 then returnE ()
       else
         bindE (derefE (Mounting volume)) (\<lambda>mounting.
         if mounting then returnE ()
         else
           bindE (GetVms c nodeName) (\<lambda>vms.
           if length vms < 1 then failE (Errorf ''unable to get VM: %v'' [AStr nodeName])
           else
             bindE (first_of vms) (\<lambda>vm.
             bindE (AddVMDisk c nodeName
                     \<lparr>md_Index = 0, md_VMVolumeID = volumeID,
                      md_Boot = of_nat (length (vm_VMDisks vm) + 1), md_Bus = BusVIRTIO\<rparr>) (\<lambda>updated.
             bindE (first_of updated) (\<lambda>t.
             waitTask os c (TaskID t))))))))"

definition nodeAddress :: "NodeEntry \<Rightarrow> string" where
  "nodeAddress e = NodeIP e @ '':'' @ itoa (LivenessPort e)"

definition ControllerPublishVolume ::
    "'w os \<Rightarrow> 'w DriverConfig \<Rightarrow> ControllerPublishVolumeRequest \<Rightarrow> ('w, unit) io" where
  "ControllerPublishVolume os c req =
     (let volumeID = cpub_VolumeId req; nodeName = cpub_NodeId req in
      if volumeID = [] then failE (StatusErr InvalidArgument ''volumeId is empty'' [])
      else if cpub_Readonly req
      then failE (StatusErr InvalidArgument ''not support publish volume read only'' [])
      else if nodeName = [] then failE (StatusErr InvalidArgument ''nodeId is empty'' [])
      else if cpub_VolumeCapability req = None
      then failE (StatusErr InvalidArgument ''volumeCapability is empty'' [])
      else
        bindE (Get (cfg_NodeMap c) nodeName) (\<lambda>nodeEntry.
        bindE (canPublishToNode os (nodeAddress nodeEntry)) (\<lambda>_.
        bindE (emitE (EvLockKey nodeName)) (\<lambda>_.
        deferE (emitE (EvUnlockKey nodeName))
          (publishVolumeToVm os c volumeID nodeName)))))"

definition unpublishVolumeFromVm :: "'w os \<Rightarrow> 'w DriverConfig \<Rightarrow> string \<Rightarrow> string \<Rightarrow> ('w, unit) io" where
  "unpublishVolumeFromVm os c volumeID nodeName =
     bindE (GetVMDisks c nodeName volumeID) (\<lambda>payload.
     if length payload < 1 then returnE ()
     else
       bindE (first_of payload) (\<lambda>disk.
       if disk_ID disk = None \<or> disk_ID disk = Some []
       then failE (Errorf ''unable to get disk ID from API in VM %v with volume %v'' [AStr nodeName, AStr volumeID])
       else
         bindE (derefE (disk_ID disk)) (\<lambda>diskId.
         bindE (RemoveVMDisk c nodeName [diskId]) (\<lambda>updated.
         bindE (first_of updated) (\<lambda>t.
         waitTask os c (TaskID t))))))"

definition ControllerUnpublishVolume ::
    "'w os \<Rightarrow> 'w DriverConfig \<Rightarrow> ControllerUnpublishVolumeRequest \<Rightarrow> ('w, unit) io" where
  "ControllerUnpublishVolume os c req =
     (let volumeID = cunpub_VolumeId req; nodeName = cunpub_NodeId req in
      if volumeID = [] then failE (StatusErr InvalidArgument ''volumeId is empty'' [])
      else if nodeName = [] then failE (StatusErr InvalidArgument ''nodeId is empty'' [])
      else
        bindE (emitE (EvLockKey nodeName)) (\<lambda>_.
        deferE (emitE (EvUnlockKey nodeName))
          (unpublishVolumeFromVm os c volumeID nodeName)))"

section \<open>Validation, expansion, capabilities\<close>

definition ValidateVolumeCapabilities ::
    "'w DriverConfig \<Rightarrow> ValidateVolumeCapabilitiesRequest \<Rightarrow> ('w, Confirmed) io" where
  "ValidateVolumeCapabilities c req =
     (let volumeID = val_VolumeId req in
      if volumeID = [] then failE (StatusErr InvalidArgument ''volumeId is empty'' [])
      else
        bindE (liftR (checkVolumeCapabilities (val_VolumeCapabilities req))) (\<lambda>_.
        bindE (wrapE (\<lambda>err. StatusErr Internal ''failed to find volume %v, %v'' [AStr volumeID, AErr err])
                (getVolume c volumeID)) (\<lambda>_.
        returnE \<lparr>conf_VolumeContext = val_VolumeContext req,
                 conf_VolumeCapabilities = val_VolumeCapabilities req,
                 conf_Parameters = val_Parameters req\<rparr>)))"

definition expandVolume :: "string \<Rightarrow> int64 \<Rightarrow> ('w, unit) io" where
  "expandVolume volumeID newSize = returnE ()"

definition ControllerExpandVolume ::
    "'w DriverConfig \<Rightarrow> ControllerExpandVolumeRequest \<Rightarrow> ('w, ControllerExpandVolumeResponse) io" where
  "ControllerExpandVolume c req =
     (let volumeID = cexp_VolumeId req in
      if volumeID = [] then failE (StatusErr InvalidArgument ''volume id is empty'' [])
      else if cexp_CapacityRange req = None
      then failE (StatusErr InvalidArgument ''capacity range is empty'' [])
      else
        bindE (if cexp_VolumeCapability req \<noteq> None
               then liftR (checkVolumeCapabilities [cexp_VolumeCapability req]) else returnE ()) (\<lambda>_.
        bindE (liftR (getVolumeSize (cexp_CapacityRange req))) (\<lambda>newSize.
        bindE (wrapE (\<lambda>err. StatusErr Internal ''failed to find volume %v, %v'' [AStr volumeID, AErr err])
                (getVolume c volumeID)) (\<lambda>p.
        bindE (derefE p) (\<lambda>volume.
        bindE (derefE (Size volume)) (\<lambda>uSize.
        bindE (if uSize < newSize
               then wrapE (\<lambda>err. StatusErr Internal ''failed to update volume %v size, %v'' [AStr volumeID, AErr err])
                      (expandVolume volumeID newSize)
               else returnE ()) (\<lambda>_.
        returnE \<lparr>cexp_CapacityBytes = uSize, cexp_NodeExpansionRequired = True\<rparr>)))))))"

definition ControllerGetCapabilities :: "('w, ControllerCapability list) io" where
  "ControllerGetCapabilities =
     returnE [CREATE_DELETE_VOLUME, PUBLISH_UNPUBLISH_VOLUME, CREATE_DELETE_SNAPSHOT,
              CTRL_EXPAND_VOLUME, CLONE_VOLUME]"

definition ListVolumes :: "('w, unit) io" where
  "ListVolumes = failE (StatusErr Unimplemented ''unimplemented'' [])"

definition ControllerGetVolume :: "('w, unit) io" where
  "ControllerGetVolume = failE (StatusErr Unimplemented ''unimplemented'' [])"

definition GetCapacity :: "('w, unit) io" where
  "GetCapacity = failE (StatusErr Unimplemented ''unimplemented'' [])"

definition ListSnapshots :: "('w, unit) io" where
  "ListSnapshots = failE (StatusErr Unimplemented ''unimplemented'' [])"

text \<open>The two snapshot methods return a nil response and a nil error.\<close>

definition CreateSnapshot :: "('w, unit option) io" where
  "CreateSnapshot = returnE None"

definition DeleteSnapshot :: "('w, unit option) io" where
  "DeleteSnapshot = returnE None"

section \<open>Footprints\<close>

lemma emits_waitRound [emits_rules]:
  "P (EvGetTasks i) \<Longrightarrow> P (EvSleep (5 * Second)) \<Longrightarrow> P EvNow \<Longrightarrow> emits P (waitRound os c i start)"
  unfolding waitRound_def by (intro emits_rules)

lemma emits_waitTask [emits_rules]:
  "(\<And>i. P (EvGetTasks i)) \<Longrightarrow> P (EvSleep (5 * Second)) \<Longrightarrow> P EvNow \<Longrightarrow> emits P (waitTask os c t)"
  unfolding waitTask_def by (intro emits_rules)

lemma emits_getVolume [emits_rules]:
  "P (EvGetVMVolumes (VolumeWhereID v)) \<Longrightarrow> emits P (getVolume c v)"
  unfolding getVolume_def by (intro emits_rules)

lemma emits_upsertLabel [emits_rules]:
  "P (EvGetLabels k v) \<Longrightarrow> P (EvCreateLabel k v) \<Longrightarrow> emits P (upsertLabel c k v)"
  unfolding upsertLabel_def by (intro emits_rules)

lemma emits_addVolumeLabels [emits_rules]:
  "P (EvAddLabels ls v) \<Longrightarrow> (\<And>i. P (EvGetTasks i)) \<Longrightarrow> P (EvSleep (5 * Second)) \<Longrightarrow> P EvNow \<Longrightarrow>
   emits P (addVolumeLabels os c v ls)"
  unfolding addVolumeLabels_def by (intro emits_rules)

lemma emits_labelAttached [emits_rules]: "emits P (labelAttached ls label)"
  by (induction ls) (auto intro!: emits_rules)

lemma emits_reconcileVolumeLabel [emits_rules]:
  assumes "P (EvGetLabels defaultClusterLabelKey (ClusterID c))"
    and "P (EvCreateLabel defaultClusterLabelKey (ClusterID c))"
    and "\<And>ls v. P (EvAddLabels ls v)" and "\<And>i. P (EvGetTasks i)"
    and "P (EvSleep (5 * Second))" and "P EvNow"
  shows "emits P (reconcileVolumeLabel os c vol)"
  unfolding reconcileVolumeLabel_def by (intro emits_rules assms)

lemma emits_createVmVolume [emits_rules]:
  assumes "P (EvGetVMVolumes (VolumeWhereName n))" and "P (EvGetClusters cl)"
    and "\<And>i. P (EvCreateVMVolume \<lparr>cp_ClusterID = i, cp_ElfStoragePolicy = sp, cp_Size = sz,
            cp_Name = n, cp_Sharing = sh\<rparr>)"
    and "\<And>i. P (EvGetTasks i)" and "P (EvSleep (5 * Second))" and "P EvNow"
  shows "emits P (createVmVolume os c cl n sp sz sh)"
  unfolding createVmVolume_def by (intro emits_rules assms)

lemma emits_canPublishToNode [emits_rules]:
  "P (EvDial a) \<Longrightarrow> P (EvRpcCall a) \<Longrightarrow> P (EvRpcClose a) \<Longrightarrow> emits P (canPublishToNode os a)"
  unfolding canPublishToNode_def by (intro emits_rules)

lemma emits_publishVolumeToVm [emits_rules]:
  assumes "P (EvGetVMVolumes (VolumeWhereID v))" and "P (EvGetVms n)"
    and "\<And>b. P (EvAddVMDisk n \<lparr>md_Index = 0, md_VMVolumeID = v, md_Boot = b, md_Bus = BusVIRTIO\<rparr>)"
    and "\<And>i. P (EvGetTasks i)" and "P (EvSleep (5 * Second))" and "P EvNow"
  shows "emits P (publishVolumeToVm os c v n)"
  unfolding publishVolumeToVm_def by (intro emits_rules assms)

lemma emits_unpublishVolumeFromVm [emits_rules]:
  assumes "P (EvGetVMDisks n v)" and "\<And>d. P (EvRemoveVMDisk n [d])"
    and "\<And>i. P (EvGetTasks i)" and "P (EvSleep (5 * Second))" and "P EvNow"
  shows "emits P (unpublishVolumeFromVm os c v n)"
  unfolding unpublishVolumeFromVm_def by (intro emits_rules assms)

section \<open>Waiting for a task: facts\<close>

lemma checkTaskFinished_nonneg:
  "checkTaskFinished (Some t) = Ret k \<Longrightarrow> 0 \<le> k \<Longrightarrow> Status t \<noteq> Some TaskStatusFAILED \<Longrightarrow>
   Status t = Some TaskStatusSUCCESSED"
  by (auto simp: checkTaskFinished_def split: option.splits TaskStatus.splits)

text \<open>A round that returns nil saw the task succeed in the answer to its own query.\<close>

lemma waitRound_done:
  assumes "waitRound os c i start w = (Ret (Some u), w')"
  obtains t ts where "tc_GetTasks (TowerClient c) i (ext w) = (Inr (Some t # ts), ext w')"
    "Status t = Some TaskStatusSUCCESSED" "trace w' = trace w @ [EvGetTasks i]"
proof -
  from assms obtain tasks x where call: "tc_GetTasks (TowerClient c) i (ext w) = (Inr tasks, x)"
    and rest: "tasks \<noteq> []" "w' = w\<lparr>ext := x, trace := trace w @ [EvGetTasks i]\<rparr>"
    "\<exists>t. hd tasks = Some t \<and> Status t = Some TaskStatusSUCCESSED"
    by (auto simp: waitRound_def api_defs ret_iffs checkTaskFinished_def
        split: if_splits option.splits TaskStatus.splits)
  then show thesis using that by (cases tasks) auto
qed

text \<open>
  What the code assumes of time: the clock is monotonic, \<open>time.Now\<close> reads it, a pause takes at
  least its length, and a query of a task does not turn it back.
\<close>

definition clock_contract :: "'w os \<Rightarrow> 'w towerclient \<Rightarrow> ('w \<Rightarrow> int) \<Rightarrow> bool" where
  "clock_contract os tc clk \<longleftrightarrow>
     (\<forall>x t x'. os_Now os x = (t, x') \<longrightarrow> clk x \<le> t \<and> t \<le> clk x') \<and>
     (\<forall>d x. clk x + d \<le> clk (os_Sleep os d x)) \<and>
     (\<forall>i x r x'. tc_GetTasks tc i x = (r, x') \<longrightarrow> clk x \<le> clk x')"

text \<open>A round that goes on polled once, and at least five seconds passed, within the ten minutes.\<close>

lemma waitRound_again:
  assumes "waitRound os c i start w = (Ret None, w')" and "clock_contract os (TowerClient c) clk"
  shows "trace w' = trace w @ [EvGetTasks i, EvSleep (5 * Second), EvNow]"
    and "clk (ext w) + 5 * Second \<le> clk (ext w')"
    and "clk (ext w) + 5 * Second - start \<le> 10 * Minute"
proof -
  from assms(1) obtain tasks x t x' where call: "tc_GetTasks (TowerClient c) i (ext w) = (Inr tasks, x)"
    "os_Now os (os_Sleep os (5 * Second) x) = (t, x')"
    and w': "ext w' = x'" "trace w' = trace w @ [EvGetTasks i, EvSleep (5 * Second), EvNow]"
    and t: "t - start \<le> 10 * Minute"
    by (auto simp: waitRound_def GetTasks_def ret_iffs checkTaskFinished_def Minute_def Second_def
        Millisecond_def split: if_splits option.splits TaskStatus.splits prod.splits)
  from assms(2) call have "clk (ext w) \<le> clk x" "clk x + 5 * Second \<le> clk (os_Sleep os (5 * Second) x)"
    "clk (os_Sleep os (5 * Second) x) \<le> t" "t \<le> clk x'"
    unfolding clock_contract_def by blast+
  with w' t show "clk (ext w) + 5 * Second \<le> clk (ext w')"
    "clk (ext w) + 5 * Second - start \<le> 10 * Minute" by simp_all
  show "trace w' = trace w @ [EvGetTasks i, EvSleep (5 * Second), EvNow]" by (rule w')
qed

lemma waitRound_rounds:
  assumes clk: "clock_contract os (TowerClient c) clk"
    and run: "run_rounds n (waitRound os c i start) w = Some w1"
  shows "n = 0 \<or> clk (ext w) + int n * (5 * Second) - start \<le> 10 * Minute"
proof -
  let ?I = "\<lambda>n u. clk (ext w) + int n * (5 * Second) \<le> clk (ext u) \<and>
    (n = 0 \<or> clk (ext w) + int n * (5 * Second) - start \<le> 10 * Minute)"
  have "?I (0 + n) w1"
  proof (rule run_rounds_induct [OF run, where I = ?I])
    fix n u u'
    assume I: "?I n u" and round: "waitRound os c i start u = (Ret None, u')"
    have "int (Suc n) * (5 * Second) = int n * (5 * Second) + 5 * Second" by (simp add: algebra_simps)
    with I waitRound_again(2,3) [OF round clk] show "?I (Suc n) u'" by linarith
  qed simp
  then show ?thesis by simp
qed

lemma waitRound_bounded:
  assumes "clock_contract os (TowerClient c) clk"
    and "start + 10 * Minute < clk (ext w) + int (Suc n) * (5 * Second)"
  shows "run_rounds (Suc n) (waitRound os c i start) w = None"
proof (cases "run_rounds (Suc n) (waitRound os c i start) w")
  case (Some w1)
  from waitRound_rounds [OF assms(1) this] assms(2) show ?thesis by simp
qed

lemma waitRound_polls_once: "at_most (\<lambda>e. e = EvGetTasks j) 1 (waitRound os c i start)"
proof -
  have "at_most (\<lambda>e. e = EvGetTasks j) 1 (GetTasks c i)"
    unfolding GetTasks_def by (rule at_most_callE) simp
  then show ?thesis unfolding waitRound_def
    by (rule at_most_after) (auto intro!: emits_rules)
qed

section \<open>Answers of CloudTower\<close>

text \<open>
  The shape of the answers the handlers rely on when they dereference without a test: entries
  and the fields the API declares non-null are set, and a request that changes something is
  answered with the object it is about.
\<close>

definition volume_wf :: "VMVolume option \<Rightarrow> bool" where
  "volume_wf p = (case p of None \<Rightarrow> False
     | Some v \<Rightarrow> ID v \<noteq> None \<and> Size v \<noteq> None \<and> Mounting v \<noteq> None \<and>
         list_all (\<lambda>l. case l of None \<Rightarrow> False | Some r \<Rightarrow> ref_ID r \<noteq> None) (Labels v))"

definition label_wf :: "Label option \<Rightarrow> bool" where
  "label_wf p = (case p of None \<Rightarrow> False | Some l \<Rightarrow> label_ID l \<noteq> None)"

definition answers :: "('w, 'a list) ext_fun \<Rightarrow> ('a list \<Rightarrow> bool) \<Rightarrow> bool" where
  "answers f Q \<longleftrightarrow> (\<forall>x a x'. f x = (Inr a, x') \<longrightarrow> Q a)"

definition non_nil :: "'a option list \<Rightarrow> bool" where
  "non_nil xs = list_all (\<lambda>p. p \<noteq> None) xs"

definition tower_wf :: "'w towerclient \<Rightarrow> bool" where
  "tower_wf tc \<longleftrightarrow>
     (\<forall>q. answers (tc_GetVMVolumes tc q) (list_all volume_wf)) \<and>
     (\<forall>p. answers (tc_CreateVMVolume tc p)
            (\<lambda>r. r \<noteq> [] \<and> list_all (\<lambda>o'. case o' of None \<Rightarrow> False | Some t \<Rightarrow> volume_wf (wtv_Data t)) r)) \<and>
     (\<forall>v. answers (tc_DeleteVMVolumeFromVM tc v) (\<lambda>r. r \<noteq> [] \<and> non_nil r)) \<and>
     (\<forall>l. answers (tc_GetClusters tc l) non_nil) \<and>
     (\<forall>n. answers (tc_GetVms tc n) non_nil) \<and>
     (\<forall>n p. answers (tc_AddVMDisk tc n p) (\<lambda>r. r \<noteq> [] \<and> non_nil r)) \<and>
     (\<forall>n ds. answers (tc_RemoveVMDisk tc n ds) (\<lambda>r. r \<noteq> [] \<and> non_nil r)) \<and>
     (\<forall>n v. answers (tc_GetVMDisks tc n v) non_nil) \<and>
     (\<forall>i. answers (tc_GetTasks tc i) (list_all (\<lambda>p. case p of None \<Rightarrow> False | Some t \<Rightarrow> Status t \<noteq> None))) \<and>
     (\<forall>k v. answers (tc_GetLabels tc k v) (list_all label_wf)) \<and>
     (\<forall>k v. answers (tc_CreateLabel tc k v)
            (list_all (\<lambda>p. case p of None \<Rightarrow> False | Some t \<Rightarrow> label_wf (wtl_Data t)))) \<and>
     (\<forall>ls v. answers (tc_AddLabelsToResources tc ls v) non_nil)"

lemma yields_answers: "answers f Q \<Longrightarrow> yields Q (callE ev f)"
  unfolding answers_def by (rule yields_callE) blast

lemma yields_tower:
  assumes "tower_wf (TowerClient c)"
  shows "yields (list_all volume_wf) (GetVMVolumes c q)"
    and "yields (\<lambda>r. r \<noteq> [] \<and> list_all (\<lambda>o'. case o' of None \<Rightarrow> False | Some t \<Rightarrow> volume_wf (wtv_Data t)) r)
           (CreateVMVolume c p)"
    and "yields (\<lambda>r. r \<noteq> [] \<and> non_nil r) (DeleteVMVolumeFromVM c v)"
    and "yields non_nil (GetClusters c l)"
    and "yields non_nil (GetVms c n)"
    and "yields (\<lambda>r. r \<noteq> [] \<and> non_nil r) (AddVMDisk c n md)"
    and "yields (\<lambda>r. r \<noteq> [] \<and> non_nil r) (RemoveVMDisk c n ds)"
    and "yields non_nil (GetVMDisks c n v)"
    and "yields (list_all (\<lambda>p. case p of None \<Rightarrow> False | Some t \<Rightarrow> Status t \<noteq> None)) (GetTasks c i)"
    and "yields (list_all label_wf) (GetLabels c k v)"
    and "yields (list_all (\<lambda>p. case p of None \<Rightarrow> False | Some t \<Rightarrow> label_wf (wtl_Data t))) (CreateLabel c k v)"
    and "yields non_nil (AddLabelsToResources c ls v)"
  unfolding api_defs by (rule yields_answers, use assms in \<open>simp add: tower_wf_def\<close>)+

lemma hd_non_nil: "non_nil xs \<Longrightarrow> xs \<noteq> [] \<Longrightarrow> \<exists>a. hd xs = Some a"
  by (cases xs) (auto simp: non_nil_def)

lemma hd_list_all: "list_all Q xs \<Longrightarrow> xs \<noteq> [] \<Longrightarrow> Q (hd xs)"
  by (cases xs) simp_all

end
