(* ===== verification/Controller_Correct.thy ===== *)
theory Controller_Correct
  imports Controller Rpc_Handler
begin

text \<open>
  Correctness of the controller service: every handler returns a response or an error (no nil
  dereference, no endless wait) when CloudTower answers in the documented shape and time passes;
  what each handler does to the storage platform on every branch; the lock discipline.
\<close>

section \<open>Handlers return or fail\<close>

text \<open>The environment of the service.\<close>

definition platform_ok :: "'w os \<Rightarrow> 'w towerclient \<Rightarrow> bool" where
  "platform_ok os tc \<longleftrightarrow> tower_wf tc \<and> (\<exists>clk. clock_contract os tc clk)"

lemma platform_tower: "platform_ok os tc \<Longrightarrow> tower_wf tc"
  by (simp add: platform_ok_def)

lemma yields_NowE [yields_rules]: "yields (\<lambda>_. True) (NowE os)"
  by (auto simp: yields_def NowE_def split: prod.splits)

lemma yields_SleepE [yields_rules]: "yields (\<lambda>_. True) (SleepE os d)"
  by (simp add: yields_def SleepE_def)

lemma yields_pause:
  "yields (\<lambda>_. True) (bindE (SleepE os d) (\<lambda>_. bindE (NowE os) (\<lambda>now. if b now then failE e else returnE None)))"
  by (intro yields_bindE [OF yields_SleepE] yields_bindE [OF yields_NowE] yields_rules) simp

lemma yields_waitRound:
  assumes "tower_wf (TowerClient c)"
  shows "yields (\<lambda>_. True) (waitRound os c i start)"
  unfolding waitRound_def
  apply (rule yields_bindE [OF yields_tower(9) [OF assms]])
  subgoal premises wf for tasks
  proof (cases tasks)
    case (Cons p ps)
    with wf obtain t st where "p = Some t" "Status t = Some st" by (auto split: option.splits)
    with Cons show ?thesis
      by (cases st) (auto simp: checkTaskFinished_def intro!: yields_pause yields_rules)
  qed (simp add: yields_pause)
  done

lemma yields_waitTask:
  assumes "platform_ok os (TowerClient c)"
  shows "yields (\<lambda>_. True) (waitTask os c t)"
proof (cases t)
  case (Some i)
  from assms obtain clk where wf: "tower_wf (TowerClient c)"
    and clk: "clock_contract os (TowerClient c) clk" by (auto simp: platform_ok_def)
  have bounded: "run_rounds (Suc (nat (start + 10 * Minute - clk (ext w)))) (waitRound os c i start) w = None"
    for start w
    by (rule waitRound_bounded [OF clk]) (auto simp: Second_def Millisecond_def)
  have round: "yields (\<lambda>r. case r of None \<Rightarrow> True | Some _ \<Rightarrow> True) (waitRound os c i start)" for start
    by (rule yields_weaken [OF yields_waitRound [OF wf]]) (simp split: option.splits)
  show ?thesis unfolding waitTask_def Some option.case
    by (rule yields_bindE [OF yields_NowE], rule yields_forE [OF bounded round])
qed (simp add: waitTask_def yields_rules)

lemma yields_getVolume:
  assumes "tower_wf (TowerClient c)"
  shows "yields volume_wf (getVolume c v)"
  unfolding getVolume_def
  apply (rule yields_bindE [OF yields_tower(1) [OF assms]])
  subgoal for payload by (cases payload) (auto intro!: yields_rules)
  done

lemma yields_upsertLabel:
  assumes "tower_wf (TowerClient c)"
  shows "yields label_wf (upsertLabel c k v)"
proof -
  have create: "yields label_wf (bindE (CreateLabel c k v) (\<lambda>created. if length created = 0
      then failE (Errorf ''create label for key %s value %s failed'' [AStr k, AStr v])
      else bindE (first_of created) (\<lambda>l. returnE (wtl_Data l))))"
    apply (rule yields_bindE [OF yields_tower(11) [OF assms]])
    subgoal for created by (cases created) (auto intro!: yields_rules split: option.splits)
    done
  show ?thesis unfolding upsertLabel_def
    apply (rule yields_bindE [OF yields_tower(10) [OF assms]])
    subgoal for payload using create by (cases payload) (auto intro!: yields_rules)
    done
qed

lemma yields_addVolumeLabels:
  assumes "platform_ok os (TowerClient c)"
  shows "yields (\<lambda>_. True) (addVolumeLabels os c v ls)"
  unfolding addVolumeLabels_def
  apply (rule yields_bindE [OF yields_tower(12) [OF platform_tower [OF assms]]])
  subgoal for payload
    by (cases payload) (auto simp: non_nil_def intro!: yields_rules yields_waitTask [OF assms])
  done

lemma yields_labelAttached:
  assumes "list_all (\<lambda>l. case l of None \<Rightarrow> False | Some r \<Rightarrow> ref_ID r \<noteq> None) ls" and "label_wf label"
  shows "yields (\<lambda>_. True) (labelAttached ls label)"
  using assms by (induction ls) (auto simp: label_wf_def intro!: yields_rules split: option.splits)

lemma yields_reconcileVolumeLabel:
  assumes ok: "platform_ok os (TowerClient c)" and vol: "volume_wf (Some v)"
  shows "yields (\<lambda>_. True) (reconcileVolumeLabel os c v)"
  unfolding reconcileVolumeLabel_def
  apply (rule yields_bindE [OF yields_wrapE [OF yields_upsertLabel [OF platform_tower [OF ok]]]])
  apply (rule yields_bindE [OF yields_labelAttached])
  subgoal using vol unfolding volume_wf_def option.case by blast
  subgoal .
  subgoal using vol
    by (auto simp: volume_wf_def label_wf_def intro!: yields_rules yields_addVolumeLabels [OF ok]
        split: option.splits)
  done

lemma yields_createVmVolume:
  assumes ok: "platform_ok os (TowerClient c)"
  shows "yields volume_wf (createVmVolume os c cl n sp sz sh)"
proof -
  note wf = yields_tower [OF platform_tower [OF ok]]
  have wait: "yields volume_wf (bindE (waitTask os c t) (\<lambda>_. returnE d))" if "volume_wf d" for t d
    using that by (auto intro!: yields_bindE [OF yields_waitTask [OF ok]] yields_rules)
  have create: "yields volume_wf (bindE (CreateVMVolume c p) (\<lambda>created.
      bindE (first_of created) (\<lambda>t. bindE (waitTask os c (wtv_TaskID t)) (\<lambda>_. returnE (wtv_Data t)))))" for p
    apply (rule yields_bindE [OF wf(2)])
    subgoal for created by (cases created) (auto intro!: wait split: option.splits)
    done
  have clusters: "yields volume_wf (if length clusters = 0 then failE e
      else bindE (first_of clusters) (\<lambda>cluster. bindE (CreateVMVolume c (p cluster)) (\<lambda>created.
        bindE (first_of created) (\<lambda>t. bindE (waitTask os c (wtv_TaskID t)) (\<lambda>_. returnE (wtv_Data t))))))"
    if "non_nil clusters" for clusters e p
    using that by (cases clusters) (auto simp: non_nil_def intro!: yields_rules create)
  have payload: "yields volume_wf (if length payload > 0 then index0E payload else m)"
    if "list_all volume_wf payload" "yields volume_wf m" for payload m
    using that by (cases payload) (auto intro!: yields_rules)
  show ?thesis unfolding createVmVolume_def
    by (rule yields_bindE [OF wf(1)], erule payload, rule yields_bindE [OF wf(4)], erule clusters)
qed

section \<open>Checks of a request never panic\<close>

lemma getVolumeSize_returns: "getVolumeSize r \<noteq> Panic" "getVolumeSize r \<noteq> Diverge"
  by (rule getVolumeSize_cases [of r]; simp)+

lemma checkNeedSharing_returns: "checkNeedSharing cs \<noteq> Panic" "checkNeedSharing cs \<noteq> Diverge"
  by (induction cs) (auto split: option.splits)

lemma checkVolumeCapabilities_returns:
  "checkVolumeCapabilities cs \<noteq> Panic" "checkVolumeCapabilities cs \<noteq> Diverge"
  using checkCapabilityList_code [of cs] by (auto simp: checkVolumeCapabilities_def)

lemma getEntry_returns: "getEntry n d k \<noteq> Panic" "getEntry n d k \<noteq> Diverge"
  by (simp_all add: getEntry_def split: option.splits sum.splits)

lemmas checks_return = getVolumeSize_returns checkNeedSharing_returns
  checkVolumeCapabilities_returns getEntry_returns

lemma yields_Get: "yields (\<lambda>_. True) (Get m key)"
  unfolding Get_def
  by (rule yields_bindE [OF yields_wrapE [OF yields_callE_any]]) (simp add: yields_rules checks_return)

lemma yields_canPublishToNode: "yields (\<lambda>_. True) (canPublishToNode os a)"
  unfolding canPublishToNode_def
  by (rule yields_bindE [OF yields_wrapE [OF yields_callE_any]], rule yields_deferE,
      rule yields_bindE [OF yields_wrapE [OF yields_callE_any]]) (simp add: yields_rules)

section \<open>The handlers\<close>

lemma yields_CreateVolume:
  assumes ok: "platform_ok os (TowerClient c)"
  shows "yields (\<lambda>_. True) (CreateVolume os c req)"
proof -
  have reply: "yields (\<lambda>_. True) (bindE (derefE p) (\<lambda>v. bindE (reconcileVolumeLabel os c v) (\<lambda>_.
      bindE (derefE (ID v)) (\<lambda>vid. bindE (derefE (Size v)) (\<lambda>cap. returnE (f vid cap))))))"
    if wf: "volume_wf p" for p and f :: "string \<Rightarrow> int64 \<Rightarrow> Volume"
  proof -
    from wf obtain v i sz where v: "p = Some v" "ID v = Some i" "Size v = Some sz"
      by (auto simp: volume_wf_def split: option.splits)
    with wf show ?thesis
      by (simp add: yields_bindE [OF yields_reconcileVolumeLabel [OF ok]] yields_rules)
  qed
  show ?thesis unfolding CreateVolume_def Let_def
    by (intro yields_if yields_failE, rule yields_bindE [OF yields_liftR [OF TrueI]],
        (rule checks_return)+, rule yields_bindE [OF yields_liftR [OF TrueI]], (rule checks_return)+,
        rule yields_bindE [OF yields_createVmVolume [OF ok]], erule reply)
qed

lemma yields_DeleteVolume:
  assumes ok: "platform_ok os (TowerClient c)"
  shows "yields (\<lambda>_. True) (DeleteVolume os c v)"
proof -
  note wf = platform_tower [OF ok]
  have delete: "yields (\<lambda>_. True) (bindE (wrapE g (DeleteVMVolumeFromVM c v)) (\<lambda>deleted.
      bindE (first_of deleted) (\<lambda>t. wrapE h (waitTask os c (TaskID t)))))" for g h
    apply (rule yields_bindE [OF yields_wrapE [OF yields_tower(3) [OF wf]]])
    subgoal for deleted
      by (cases deleted) (auto simp: non_nil_def intro!: yields_wrapE yields_waitTask [OF ok])
    done
  show ?thesis unfolding DeleteVolume_def
    apply (intro yields_if yields_failE, rule yields_bindE [OF yields_wrapE [OF yields_getVolume [OF wf]]])
    subgoal for p by (cases p) (auto simp: volume_wf_def intro!: delete yields_rules)
    done
qed

lemma yields_publishVolumeToVm:
  assumes ok: "platform_ok os (TowerClient c)"
  shows "yields (\<lambda>_. True) (publishVolumeToVm os c v n)"
proof -
  note wf = yields_tower [OF platform_tower [OF ok]]
  have attach: "yields (\<lambda>_. True) (bindE (AddVMDisk c n p) (\<lambda>updated.
      bindE (first_of updated) (\<lambda>t. waitTask os c (TaskID t))))" for p
    apply (rule yields_bindE [OF wf(6)])
    subgoal for updated by (cases updated) (auto simp: non_nil_def intro!: yields_waitTask [OF ok])
    done
  have vms: "yields (\<lambda>_. True) (bindE (GetVms c n) (\<lambda>vms. if vms = [] then failE e
      else bindE (first_of vms) (\<lambda>vm. bindE (AddVMDisk c n (p vm)) (\<lambda>updated.
        bindE (first_of updated) (\<lambda>t. waitTask os c (TaskID t))))))" for e p
    apply (rule yields_bindE [OF wf(5)])
    subgoal for vms by (cases vms) (auto simp: non_nil_def intro!: attach yields_rules)
    done
  show ?thesis unfolding publishVolumeToVm_def
    apply (rule yields_bindE [OF wf(1)])
    subgoal for payload
      by (cases payload) (auto simp: volume_wf_def intro!: vms yields_rules split: option.splits)
    done
qed

lemma yields_unpublishVolumeFromVm:
  assumes ok: "platform_ok os (TowerClient c)"
  shows "yields (\<lambda>_. True) (unpublishVolumeFromVm os c v n)"
proof -
  note wf = yields_tower [OF platform_tower [OF ok]]
  have detach: "yields (\<lambda>_. True) (bindE (RemoveVMDisk c n ds) (\<lambda>updated.
      bindE (first_of updated) (\<lambda>t. waitTask os c (TaskID t))))" for ds
    apply (rule yields_bindE [OF wf(7)])
    subgoal for updated by (cases updated) (auto simp: non_nil_def intro!: yields_waitTask [OF ok])
    done
  show ?thesis unfolding unpublishVolumeFromVm_def
    apply (rule yields_bindE [OF wf(8)])
    subgoal for payload by (cases payload) (auto simp: non_nil_def intro!: detach yields_rules)
    done
qed

lemma yields_ControllerPublishVolume:
  assumes ok: "platform_ok os (TowerClient c)"
  shows "yields (\<lambda>_. True) (ControllerPublishVolume os c req)"
  unfolding ControllerPublishVolume_def Let_def
  by (intro yields_if yields_failE yields_bindE [OF yields_Get] yields_bindE [OF yields_canPublishToNode]
      yields_bindE [OF yields_emitE [OF TrueI]] yields_deferE yields_publishVolumeToVm [OF ok])

lemma yields_ControllerUnpublishVolume:
  assumes ok: "platform_ok os (TowerClient c)"
  shows "yields (\<lambda>_. True) (ControllerUnpublishVolume os c req)"
  unfolding ControllerUnpublishVolume_def Let_def
  by (intro yields_if yields_failE yields_bindE [OF yields_emitE [OF TrueI]] yields_deferE
      yields_unpublishVolumeFromVm [OF ok])

lemma yields_ValidateVolumeCapabilities:
  assumes ok: "tower_wf (TowerClient c)"
  shows "yields (\<lambda>_. True) (ValidateVolumeCapabilities c req)"
  unfolding ValidateVolumeCapabilities_def Let_def
  by (intro yields_if yields_failE yields_bindE [OF yields_liftR [OF TrueI]] checks_return
      yields_bindE [OF yields_wrapE [OF yields_getVolume [OF ok]]] yields_returnE TrueI)

lemma yields_ControllerExpandVolume:
  assumes ok: "tower_wf (TowerClient c)"
  shows "yields (\<lambda>_. True) (ControllerExpandVolume c req)"
  unfolding ControllerExpandVolume_def Let_def
  apply (intro yields_if yields_failE)
  apply (rule yields_bindE [where Q = "\<lambda>_. True"])
  subgoal by (auto intro!: yields_rules simp: checks_return)
  apply (rule yields_bindE [OF yields_liftR [OF TrueI]], (rule checks_return)+)
  apply (rule yields_bindE [OF yields_wrapE [OF yields_getVolume [OF ok]]])
  subgoal for _ _ p
    by (cases p) (auto simp: volume_wf_def expandVolume_def intro!: yields_rules)
  done

section \<open>Properties: waiting and returning\<close>

lemma demo_platform: "platform_ok demo_os demo_tower"
proof -
  have "tower_wf demo_tower"
    by (auto simp: tower_wf_def answers_def demo_tower_def demo_task_def demo_volume_def volume_wf_def
        label_wf_def non_nil_def split: VMVolumeWhereInput.splits)
  moreover have "clock_contract demo_os demo_tower d_clock"
    by (simp add: clock_contract_def demo_os_def demo_tower_def)
  ultimately show ?thesis by (auto simp: platform_ok_def)
qed

text \<open>
  C18: No request makes the controller service hang or crash: when CloudTower answers in the
  documented shape and time passes, every handler ends with a response or an error.
\<close>

theorem controller_handlers_return:
  assumes "platform_ok os (TowerClient c)"
  shows "fst (CreateVolume os c creq w) \<notin> {Panic, Diverge} \<and>
    fst (DeleteVolume os c v w) \<notin> {Panic, Diverge} \<and>
    fst (ControllerPublishVolume os c preq w) \<notin> {Panic, Diverge} \<and>
    fst (ControllerUnpublishVolume os c ureq w) \<notin> {Panic, Diverge} \<and>
    fst (ValidateVolumeCapabilities c vreq w) \<notin> {Panic, Diverge} \<and>
    fst (ControllerExpandVolume c ereq w) \<notin> {Panic, Diverge}"
  by (intro conjI; rule yields_orderly)
     (rule yields_CreateVolume [OF assms] yields_DeleteVolume [OF assms]
        yields_ControllerPublishVolume [OF assms] yields_ControllerUnpublishVolume [OF assms]
        yields_ValidateVolumeCapabilities [OF platform_tower [OF assms]]
        yields_ControllerExpandVolume [OF platform_tower [OF assms]])+

theorem controller_handlers_return_witness:
  "fst (DeleteVolume demo_os demo_config ''vol-1'' demo_world) \<notin> {Panic, Diverge}"
  using controller_handlers_return [of demo_os demo_config] demo_platform
  by (simp add: demo_config_def)

text \<open>
  \<open>waitTask\<close> returns nil only on success: its last call is a query of the task, answered with
  the status SUCCESSED.
\<close>

lemma waitTask_success:
  assumes "waitTask os c (Some i) w = (Ret (), w')"
  shows "\<exists>x t ts evs. tc_GetTasks (TowerClient c) i x = (Inr (Some t # ts), ext w') \<and>
    Status t = Some TaskStatusSUCCESSED \<and> trace w' = trace w @ evs @ [EvGetTasks i]"
proof -
  from assms obtain start w0 where start: "NowE os w = (Ret start, w0)"
    and loop: "forE (waitRound os c i start) w0 = (Ret (), w')" by (auto simp: waitTask_def ret_iffs)
  from loop obtain k w1 where rounds: "run_rounds k (waitRound os c i start) w0 = Some w1"
    "waitRound os c i start w1 = (Ret (Some ()), w')" by (rule forE_Ret)
  have "\<exists>evs. trace w1 = trace w @ evs"
  proof (rule run_rounds_induct [OF rounds(1), where I = "\<lambda>_ u. \<exists>evs. trace u = trace w @ evs"])
    show "\<exists>evs. trace w0 = trace w @ evs" using start by (auto simp: NowE_Ret)
  next
    fix n u u'
    assume "\<exists>evs. trace u = trace w @ evs" "waitRound os c i start u = (Ret None, u')"
    moreover obtain es where "trace (snd (waitRound os c i start u)) = trace u @ es"
      using emits_waitRound [of "\<lambda>_. True" i os c start] by (auto elim: emitsE)
    ultimately show "\<exists>evs. trace u' = trace w @ evs" by auto
  qed
  with waitRound_done [OF rounds(2)] show ?thesis by (metis append.assoc)
qed

lemma demo_wait:
  assumes "tc_GetTasks (TowerClient c) = tc_GetTasks demo_tower"
  shows "waitTask demo_os c (Some i) w = (Ret (), w\<lparr>trace := trace w @ [EvNow, EvGetTasks i]\<rparr>)"
  by (simp add: waitTask_def bindE_def NowE_def demo_os_def,
      rule forE_leave, simp add: waitRound_def GetTasks_def go_defs assms demo_defs checkTaskFinished_def)

lemma waitTask_success_witness:
  "\<exists>x t ts evs. tc_GetTasks demo_tower ''t'' x = (Inr (Some t # ts), demo_state) \<and>
    Status t = Some TaskStatusSUCCESSED \<and> [EvNow, EvGetTasks ''t''] = evs @ [EvGetTasks ''t'']"
  using waitTask_success [OF demo_wait [of demo_config "''t''" demo_world]]
  by (simp add: demo_world_def demo_config_def)

lemma waitRound_not_diverge: "fst (waitRound os c i start w) \<noteq> Diverge"
proof -
  have pause: "fst (bindE (SleepE os d) (\<lambda>_. bindE (NowE os)
      (\<lambda>now. if b now then failE e else returnE (None :: unit option))) w) \<notin> {Panic, Diverge}" for d b e w
    by (rule yields_orderly [OF yields_pause])
  show ?thesis
    by (auto simp: waitRound_def GetTasks_def bindE_def [of "callE _ _"] callE_def checkTaskFinished_def
        returnE_def failE_def panicE_def pause [simplified] index0E_def
        split: prod.splits sum.splits option.splits TaskStatus.splits list.splits)
qed

text \<open>
  C14: \<open>waitTask\<close> ends, after at most 121 queries of the task: with a pause of five seconds
  between them, the limit of ten minutes is passed then.
\<close>

theorem waitTask_bounded:
  assumes "clock_contract os (TowerClient c) clk"
  shows "fst (waitTask os c (Some i) w) \<noteq> Diverge \<and>
    (\<exists>evs. trace (snd (waitTask os c (Some i) w)) = trace w @ evs \<and>
       count_ev (\<lambda>e. e = EvGetTasks i) evs \<le> 121)"
proof -
  obtain start x where now: "os_Now os (ext w) = (start, x)" by fastforce
  let ?w = "w\<lparr>ext := x, trace := trace w @ [EvNow]\<rparr>"
  let ?m = "waitRound os c i start"
  have run: "waitTask os c (Some i) w = forE ?m ?w"
    using now by (simp add: waitTask_def bindE_def NowE_def)
  from assms now have "start \<le> clk (ext ?w)" by (auto simp: clock_contract_def)
  then have rounds: "run_rounds (Suc 120) ?m ?w = None"
    by (intro waitRound_bounded [OF assms]) (simp add: Minute_def Second_def Millisecond_def)
  from forE_counted [OF rounds waitRound_polls_once] obtain evs where
    "trace (snd (forE ?m ?w)) = trace ?w @ evs" "count_ev (\<lambda>e. e = EvGetTasks i) evs \<le> 121" by auto
  moreover have "fst (forE ?m ?w) \<noteq> Diverge"
  proof -
    from rounds obtain w1 where w1: "fst (?m w1) \<noteq> Ret None" "forE ?m ?w = forE ?m w1"
      by (rule forE_bounded)
    moreover have "fst (?m w1) \<noteq> Diverge" by (rule waitRound_not_diverge)
    ultimately show ?thesis by (simp add: forE_last_outcome)
  qed
  ultimately show ?thesis unfolding run by (intro conjI exI [of _ "EvNow # evs"]) simp_all
qed

theorem waitTask_bounded_witness:
  "fst (waitTask demo_os demo_config (Some ''t'') demo_world) \<noteq> Diverge \<and>
    (\<exists>evs. trace (snd (waitTask demo_os demo_config (Some ''t'') demo_world)) = trace demo_world @ evs \<and>
       count_ev (\<lambda>e. e = EvGetTasks ''t'') evs \<le> 121)"
  using waitTask_bounded [of demo_os demo_config d_clock "''t''" demo_world]
  by (simp add: demo_os_def demo_config_def demo_tower_def clock_contract_def)

section \<open>Properties: creating and deleting volumes\<close>

text \<open>The calls of \<open>CreateVolume\<close>, whatever the outcome.\<close>

definition creates :: "event \<Rightarrow> bool" where
  "creates e = (case e of EvCreateVMVolume _ \<Rightarrow> True | _ \<Rightarrow> False)"

lemma createVmVolume_at_most_one: "at_most creates 1 (createVmVolume os c cl n sp sz sh)"
proof -
  have create: "at_most creates 1 (CreateVMVolume c p)" for p
    unfolding CreateVMVolume_def by (rule at_most_callE) simp
  show ?thesis unfolding createVmVolume_def
    by (intro at_most_before at_most_if at_most_after [OF create])
       (auto simp: creates_def intro!: at_most_emits emits_rules)
qed

lemma CreateVolume_at_most_one: "at_most creates 1 (CreateVolume os c req)"
  unfolding CreateVolume_def Let_def
  by (intro at_most_before at_most_if at_most_after [OF createVmVolume_at_most_one])
     (auto simp: creates_def intro!: at_most_emits emits_rules)

definition labels :: "event \<Rightarrow> bool" where
  "labels e = (case e of EvAddLabels _ _ \<Rightarrow> True | _ \<Rightarrow> False)"

lemma reconcileVolumeLabel_at_most_one: "at_most labels 1 (reconcileVolumeLabel os c v)"
proof -
  have add: "at_most labels 1 (AddLabelsToResources c ls i)" for ls i
    unfolding AddLabelsToResources_def by (rule at_most_callE) simp
  have "at_most labels 1 (addVolumeLabels os c i ls)" for i ls
    unfolding addVolumeLabels_def by (intro at_most_after [OF add]) (auto simp: labels_def intro!: emits_rules)
  then show ?thesis unfolding reconcileVolumeLabel_def
    by (intro at_most_before at_most_if at_most_wrapE) (auto simp: labels_def intro!: at_most_emits emits_rules)
qed

lemma CreateVolume_labels_at_most_one: "at_most labels 1 (CreateVolume os c req)"
  unfolding CreateVolume_def Let_def
  by (intro at_most_before at_most_if at_most_after [OF reconcileVolumeLabel_at_most_one])
     (auto simp: labels_def intro!: at_most_emits emits_rules)

text \<open>The volume that is asked for.\<close>

definition asked_volume :: "'w os \<Rightarrow> CreateVolumeRequest \<Rightarrow> VMVolumeCreationParams \<Rightarrow> bool" where
  "asked_volume os req p \<longleftrightarrow>
     cp_Name p = ToLower (os_unicode os) (create_Name req) \<and>
     getVolumeSize (create_CapacityRange req) = Ret (cp_Size p) \<and>
     cp_ElfStoragePolicy p = getStoragePolicy (create_Parameters req) \<and>
     checkNeedSharing (create_VolumeCapabilities req) = Ret (cp_Sharing p)"

text \<open>
  The volume the platform answers to a request in a state: the first one of the name, or without
  one the volume it answers to the request to create it.
\<close>

definition answered_volume :: "'w os \<Rightarrow> 'w towerclient \<Rightarrow> CreateVolumeRequest \<Rightarrow> 'w \<Rightarrow> VMVolume \<Rightarrow> bool" where
  "answered_volume os tc req x vol \<longleftrightarrow>
     (let byName = tc_GetVMVolumes tc (VolumeWhereName (ToLower (os_unicode os) (create_Name req))) in
      (\<exists>vols x1. byName x = (Inr (Some vol # vols), x1)) \<or>
      (\<exists>x1 cluster clusters x2 p t ts x3. byName x = (Inr [], x1) \<and>
         tc_GetClusters tc (case create_Parameters req ''elfCluster'' of None \<Rightarrow> [] | Some s \<Rightarrow> s) x1 =
           (Inr (Some cluster # clusters), x2) \<and>
         asked_volume os req p \<and> cp_ClusterID p = cluster_ID cluster \<and> tc_CreateVMVolume tc p x2 = (Inr (Some t # ts), x3) \<and> wtv_Data t = Some vol))"

text \<open>The platform names \<open>i\<close> as the label with a key and a value, found or created.\<close>

definition answered_label :: "'w towerclient \<Rightarrow> string \<Rightarrow> string \<Rightarrow> string \<Rightarrow> bool" where
  "answered_label tc k v i \<longleftrightarrow>
     (\<exists>x lb ls x'. tc_GetLabels tc k v x = (Inr (Some lb # ls), x') \<and> label_ID lb = Some i) \<or>
     (\<exists>x t ts x' lb. tc_CreateLabel tc k v x = (Inr (Some t # ts), x') \<and> wtl_Data t = Some lb \<and> label_ID lb = Some i)"

text \<open>What \<open>CreateVolume\<close> may change on the platform from a state: nothing but this.\<close>

definition create_effect :: "'w os \<Rightarrow> 'w DriverConfig \<Rightarrow> CreateVolumeRequest \<Rightarrow> 'w \<Rightarrow> event \<Rightarrow> bool" where
  "create_effect os c req x e =
     (case e of
        EvCreateVMVolume p \<Rightarrow> asked_volume os req p
      | EvCreateLabel k v \<Rightarrow> k = ''k8s-cluster-id'' \<and> v = ClusterID c
      | EvAddLabels ls v \<Rightarrow>
          (\<exists>vol. answered_volume os (TowerClient c) req x vol \<and> ID vol = Some v) \<and>
          (\<exists>i. ls = [i] \<and> answered_label (TowerClient c) ''k8s-cluster-id'' (ClusterID c) i)
      | _ \<Rightarrow> \<not> mutates e)"

lemma created_answer:
  assumes "bindE (CreateVMVolume c p) (\<lambda>created. bindE (first_of created) (\<lambda>t.
      bindE (waitTask os c (wtv_TaskID t)) (\<lambda>_. returnE (wtv_Data t)))) w = (Ret (Some v), w')"
  obtains t ts w2 where "tc_CreateVMVolume (TowerClient c) p (ext w) = (Inr (Some t # ts), ext w2)" "wtv_Data t = Some v"
    "waitTask os c (wtv_TaskID t) w2 = (Ret (), w')"
proof -
  from assms obtain created w2 where ask: "CreateVMVolume c p w = (Ret created, w2)" and rest: "bindE (first_of created) (\<lambda>t.
      bindE (waitTask os c (wtv_TaskID t)) (\<lambda>_. returnE (wtv_Data t))) w2 = (Ret (Some v), w')" unfolding bindE_Ret by blast
  from ask have "tc_CreateVMVolume (TowerClient c) p (ext w) = (Inr created, ext w2)" by (auto simp: CreateVMVolume_def callE_Ret)
  moreover from rest obtain t where "created \<noteq> []" "hd created = Some t" "wtv_Data t = Some v"
    "waitTask os c (wtv_TaskID t) w2 = (Ret (), w')" by (auto simp: ret_iffs)
  ultimately show thesis by (cases created) (auto intro: that)
qed

text \<open>A successful \<open>createVmVolume\<close>, taken apart.\<close>

lemma createVmVolume_Ret:
  assumes "createVmVolume os c cl n sp sz sh w = (Ret (Some v), w')"
  obtains (found) vols where "tc_GetVMVolumes (TowerClient c) (VolumeWhereName n) (ext w) = (Inr (Some v # vols), ext w')"
  | (created) x cluster cls x2 t ts w3 where "tc_GetVMVolumes (TowerClient c) (VolumeWhereName n) (ext w) = (Inr [], x)"
      "tc_GetClusters (TowerClient c) cl x = (Inr (Some cluster # cls), x2)"
      "tc_CreateVMVolume (TowerClient c) \<lparr>cp_ClusterID = cluster_ID cluster, cp_ElfStoragePolicy = sp, cp_Size = sz,
         cp_Name = n, cp_Sharing = sh\<rparr> x2 = (Inr (Some t # ts), ext w3)"
      "wtv_Data t = Some v" "waitTask os c (wtv_TaskID t) w3 = (Ret (), w')"
proof -
  let ?create = "\<lambda>cluster. bindE (CreateVMVolume c \<lparr>cp_ClusterID = cluster_ID cluster, cp_ElfStoragePolicy = sp, cp_Size = sz,
      cp_Name = n, cp_Sharing = sh\<rparr>) (\<lambda>created. bindE (first_of created) (\<lambda>t.
      bindE (waitTask os c (wtv_TaskID t)) (\<lambda>_. returnE (wtv_Data t))))"
  let ?clusters = "\<lambda>clusters. if length clusters = 0
      then failE (StatusErr InvalidArgument ''failed to get cluster with local id: %v'' [AStr cl])
      else bindE (first_of clusters) ?create"
  from assms obtain payload w1 where ask: "GetVMVolumes c (VolumeWhereName n) w = (Ret payload, w1)" and rest:
    "(if length payload > 0 then index0E payload else bindE (GetClusters c cl) ?clusters) w1 = (Ret (Some v), w')"
    unfolding createVmVolume_def bindE_Ret by blast
  from ask have get: "tc_GetVMVolumes (TowerClient c) (VolumeWhereName n) (ext w) = (Inr payload, ext w1)"
    by (auto simp: GetVMVolumes_def callE_Ret)
  show thesis
  proof (cases payload)
    case (Cons p ps)
    with rest get show thesis by (intro found [of ps]) (auto simp: ret_iffs)
  next
    case Nil
    with rest have "bindE (GetClusters c cl) ?clusters w1 = (Ret (Some v), w')" by simp
    then obtain clusters w2 where ask: "GetClusters c cl w1 = (Ret clusters, w2)"
      and rest: "?clusters clusters w2 = (Ret (Some v), w')" unfolding bindE_Ret by blast
    from ask have clusters: "tc_GetClusters (TowerClient c) cl (ext w1) = (Inr clusters, ext w2)"
      by (auto simp: GetClusters_def callE_Ret)
    from rest have "clusters \<noteq> []" "bindE (first_of clusters) ?create w2 = (Ret (Some v), w')"
      by (cases clusters; simp add: failE_Ret)+
    then obtain cluster where first: "hd clusters = Some cluster" and run: "?create cluster w2 = (Ret (Some v), w')"
      unfolding bindE_Ret [of "first_of _"] first_of_Ret by blast
    from \<open>clusters \<noteq> []\<close> first obtain cls where "clusters = Some cluster # cls" by (cases clusters) auto
    moreover from run obtain t ts w3 where "tc_CreateVMVolume (TowerClient c) \<lparr>cp_ClusterID = cluster_ID cluster,
        cp_ElfStoragePolicy = sp, cp_Size = sz, cp_Name = n, cp_Sharing = sh\<rparr> (ext w2) = (Inr (Some t # ts), ext w3)"
      "wtv_Data t = Some v" "waitTask os c (wtv_TaskID t) w3 = (Ret (), w')" by (rule created_answer)
    ultimately show thesis using get clusters Nil by (intro created [of "ext w1" cluster cls "ext w2" t ts w3]) simp_all
  qed
qed

lemma createVmVolume_answered:
  assumes "getVolumeSize (create_CapacityRange req) = Ret sz" and "checkNeedSharing (create_VolumeCapabilities req) = Ret sh"
    and "createVmVolume os c (case create_Parameters req ''elfCluster'' of None \<Rightarrow> [] | Some s \<Rightarrow> s)
      (ToLower (os_unicode os) (create_Name req)) (getStoragePolicy (create_Parameters req)) sz sh w = (Ret (Some v), w')"
  shows "answered_volume os (TowerClient c) req (ext w) v"
  using assms(3)
proof (cases rule: createVmVolume_Ret)
  case (found vols)
  then show ?thesis by (auto simp: answered_volume_def Let_def)
next
  case (created x cluster cls x2 t ts w3)
  let ?p = "\<lparr>cp_ClusterID = cluster_ID cluster, cp_ElfStoragePolicy = getStoragePolicy (create_Parameters req), cp_Size = sz,
    cp_Name = ToLower (os_unicode os) (create_Name req), cp_Sharing = sh\<rparr>"
  have "asked_volume os req ?p" "cp_ClusterID ?p = cluster_ID cluster" using assms(1,2) by (simp_all add: asked_volume_def)
  with created show ?thesis unfolding answered_volume_def Let_def by blast
qed

lemma upsertLabel_answered:
  "returns (\<lambda>l. \<forall>lb i. l = Some lb \<longrightarrow> label_ID lb = Some i \<longrightarrow> answered_label (TowerClient c) k v i) (upsertLabel c k v)"
proof -
  have "answered_label (TowerClient c) k v i"
    if "upsertLabel c k v w = (Ret (Some lb), w')" "label_ID lb = Some i" for w lb w' i
  proof -
    from that(1) obtain payload x where get: "tc_GetLabels (TowerClient c) k v (ext w) = (Inr payload, x)"
      and rest: "payload \<noteq> [] \<and> hd payload = Some lb \<or> (\<exists>created x' t. tc_CreateLabel (TowerClient c) k v x = (Inr created, x') \<and>
        created \<noteq> [] \<and> hd created = Some t \<and> wtl_Data t = Some lb)"
      by (auto simp: upsertLabel_def api_defs ret_iffs split: if_splits)
    from rest show ?thesis
    proof (elim disjE exE conjE)
      assume "payload \<noteq> []" "hd payload = Some lb"
      with get that(2) show ?thesis unfolding answered_label_def by (cases payload) auto
    next
      fix created x' t
      assume "tc_CreateLabel (TowerClient c) k v x = (Inr created, x')" "created \<noteq> []" "hd created = Some t" "wtl_Data t = Some lb"
      moreover from this obtain ts where "created = Some t # ts" by (cases created) auto
      ultimately show ?thesis unfolding answered_label_def using that(2) by blast
    qed
  qed
  then show ?thesis by (auto simp: returns_def)
qed

lemma emits_reconcile_answered:
  assumes "P (EvGetLabels defaultClusterLabelKey (ClusterID c))" and "P (EvCreateLabel defaultClusterLabelKey (ClusterID c))"
    and "\<And>i j. ID v = Some i \<Longrightarrow> answered_label (TowerClient c) defaultClusterLabelKey (ClusterID c) j \<Longrightarrow> P (EvAddLabels [j] i)"
    and "\<And>i. P (EvGetTasks i)" and "P (EvSleep (5 * Second))" and "P EvNow"
  shows "emits P (reconcileVolumeLabel os c v)"
  unfolding reconcileVolumeLabel_def
proof (rule emits_bindE_returns [OF _ returns_wrapE [OF upsertLabel_answered]])
  show "emits P (wrapE g (upsertLabel c defaultClusterLabelKey (ClusterID c)))" for g
    by (intro emits_rules assms)
next
  fix label :: "Label option"
  assume label: "\<forall>lb i. label = Some lb \<longrightarrow> label_ID lb = Some i \<longrightarrow> answered_label (TowerClient c) defaultClusterLabelKey (ClusterID c) i"
  let ?add = "bindE (derefE (ID v)) (\<lambda>vid. bindE (derefE label) (\<lambda>lb. bindE (derefE (label_ID lb)) (\<lambda>lid.
      wrapE (\<lambda>err. StatusErr Internal ''add volume label for volume %s failed'' [AStr vid]) (addVolumeLabels os c vid [lid]))))"
  have add: "emits P ?add"
  proof (cases "\<exists>i lb j. ID v = Some i \<and> label = Some lb \<and> label_ID lb = Some j")
    case True
    then obtain i lb j where id: "ID v = Some i" "label = Some lb" "label_ID lb = Some j" by blast
    with label have "P (EvAddLabels [j] i)" by (intro assms(3)) auto
    with id show ?thesis by (simp only: derefE_simps bindE_returnE) (intro emits_rules assms(4-))
  next
    case False
    then show ?thesis by (cases "ID v"; cases label; cases "label_ID (the label)") (auto simp: emits_rules)
  qed
  show "emits P (bindE (labelAttached (Labels v) label) (\<lambda>found. if found then returnE () else ?add))"
    by (rule emits_bindE [OF emits_labelAttached], rule emits_if [OF emits_returnE add])
qed

lemma CreateVolume_events:
  "\<exists>evs. trace (snd (CreateVolume os c req w)) = trace w @ evs \<and> list_all (create_effect os c req (ext w)) evs"
proof -
  let ?P = "create_effect os c req (ext w)" and ?n = "ToLower (os_unicode os) (create_Name req)"
  let ?k = "\<lambda>p. bindE (derefE p) (\<lambda>vmVolume. bindE (reconcileVolumeLabel os c vmVolume) (\<lambda>_.
      bindE (derefE (ID vmVolume)) (\<lambda>vid. bindE (derefE (Size vmVolume)) (\<lambda>capacity.
      returnE \<lparr>vol_VolumeId = vid, vol_CapacityBytes = capacity, vol_ContentSource = create_ContentSource req,
        vol_VolumeContext = create_Parameters req\<rparr>))))"
  show ?thesis
  proof (cases "\<exists>sz sh. ?n \<noteq> [] \<and> getVolumeSize (create_CapacityRange req) = Ret sz \<and>
      checkNeedSharing (create_VolumeCapabilities req) = Ret sh")
    case False
    then have "snd (CreateVolume os c req w) = w"
      by (cases "getVolumeSize (create_CapacityRange req)"; cases "checkNeedSharing (create_VolumeCapabilities req)")
         (auto simp: CreateVolume_def Let_def go_defs bindE_def liftR_def)
    then show ?thesis by simp
  next
    case True
    then obtain sz sh where guards: "?n \<noteq> []" "getVolumeSize (create_CapacityRange req) = Ret sz"
      "checkNeedSharing (create_VolumeCapabilities req) = Ret sh" by blast
    let ?m = "createVmVolume os c (case create_Parameters req ''elfCluster'' of None \<Rightarrow> [] | Some s \<Rightarrow> s) ?n
      (getStoragePolicy (create_Parameters req)) sz sh"
    have run: "CreateVolume os c req w = bindE ?m ?k w" using guards by (simp add: CreateVolume_def Let_def)
    have "emits ?P ?m" by (intro emits_rules) (simp_all add: create_effect_def asked_volume_def mutates_def guards)
    then obtain es where es: "trace (snd (?m w)) = trace w @ es" "list_all ?P es" by (rule emitsE)
    show ?thesis
    proof (cases "\<exists>v w1. ?m w = (Ret (Some v), w1)")
      case False
      then have "snd (bindE ?m ?k w) = snd (?m w)"
        by (cases rule: bindE_cases [of ?m w ?k]) (auto simp: derefE_def panicE_def split: option.splits)
      with es run show ?thesis by auto
    next
      case True
      then obtain v w1 where v: "?m w = (Ret (Some v), w1)" by blast
      then have answered: "answered_volume os (TowerClient c) req (ext w) v"
        by (rule createVmVolume_answered [OF guards(2,3)])
      have "emits ?P (reconcileVolumeLabel os c v)"
        by (rule emits_reconcile_answered)
           (use answered in \<open>auto simp: create_effect_def mutates_def defaultClusterLabelKey_def\<close>)
      then have "emits ?P (?k (Some v))" by (simp only: derefE_simps bindE_returnE) (rule emits_bindE, assumption, intro emits_rules)
      then obtain fs where "trace (snd (?k (Some v) w1)) = trace w1 @ fs" "list_all ?P fs" by (rule emitsE)
      with es v run show ?thesis by (intro exI [of _ "es @ fs"]) (simp add: bindE_def)
    qed
  qed
qed

text \<open>
  C17: Whatever CloudTower answers, \<open>CreateVolume\<close> asks for at most one new volume, with the
  lower-case name, the rounded size, the storage policy and the sharing flag of the request,
  creates no label but the cluster's, attaches labels at most once, and then one label, which
  CloudTower has named as the cluster's, to the volume it has found or created for the request;
  it changes nothing else.
\<close>

theorem CreateVolume_effects:
  "\<exists>evs. trace (snd (CreateVolume os c req w)) = trace w @ evs \<and> count_ev creates evs \<le> 1 \<and> count_ev labels evs \<le> 1 \<and>
     list_all (create_effect os c req (ext w)) evs"
proof -
  obtain evs where "trace (snd (CreateVolume os c req w)) = trace w @ evs" "list_all (create_effect os c req (ext w)) evs"
    using CreateVolume_events by blast
  moreover obtain es where "trace (snd (CreateVolume os c req w)) = trace w @ es" "count_ev creates es \<le> 1"
    using CreateVolume_at_most_one by (rule at_mostE)
  moreover obtain fs where "trace (snd (CreateVolume os c req w)) = trace w @ fs" "count_ev labels fs \<le> 1"
    using CreateVolume_labels_at_most_one by (rule at_mostE)
  ultimately show ?thesis by auto
qed

lemma createVmVolume_existing:
  assumes "tc_GetVMVolumes (TowerClient c) (VolumeWhereName n) (ext w) = (Inr (p # ps), x)"
  shows "createVmVolume os c cl n sp sz sh w =
    (Ret p, w\<lparr>ext := x, trace := trace w @ [EvGetVMVolumes (VolumeWhereName n)]\<rparr>)"
  using assms by (simp add: createVmVolume_def GetVMVolumes_def bindE_def callE_def returnE_def)

text \<open>
  C9: \<open>CreateVolume\<close> is idempotent on the name: when a volume of that name exists, a successful
  call creates nothing and answers with the existing volume's ID and size.
\<close>

theorem CreateVolume_existing:
  assumes "tc_GetVMVolumes (TowerClient c) (VolumeWhereName (ToLower (os_unicode os) (create_Name req))) (ext w)
      = (Inr (Some v # vs), x)"
    and "CreateVolume os c req w = (Ret vol, w')"
  shows "ID v = Some (vol_VolumeId vol) \<and> Size v = Some (vol_CapacityBytes vol) \<and>
    (\<exists>evs. trace w' = trace w @ evs \<and> count_ev creates evs = 0)"
proof -
  let ?w = "w\<lparr>ext := x, trace := trace w @ [EvGetVMVolumes (VolumeWhereName (ToLower (os_unicode os) (create_Name req)))]\<rparr>"
  from assms(2) have rec: "reconcileVolumeLabel os c v ?w = (Ret (), w')"
    and vol: "ID v = Some (vol_VolumeId vol)" "Size v = Some (vol_CapacityBytes vol)"
    by (auto simp: CreateVolume_def Let_def ret_iffs createVmVolume_existing [OF assms(1)] split: if_splits)
  have "emits (\<lambda>e. \<not> creates e) (reconcileVolumeLabel os c v)"
    by (intro emits_rules) (simp_all add: creates_def)
  then obtain evs where "trace (snd (reconcileVolumeLabel os c v ?w)) = trace ?w @ evs"
    "list_all (\<lambda>e. \<not> creates e) evs" by (rule emitsE)
  with rec vol show ?thesis
    by (intro conjI exI [of _ "EvGetVMVolumes (VolumeWhereName (ToLower (os_unicode os) (create_Name req))) # evs"])
       (simp_all add: count_ev_none creates_def)
qed

definition demo_create :: CreateVolumeRequest where
  "demo_create = \<lparr>create_Name = ''PVC-1'', create_CapacityRange = None, create_VolumeCapabilities = [],
     create_Parameters = Map.empty, create_ContentSource = None\<rparr>"

definition demo_reused :: "demo DriverConfig" where
  "demo_reused = demo_config\<lparr>TowerClient := demo_tower\<lparr>tc_GetVMVolumes := (\<lambda>q x. (Inr [Some demo_volume], x))\<rparr>\<rparr>"

lemma demo_reused_run:
  obtains w' where "CreateVolume demo_os demo_reused demo_create demo_world =
    (Ret \<lparr>vol_VolumeId = ''vol-1'', vol_CapacityBytes = 1073741824, vol_ContentSource = None,
       vol_VolumeContext = Map.empty\<rparr>, w')"
proof -
  have wait: "waitTask demo_os demo_reused (Some i) w = (Ret (), w\<lparr>trace := trace w @ [EvNow, EvGetTasks i]\<rparr>)"
    for i w by (rule demo_wait) (simp add: demo_reused_def)
  have name: "ToLower demo_unicode ''PVC-1'' = ''pvc-1''" by code_simp
  have tower: "TowerClient demo_reused = demo_tower\<lparr>tc_GetVMVolumes := (\<lambda>q x. (Inr [Some demo_volume], x))\<rparr>"
    "ClusterID demo_reused = ''k8s''" by (simp_all add: demo_reused_def)
  have "fst (CreateVolume demo_os demo_reused demo_create demo_world) =
    Ret \<lparr>vol_VolumeId = ''vol-1'', vol_CapacityBytes = 1073741824, vol_ContentSource = None,
       vol_VolumeContext = Map.empty\<rparr>"
    by (simp add: CreateVolume_def demo_create_def getVolumeSize_def GetRequiredBytes_def GetLimitBytes_def
        createVmVolume_def reconcileVolumeLabel_def upsertLabel_def addVolumeLabels_def name tower api_defs
        bindE_def callE_def returnE_def wrapE_def Let_def wait demo_volume_def demo_task_def)
  then show thesis using that by (metis prod.collapse)
qed

theorem CreateVolume_existing_witness:
  "ID demo_volume = Some ''vol-1'' \<and> Size demo_volume = Some 1073741824 \<and>
   (\<exists>evs. trace (snd (CreateVolume demo_os demo_reused demo_create demo_world)) = trace demo_world @ evs \<and>
      count_ev creates evs = 0)"
proof -
  obtain w' where run: "CreateVolume demo_os demo_reused demo_create demo_world =
    (Ret \<lparr>vol_VolumeId = ''vol-1'', vol_CapacityBytes = 1073741824, vol_ContentSource = None,
       vol_VolumeContext = Map.empty\<rparr>, w')" by (rule demo_reused_run)
  have found: "tc_GetVMVolumes (TowerClient demo_reused) q x = (Inr [Some demo_volume], x)" for q x
    by (simp add: demo_reused_def)
  show ?thesis using CreateVolume_existing [OF found run] by (simp add: run)
qed

lemma labelAttached_Ret:
  "labelAttached ls label w = (Ret b, w') \<Longrightarrow> w' = w \<and>
     (b \<longrightarrow> (\<exists>lb lid r. label = Some lb \<and> label_ID lb = Some lid \<and> Some r \<in> set ls \<and> ref_ID r = Some lid))"
proof (induction ls)
  case (Cons l ls)
  from Cons.prems obtain r i lb j where "l = Some r" "ref_ID r = Some i" "label = Some lb" "label_ID lb = Some j"
    "(if i = j then returnE True else labelAttached ls label) w = (Ret b, w')"
    by (auto simp: ret_iffs)
  with Cons.IH show ?case by (auto simp: ret_iffs split: if_splits)
qed (simp add: ret_iffs)

lemma reconcileVolumeLabel_Ret:
  assumes run: "reconcileVolumeLabel os c v w = (Ret (), w')" and vid: "ID v = Some i"
  obtains (present) lb j r where "upsertLabel c defaultClusterLabelKey (ClusterID c) w = (Ret (Some lb), w')"
      "label_ID lb = Some j" "Some r \<in> set (Labels v)" "ref_ID r = Some j"
  | (added) lb w1 j t ts w2 where "upsertLabel c defaultClusterLabelKey (ClusterID c) w = (Ret (Some lb), w1)"
      "label_ID lb = Some j" "tc_AddLabelsToResources (TowerClient c) [j] i (ext w1) = (Inr (Some t # ts), ext w2)"
      "waitTask os c (TaskID t) w2 = (Ret (), w')"
proof -
  from run obtain label w1 found w2 where up: "upsertLabel c defaultClusterLabelKey (ClusterID c) w = (Ret label, w1)"
    and found: "labelAttached (Labels v) label w1 = (Ret found, w2)"
    and rest: "found \<and> w' = w2 \<or> \<not> found \<and> (\<exists>lb j. label = Some lb \<and> label_ID lb = Some j \<and>
        addVolumeLabels os c i [j] w2 = (Ret (), w'))"
    by (auto simp: reconcileVolumeLabel_def ret_iffs vid split: if_splits)
  from labelAttached_Ret [OF found] have w2: "w2 = w1" by simp
  show thesis
  proof (cases found)
    case True
    with labelAttached_Ret [OF found] rest up w2 show thesis by (auto intro: present)
  next
    case False
    with rest obtain lb j where lb: "label = Some lb" "label_ID lb = Some j"
      and add: "addVolumeLabels os c i [j] w1 = (Ret (), w')" unfolding w2 by auto
    from add obtain payload x t where t: "tc_AddLabelsToResources (TowerClient c) [j] i (ext w1) = (Inr payload, x)"
      "payload \<noteq> []" "hd payload = Some t"
      "waitTask os c (TaskID t) (w1\<lparr>ext := x, trace := trace w1 @ [EvAddLabels [j] i]\<rparr>) = (Ret (), w')"
      by (auto simp: addVolumeLabels_def AddLabelsToResources_def ret_iffs split: if_splits)
    then obtain ts where "payload = Some t # ts" by (cases payload) auto
    with t up lb show thesis by (intro added [of lb w1 j t ts "w1\<lparr>ext := x, trace := trace w1 @ [EvAddLabels [j] i]\<rparr>"]) auto
  qed
qed

text \<open>
  \<open>DeleteVolume\<close> refuses a volume that is in use with FailedPrecondition, after the query and
  before any call that changes the platform.
\<close>

lemma DeleteVolume_in_use:
  assumes "v \<noteq> []" and "Mounting vol = Some True"
    and "tc_GetVMVolumes (TowerClient c) (VolumeWhereID v) (ext w) = (Inr (Some vol # vols), x)"
  shows "DeleteVolume os c v w = (Fail (StatusErr FailedPrecondition ''volume %v is in use'' [AStr v]),
    w\<lparr>ext := x, trace := trace w @ [EvGetVMVolumes (VolumeWhereID v)]\<rparr>)"
  using assms by (simp add: DeleteVolume_def getVolume_def GetVMVolumes_def go_defs)

lemma DeleteVolume_in_use_witness:
  "DeleteVolume demo_os (demo_config\<lparr>TowerClient := demo_tower\<lparr>tc_GetVMVolumes :=
       (\<lambda>q x. (Inr [Some (demo_volume\<lparr>Mounting := Some True\<rparr>)], x))\<rparr>\<rparr>) ''vol-1'' demo_world =
   (Fail (StatusErr FailedPrecondition ''volume %v is in use'' [AStr ''vol-1'']),
    demo_world\<lparr>trace := [EvGetVMVolumes (VolumeWhereID ''vol-1'')]\<rparr>)"
  using DeleteVolume_in_use [of "''vol-1''" "demo_volume\<lparr>Mounting := Some True\<rparr>"
      "demo_config\<lparr>TowerClient := demo_tower\<lparr>tc_GetVMVolumes :=
         (\<lambda>q x. (Inr [Some (demo_volume\<lparr>Mounting := Some True\<rparr>)], x))\<rparr>\<rparr>" demo_world "[]" demo_state demo_os]
  by (simp add: demo_world_def)

definition deletes :: "event \<Rightarrow> bool" where
  "deletes e = (case e of EvDeleteVMVolume _ \<Rightarrow> True | _ \<Rightarrow> False)"

lemma emits_DeleteVolume:
  assumes "P (EvGetVMVolumes (VolumeWhereID v))" and "P (EvDeleteVMVolume v)"
    and "\<And>i. P (EvGetTasks i)" and "P (EvSleep (5 * Second))" and "P EvNow"
  shows "emits P (DeleteVolume os c v)"
  unfolding DeleteVolume_def by (intro emits_rules assms)

lemma DeleteVolume_at_most_one: "at_most deletes 1 (DeleteVolume os c v)"
proof -
  have "at_most deletes 1 (DeleteVMVolumeFromVM c v)"
    unfolding DeleteVMVolumeFromVM_def by (rule at_most_callE) simp
  then show ?thesis unfolding DeleteVolume_def
    by (intro at_most_before at_most_if at_most_after [OF at_most_wrapE])
       (auto simp: deletes_def intro!: at_most_emits emits_rules)
qed

text \<open>
  C26: The only change \<open>DeleteVolume\<close> asks for is the deletion of the requested volume, once; and it
  reports success only when the volume was found, was not in use, and its deletion was asked for.
\<close>

theorem DeleteVolume_effects:
  "\<exists>evs. trace (snd (DeleteVolume os c v w)) = trace w @ evs \<and>
     list_all (\<lambda>e. mutates e \<longrightarrow> e = EvDeleteVMVolume v) evs \<and> count_ev deletes evs \<le> 1 \<and>
     (fst (DeleteVolume os c v w) = Ret () \<longrightarrow> EvDeleteVMVolume v \<in> set evs \<and>
        (\<exists>vol vols x. tc_GetVMVolumes (TowerClient c) (VolumeWhereID v) (ext w) = (Inr (Some vol # vols), x) \<and>
           Mounting vol \<noteq> Some True))"
proof -
  obtain r w' where run: "DeleteVolume os c v w = (r, w')" by fastforce
  obtain evs where 1: "trace w' = trace w @ evs" "count_ev deletes evs \<le> 1"
    using at_mostE [OF DeleteVolume_at_most_one, of os c v w] run by auto
  have "emits (\<lambda>e. mutates e \<longrightarrow> e = EvDeleteVMVolume v) (DeleteVolume os c v)"
    by (rule emits_DeleteVolume) (simp_all add: mutates_def)
  from emits_run [OF this run] obtain es where "trace w' = trace w @ es"
    "list_all (\<lambda>e. mutates e \<longrightarrow> e = EvDeleteVMVolume v) es" .
  with 1 have 2: "list_all (\<lambda>e. mutates e \<longrightarrow> e = EvDeleteVMVolume v) evs" by simp
  have "EvDeleteVMVolume v \<in> set evs \<and> (\<exists>vol vols x.
      tc_GetVMVolumes (TowerClient c) (VolumeWhereID v) (ext w) = (Inr (Some vol # vols), x) \<and>
      Mounting vol \<noteq> Some True)" if "r = Ret ()"
  proof -
    from run that obtain vol payload x y t where get:
      "tc_GetVMVolumes (TowerClient c) (VolumeWhereID v) (ext w) = (Inr payload, x)" "payload \<noteq> []"
      "Some vol = hd payload" "Mounting vol \<noteq> Some True"
      and wait: "waitTask os c t (w\<lparr>ext := y, trace := trace w @ [EvGetVMVolumes (VolumeWhereID v), EvDeleteVMVolume v]\<rparr>)
        = (Ret (), w')"
      by (auto simp: DeleteVolume_def getVolume_def api_defs ret_iffs split: if_splits)
    have "emits (\<lambda>_. True) (waitTask os c t)" by (intro emits_rules) simp_all
    from emits_run [OF this wait] obtain es where "trace w' =
      trace w @ EvGetVMVolumes (VolumeWhereID v) # EvDeleteVMVolume v # es" by auto
    with 1(1) have "EvDeleteVMVolume v \<in> set evs" by auto
    with get show ?thesis by (cases payload) auto
  qed
  with 1 2 run show ?thesis by (intro exI [of _ evs]) simp
qed

theorem DeleteVolume_effects_witness:
  "\<exists>evs. trace (snd (DeleteVolume demo_os demo_config ''vol-1'' demo_world)) = evs \<and> EvDeleteVMVolume ''vol-1'' \<in> set evs"
proof -
  have "fst (DeleteVolume demo_os demo_config ''vol-1'' demo_world) = Ret ()"
    by (simp add: DeleteVolume_def getVolume_def api_defs go_defs demo_volume_def demo_task_def demo_wait)
  then show ?thesis using DeleteVolume_effects [of demo_os demo_config "''vol-1''" demo_world]
    by (auto simp: demo_world_def)
qed

section \<open>Properties: publishing\<close>

text \<open>The calls on the VM and its disks, which the key mutex of the node serialises.\<close>

definition vm_call :: "event \<Rightarrow> bool" where
  "vm_call e =
     (case e of EvGetVMVolumes _ \<Rightarrow> True | EvGetVms _ \<Rightarrow> True | EvAddVMDisk _ _ \<Rightarrow> True
      | EvRemoveVMDisk _ _ \<Rightarrow> True | EvGetVMDisks _ _ \<Rightarrow> True | EvGetTasks _ \<Rightarrow> True | _ \<Rightarrow> False)"

definition lock_call :: "event \<Rightarrow> bool" where
  "lock_call e = (case e of EvLockKey _ \<Rightarrow> True | EvUnlockKey _ \<Rightarrow> True | _ \<Rightarrow> False)"

text \<open>\<open>locked n evs\<close>: at most one section under the lock of \<open>n\<close>, closed, with every VM call inside.\<close>

definition locked :: "string \<Rightarrow> event list \<Rightarrow> bool" where
  "locked n evs \<longleftrightarrow>
     list_all (\<lambda>e. \<not> vm_call e \<and> \<not> lock_call e) evs \<or>
     (\<exists>pre mid. evs = pre @ [EvLockKey n] @ mid @ [EvUnlockKey n] \<and>
        list_all (\<lambda>e. \<not> vm_call e \<and> \<not> lock_call e) pre \<and> list_all (\<lambda>e. \<not> lock_call e) mid)"

text \<open>A body run under the lock, with the deferred unlock.\<close>

lemma locked_section:
  assumes "emits (\<lambda>e. \<not> lock_call e) m"
    and "bindE (emitE (EvLockKey n)) (\<lambda>_. deferE (emitE (EvUnlockKey n)) m) w = (r, w')" and "r \<noteq> Diverge"
  obtains mid where "trace w' = trace w @ [EvLockKey n] @ mid @ [EvUnlockKey n]" "list_all (\<lambda>e. \<not> lock_call e) mid"
proof -
  let ?w = "w\<lparr>trace := trace w @ [EvLockKey n]\<rparr>"
  obtain r1 w1 where m: "m ?w = (r1, w1)" by fastforce
  from emits_run [OF assms(1) m] obtain mid where mid: "trace w1 = trace ?w @ mid" "list_all (\<lambda>e. \<not> lock_call e) mid" .
  from assms(2) m have "(r, w') = (if r1 = Diverge then (r1, w1) else (r1, w1\<lparr>trace := trace w1 @ [EvUnlockKey n]\<rparr>))"
    by (auto simp: bindE_def emitE_def deferE_def split: if_splits)
  with mid assms(3) show thesis by (intro that [of mid]) (simp_all split: if_splits)
qed

lemma locked_prefix:
  assumes "emits (\<lambda>e. \<not> vm_call e \<and> \<not> lock_call e) m"
    and "\<And>a w r w'. f a w = (r, w') \<Longrightarrow> r \<noteq> Diverge \<Longrightarrow> \<exists>evs. trace w' = trace w @ evs \<and> locked n evs"
    and "bindE m f w = (r, w')" and "r \<noteq> Diverge"
  shows "\<exists>evs. trace w' = trace w @ evs \<and> locked n evs"
proof -
  obtain r1 w1 where m: "m w = (r1, w1)" by fastforce
  from emits_run [OF assms(1) m] obtain pre where
    pre: "trace w1 = trace w @ pre" "list_all (\<lambda>e. \<not> vm_call e \<and> \<not> lock_call e) pre" .
  show ?thesis
  proof (cases "\<exists>a. r1 = Ret a")
    case True
    then obtain a where "f a w1 = (r, w')" using m assms(3) by (auto simp: bindE_def)
    from assms(2) [OF this assms(4)] obtain evs where evs: "trace w' = trace w1 @ evs" "locked n evs" by blast
    from evs(2) have "locked n (pre @ evs)" unfolding locked_def
    proof (elim disjE exE conjE)
      fix p mid
      assume "evs = p @ [EvLockKey n] @ mid @ [EvUnlockKey n]"
        "list_all (\<lambda>e. \<not> vm_call e \<and> \<not> lock_call e) p" "list_all (\<lambda>e. \<not> lock_call e) mid"
      with pre(2) show "list_all (\<lambda>e. \<not> vm_call e \<and> \<not> lock_call e) (pre @ evs) \<or>
        (\<exists>p mid. pre @ evs = p @ [EvLockKey n] @ mid @ [EvUnlockKey n] \<and>
           list_all (\<lambda>e. \<not> vm_call e \<and> \<not> lock_call e) p \<and> list_all (\<lambda>e. \<not> lock_call e) mid)"
        by (intro disjI2 exI [of _ "pre @ p"] exI [of _ mid]) simp
    qed (use pre in simp)
    with pre evs show ?thesis by (intro exI [of _ "pre @ evs"]) simp
  next
    case False
    with m assms(3) have "w' = w1" by (cases r1) (auto simp: bindE_def)
    with pre show ?thesis by (auto simp: locked_def)
  qed
qed

lemma locked_publish:
  assumes "emits (\<lambda>e. \<not> lock_call e) m" and "r \<noteq> Diverge"
    and "bindE (emitE (EvLockKey n)) (\<lambda>_. deferE (emitE (EvUnlockKey n)) m) w = (r, w')"
  shows "\<exists>evs. trace w' = trace w @ evs \<and> locked n evs"
proof -
  from assms(1,3,2) obtain mid where "trace w' = trace w @ [EvLockKey n] @ mid @ [EvUnlockKey n]"
    "list_all (\<lambda>e. \<not> lock_call e) mid" by (rule locked_section)
  then show ?thesis unfolding locked_def
    by (intro exI [of _ "[EvLockKey n] @ mid @ [EvUnlockKey n]"] conjI disjI2 exI [of _ "[]"] exI [of _ mid]) simp_all
qed

lemma locked_unchanged: "trace w' = trace w \<Longrightarrow> \<exists>evs. trace w' = trace w @ evs \<and> locked n evs"
  by (intro exI [of _ "[]"]) (simp add: locked_def)

lemma ControllerPublishVolume_locked:
  assumes run: "ControllerPublishVolume os c req w = (r, w')" and r: "r \<noteq> Diverge"
  shows "\<exists>evs. trace w' = trace w @ evs \<and> locked (cpub_NodeId req) evs"
proof -
  let ?n = "cpub_NodeId req"
  have pub: "emits (\<lambda>e. \<not> lock_call e) (publishVolumeToVm os c v ?n)" for v
    by (intro emits_rules) (simp_all add: lock_call_def)
  have get: "emits (\<lambda>e. \<not> vm_call e \<and> \<not> lock_call e) (Get (cfg_NodeMap c) ?n)"
    by (intro emits_rules) (simp add: lock_call_def vm_call_def)
  have can: "emits (\<lambda>e. \<not> vm_call e \<and> \<not> lock_call e) (canPublishToNode os a)" for a
    by (intro emits_rules) (simp_all add: lock_call_def vm_call_def)
  have "\<exists>evs. trace w' = trace w @ evs \<and> locked ?n evs"
    if "bindE (Get (cfg_NodeMap c) ?n) (\<lambda>e. bindE (canPublishToNode os (nodeAddress e)) (\<lambda>_.
      bindE (emitE (EvLockKey ?n)) (\<lambda>_. deferE (emitE (EvUnlockKey ?n))
        (publishVolumeToVm os c (cpub_VolumeId req) ?n)))) w = (r, w')"
    by (rule locked_prefix [OF get _ that r], erule locked_prefix [OF can, rotated], assumption,
        erule (1) locked_publish [OF pub])
  with run locked_unchanged [of w' w ?n] show ?thesis
    unfolding ControllerPublishVolume_def Let_def by (auto simp: failE_def split: if_splits)
qed

lemma ControllerUnpublishVolume_locked:
  assumes run: "ControllerUnpublishVolume os c req w = (r, w')" and r: "r \<noteq> Diverge"
  shows "\<exists>evs. trace w' = trace w @ evs \<and> locked (cunpub_NodeId req) evs"
proof -
  have "emits (\<lambda>e. \<not> lock_call e) (unpublishVolumeFromVm os c v n)" for v n
    by (intro emits_rules) (simp_all add: lock_call_def)
  from run locked_publish [OF this r] locked_unchanged [of w' w "cunpub_NodeId req"] show ?thesis
    unfolding ControllerUnpublishVolume_def Let_def by (auto simp: failE_def split: if_splits)
qed

text \<open>
  C3: Lock discipline: on every outcome, errors and panics included, publishing and unpublishing
  make their calls on the VM between one lock and one unlock of the node's key, and never keep
  the lock.
\<close>

theorem publish_locked:
  "(fst (ControllerPublishVolume os c req w) \<noteq> Diverge \<longrightarrow>
      (\<exists>evs. trace (snd (ControllerPublishVolume os c req w)) = trace w @ evs \<and> locked (cpub_NodeId req) evs)) \<and>
   (fst (ControllerUnpublishVolume os c ureq w) \<noteq> Diverge \<longrightarrow>
      (\<exists>evs. trace (snd (ControllerUnpublishVolume os c ureq w)) = trace w @ evs \<and> locked (cunpub_NodeId ureq) evs))"
  using ControllerPublishVolume_locked [OF prod.collapse [symmetric]]
    ControllerUnpublishVolume_locked [OF prod.collapse [symmetric]] by blast

definition demo_publish :: ControllerPublishVolumeRequest where
  "demo_publish = \<lparr>cpub_VolumeId = ''vol-1'', cpub_NodeId = ''node-1'', cpub_Readonly = False,
     cpub_VolumeCapability = Some \<lparr>cap_AccessType = Some BlockAccess, cap_AccessMode = Some SINGLE_NODE_WRITER\<rparr>\<rparr>"

lemma demo_registered_Get:
  "Get (NewNodeMap ''nodes'' demo_configmaps) ''node-1'' demo_registered =
    (Ret demo_entry, demo_registered\<lparr>trace := trace demo_registered @ [EvConfigMapGet ''nodes'']\<rparr>)"
proof -
  have "entry_ok demo_entry" by code_simp
  from Unmarshal_entry_ok [OF this] show ?thesis
    by (simp add: demo_registered_def Put_def Get_def NewNodeMap_def putEntry_def getEntry_def go_defs
        demo_world_def demo_state_def Let_def)
qed

lemma demo_publish_run:
  "ControllerPublishVolume demo_os demo_config demo_publish demo_registered =
    (Ret (), demo_registered\<lparr>trace := trace demo_registered @
      [EvConfigMapGet ''nodes'', EvDial (nodeAddress demo_entry), EvRpcCall (nodeAddress demo_entry),
       EvRpcClose (nodeAddress demo_entry), EvLockKey ''node-1'', EvGetVMVolumes (VolumeWhereID ''vol-1''),
       EvGetVms ''node-1'', EvAddVMDisk ''node-1'' \<lparr>md_Index = 0, md_VMVolumeID = ''vol-1'', md_Boot = 1,
         md_Bus = BusVIRTIO\<rparr>, EvNow, EvGetTasks ''t'', EvUnlockKey ''node-1'']\<rparr>)"
  by (simp add: ControllerPublishVolume_def demo_publish_def Let_def demo_registered_Get
      canPublishToNode_def publishVolumeToVm_def api_defs go_defs demo_volume_def demo_task_def demo_wait)

theorem publish_locked_witness:
  "\<exists>evs. trace (snd (ControllerPublishVolume demo_os demo_config demo_publish demo_registered)) =
     trace demo_registered @ evs \<and> locked ''node-1'' evs"
  using publish_locked [of demo_os demo_config demo_publish demo_registered]
  by (simp add: demo_publish_run) (simp add: demo_publish_def)

lemma canPublishToNode_Ret:
  "canPublishToNode os a w = (Ret u, w') \<longleftrightarrow>
     (\<exists>x y. os_Dial os a (ext w) = (Inr (), x) \<and> os_Liveness os a x = (Inr True, y) \<and>
        w' = w\<lparr>ext := y, trace := trace w @ [EvDial a, EvRpcCall a, EvRpcClose a]\<rparr>)"
  by (auto simp: canPublishToNode_def go_defs split: prod.splits sum.splits if_splits)

lemma filter_mutates_none: "list_all (\<lambda>e. \<not> mutates e) evs \<Longrightarrow> filter mutates evs = []"
  by (induction evs) simp_all

text \<open>A successful \<open>ControllerPublishVolume\<close>, taken apart.\<close>

lemma ControllerPublishVolume_Ret:
  assumes "ControllerPublishVolume os c req w = (Ret (), w')"
  obtains entry w1 x y w2 where "Get (cfg_NodeMap c) (cpub_NodeId req) w = (Ret entry, w1)"
    "os_Dial os (nodeAddress entry) (ext w1) = (Inr (), x)" "os_Liveness os (nodeAddress entry) x = (Inr True, y)"
    "publishVolumeToVm os c (cpub_VolumeId req) (cpub_NodeId req) (w1\<lparr>ext := y, trace := trace w1 @ [EvDial (nodeAddress entry),
        EvRpcCall (nodeAddress entry), EvRpcClose (nodeAddress entry), EvLockKey (cpub_NodeId req)]\<rparr>) = (Ret (), w2)"
    "w' = w2\<lparr>trace := trace w2 @ [EvUnlockKey (cpub_NodeId req)]\<rparr>"
  using assms
  by (auto simp: ControllerPublishVolume_def Let_def bindE_Ret canPublishToNode_Ret emitE_Ret deferE_Ret
      failE_Ret emitE_def split: if_splits)

text \<open>What \<open>publishVolumeToVm\<close> did when it returned nil.\<close>

lemma publishVolumeToVm_Ret:
  assumes "publishVolumeToVm os c v n w = (Ret (), w')"
  obtains (skipped) vol vols x where
      "tc_GetVMVolumes (TowerClient c) (VolumeWhereID v) (ext w) = (Inr (Some vol # vols), x)"
      "VMDisks vol \<noteq> [] \<or> Mounting vol = Some True"
      "trace w' = trace w @ [EvGetVMVolumes (VolumeWhereID v)]" "ext w' = x"
  | (attached) vol vols x vm vms y z t ts evs where
      "tc_GetVMVolumes (TowerClient c) (VolumeWhereID v) (ext w) = (Inr (Some vol # vols), x)"
      "VMDisks vol = []" "Mounting vol = Some False"
      "tc_GetVms (TowerClient c) n x = (Inr (Some vm # vms), y)"
      "tc_AddVMDisk (TowerClient c) n \<lparr>md_Index = 0, md_VMVolumeID = v,
         md_Boot = of_nat (length (vm_VMDisks vm) + 1), md_Bus = BusVIRTIO\<rparr> y = (Inr (Some t # ts), z)"
      "trace w' = trace w @ [EvGetVMVolumes (VolumeWhereID v), EvGetVms n,
         EvAddVMDisk n \<lparr>md_Index = 0, md_VMVolumeID = v,
           md_Boot = of_nat (length (vm_VMDisks vm) + 1), md_Bus = BusVIRTIO\<rparr>] @ evs"
      "list_all (\<lambda>e. \<not> mutates e) evs"
      "\<exists>w1. ext w1 = z \<and> waitTask os c (TaskID t) w1 = (Ret (), w')"
proof -
  let ?md = "\<lambda>vm :: VM. \<lparr>md_Index = 0, md_VMVolumeID = v, md_Boot = of_nat (length (vm_VMDisks vm) + 1), md_Bus = BusVIRTIO\<rparr>"
  let ?query = "EvGetVMVolumes (VolumeWhereID v)"
  from assms obtain payload vol x where get:
    "tc_GetVMVolumes (TowerClient c) (VolumeWhereID v) (ext w) = (Inr payload, x)" "payload \<noteq> []" "hd payload = Some vol"
    and rest: "(VMDisks vol \<noteq> [] \<or> Mounting vol = Some True) \<and> trace w' = trace w @ [?query] \<and> ext w' = x \<or>
      VMDisks vol = [] \<and> Mounting vol = Some False \<and> (\<exists>vms y vm updated z t.
        tc_GetVms (TowerClient c) n x = (Inr vms, y) \<and> vms \<noteq> [] \<and> hd vms = Some vm \<and>
        tc_AddVMDisk (TowerClient c) n (?md vm) y = (Inr updated, z) \<and> updated \<noteq> [] \<and> hd updated = Some t \<and>
        waitTask os c (TaskID t) (w\<lparr>ext := z, trace := trace w @ [?query, EvGetVms n, EvAddVMDisk n (?md vm)]\<rparr>) = (Ret (), w'))"
    by (auto simp: publishVolumeToVm_def api_defs ret_iffs simp del: of_nat_add of_nat_Suc split: if_splits)
  from get obtain vols where payload: "payload = Some vol # vols" by (cases payload) auto
  from rest show thesis
  proof (elim disjE conjE exE)
    assume "VMDisks vol \<noteq> []" "trace w' = trace w @ [?query]" "ext w' = x"
    with get(1) payload show thesis by (intro skipped) auto
  next
    assume "Mounting vol = Some True" "trace w' = trace w @ [?query]" "ext w' = x"
    with get(1) payload show thesis by (intro skipped) auto
  next
    fix vms y vm updated z t
    assume run: "VMDisks vol = []" "Mounting vol = Some False"
      "tc_GetVms (TowerClient c) n x = (Inr vms, y)" "vms \<noteq> []" "hd vms = Some vm"
      "tc_AddVMDisk (TowerClient c) n (?md vm) y = (Inr updated, z)" "updated \<noteq> []" "hd updated = Some t"
      and wait: "waitTask os c (TaskID t) (w\<lparr>ext := z,
        trace := trace w @ [?query, EvGetVms n, EvAddVMDisk n (?md vm)]\<rparr>) = (Ret (), w')"
    have "emits (\<lambda>e. \<not> mutates e) (waitTask os c (TaskID t))" by (intro emits_rules) (simp_all add: mutates_def)
    from emits_run [OF this wait] obtain evs where evs: "list_all (\<lambda>e. \<not> mutates e) evs"
      "trace w' = trace w @ [?query, EvGetVms n, EvAddVMDisk n (?md vm)] @ evs" by auto
    from run obtain vms' ts where "vms = Some vm # vms'" "updated = Some t # ts" by (cases vms; cases updated) auto
    moreover have "\<exists>w1. ext w1 = z \<and> waitTask os c (TaskID t) w1 = (Ret (), w')" using wait by (intro exI conjI) simp_all
    ultimately show thesis using get(1) payload run evs by (intro attached) simp_all
  qed
qed

text \<open>
  C7: What a successful \<open>ControllerPublishVolume\<close> means: the node is registered, its liveness
  service at the registered address answered healthy, and then either the volume was attached
  or mounting already and nothing was changed, or exactly one disk with the volume was added
  to the node's VM, with boot order one above the number of its disks.
\<close>

theorem ControllerPublishVolume_success:
  assumes "ControllerPublishVolume os c req w = (Ret (), w')"
  shows "\<exists>entry w1 x y vol vols z evs. Get (cfg_NodeMap c) (cpub_NodeId req) w = (Ret entry, w1) \<and>
    os_Dial os (nodeAddress entry) (ext w1) = (Inr (), x) \<and> os_Liveness os (nodeAddress entry) x = (Inr True, y) \<and>
    tc_GetVMVolumes (TowerClient c) (VolumeWhereID (cpub_VolumeId req)) y = (Inr (Some vol # vols), z) \<and>
    trace w' = trace w1 @ evs \<and>
    (if VMDisks vol \<noteq> [] \<or> Mounting vol = Some True then filter mutates evs = []
     else \<exists>vm vms z'. tc_GetVms (TowerClient c) (cpub_NodeId req) z = (Inr (Some vm # vms), z') \<and>
       filter mutates evs = [EvAddVMDisk (cpub_NodeId req) \<lparr>md_Index = 0, md_VMVolumeID = cpub_VolumeId req,
         md_Boot = of_nat (length (vm_VMDisks vm) + 1), md_Bus = BusVIRTIO\<rparr>])"
proof -
  let ?n = "cpub_NodeId req" and ?v = "cpub_VolumeId req"
  from assms obtain entry w1 x y w2 where pre: "Get (cfg_NodeMap c) ?n w = (Ret entry, w1)"
    "os_Dial os (nodeAddress entry) (ext w1) = (Inr (), x)" "os_Liveness os (nodeAddress entry) x = (Inr True, y)"
    and pub: "publishVolumeToVm os c ?v ?n (w1\<lparr>ext := y, trace := trace w1 @ [EvDial (nodeAddress entry),
        EvRpcCall (nodeAddress entry), EvRpcClose (nodeAddress entry), EvLockKey ?n]\<rparr>) = (Ret (), w2)"
    and w': "w' = w2\<lparr>trace := trace w2 @ [EvUnlockKey ?n]\<rparr>"
    by (rule ControllerPublishVolume_Ret)
  from pub show ?thesis
  proof (cases rule: publishVolumeToVm_Ret)
    case (skipped vol vols z)
    let ?evs = "[EvDial (nodeAddress entry), EvRpcCall (nodeAddress entry), EvRpcClose (nodeAddress entry),
      EvLockKey ?n, EvGetVMVolumes (VolumeWhereID ?v), EvUnlockKey ?n]"
    show ?thesis
    proof (intro exI conjI)
      show "trace w' = trace w1 @ ?evs" using skipped w' by simp
    qed (use pre skipped in \<open>simp_all add: mutates_def\<close>)
  next
    case (attached vol vols z vm vms z1 z2 t ts evs)
    let ?md = "\<lparr>md_Index = 0, md_VMVolumeID = ?v, md_Boot = of_nat (length (vm_VMDisks vm) + 1), md_Bus = BusVIRTIO\<rparr>"
    let ?evs = "[EvDial (nodeAddress entry), EvRpcCall (nodeAddress entry), EvRpcClose (nodeAddress entry),
      EvLockKey ?n, EvGetVMVolumes (VolumeWhereID ?v), EvGetVms ?n, EvAddVMDisk ?n ?md] @ evs @ [EvUnlockKey ?n]"
    show ?thesis
    proof (intro exI conjI)
      show "trace w' = trace w1 @ ?evs" using attached w' by simp
      have "filter mutates ?evs = [EvAddVMDisk ?n ?md]" using filter_mutates_none [OF attached(7)] by (simp add: mutates_def)
      with attached(2-4) show "if VMDisks vol \<noteq> [] \<or> Mounting vol = Some True then filter mutates ?evs = []
        else \<exists>vm vms z'. tc_GetVms (TowerClient c) ?n z = (Inr (Some vm # vms), z') \<and>
          filter mutates ?evs = [EvAddVMDisk ?n \<lparr>md_Index = 0, md_VMVolumeID = ?v,
            md_Boot = of_nat (length (vm_VMDisks vm) + 1), md_Bus = BusVIRTIO\<rparr>]" by auto
    qed (use pre attached(1) in simp_all)
  qed
qed

theorem ControllerPublishVolume_success_witness:
  "\<exists>entry w1 x y vol vols z evs. Get (cfg_NodeMap demo_config) ''node-1'' demo_registered = (Ret entry, w1) \<and>
    os_Dial demo_os (nodeAddress entry) (ext w1) = (Inr (), x) \<and> os_Liveness demo_os (nodeAddress entry) x = (Inr True, y) \<and>
    tc_GetVMVolumes demo_tower (VolumeWhereID ''vol-1'') y = (Inr (Some vol # vols), z) \<and>
    trace (snd (ControllerPublishVolume demo_os demo_config demo_publish demo_registered)) = trace w1 @ evs \<and>
    (if VMDisks vol \<noteq> [] \<or> Mounting vol = Some True then filter mutates evs = []
     else \<exists>vm vms z'. tc_GetVms demo_tower ''node-1'' z = (Inr (Some vm # vms), z') \<and>
       filter mutates evs = [EvAddVMDisk ''node-1'' \<lparr>md_Index = 0, md_VMVolumeID = ''vol-1'',
         md_Boot = of_nat (length (vm_VMDisks vm) + 1), md_Bus = BusVIRTIO\<rparr>])"
proof -
  have req: "cpub_NodeId demo_publish = ''node-1''" "cpub_VolumeId demo_publish = ''vol-1''"
    by (simp_all add: demo_publish_def)
  show ?thesis unfolding demo_publish_run snd_conv
    using ControllerPublishVolume_success [OF demo_publish_run] unfolding req demo_config_simps .
qed

text \<open>
  A volume that already has a disk, on whatever VM, counts as published: for every node the
  call succeeds after the query and attaches nothing.
\<close>

lemma publishVolumeToVm_attached:
  assumes "tc_GetVMVolumes (TowerClient c) (VolumeWhereID v) (ext w) = (Inr (Some vol # vols), x)"
    and "VMDisks vol \<noteq> []"
  shows "publishVolumeToVm os c v n w =
    (Ret (), w\<lparr>ext := x, trace := trace w @ [EvGetVMVolumes (VolumeWhereID v)]\<rparr>)"
  using assms by (simp add: publishVolumeToVm_def GetVMVolumes_def go_defs)

lemma publishVolumeToVm_attached_witness:
  "publishVolumeToVm demo_os (demo_config\<lparr>TowerClient := demo_tower\<lparr>tc_GetVMVolumes :=
     (\<lambda>q x. (Inr [Some (demo_volume\<lparr>VMDisks := [Some \<lparr>ref_ID = Some ''disk of node-1''\<rparr>]\<rparr>)], x))\<rparr>\<rparr>)
     ''vol-1'' ''node-2'' demo_world = (Ret (), demo_world\<lparr>trace := [EvGetVMVolumes (VolumeWhereID ''vol-1'')]\<rparr>)"
  using publishVolumeToVm_attached [of "demo_config\<lparr>TowerClient := demo_tower\<lparr>tc_GetVMVolumes :=
     (\<lambda>q x. (Inr [Some (demo_volume\<lparr>VMDisks := [Some \<lparr>ref_ID = Some ''disk of node-1''\<rparr>]\<rparr>)], x))\<rparr>\<rparr>"
     "''vol-1''" demo_world "demo_volume\<lparr>VMDisks := [Some \<lparr>ref_ID = Some ''disk of node-1''\<rparr>]\<rparr>" "[]" demo_state
     demo_os "''node-2''"]
  by (simp add: demo_world_def)

text \<open>
  Unpublishing is idempotent and detaches the right disk: with no disk of the volume on the
  node's VM it succeeds and changes nothing, else it asks for the removal of that disk alone;
  both under the node's lock.
\<close>

lemma ControllerUnpublishVolume_effects:
  assumes "cunpub_VolumeId req \<noteq> []" and "cunpub_NodeId req \<noteq> []"
    and "tc_GetVMDisks (TowerClient c) (cunpub_NodeId req) (cunpub_VolumeId req) (ext w) = (Inr disks, x)"
  shows "(disks = [] \<longrightarrow> ControllerUnpublishVolume os c req w =
      (Ret (), w\<lparr>ext := x, trace := trace w @ [EvLockKey (cunpub_NodeId req),
        EvGetVMDisks (cunpub_NodeId req) (cunpub_VolumeId req), EvUnlockKey (cunpub_NodeId req)]\<rparr>)) \<and>
    (\<forall>d ds i. disks = Some d # ds \<longrightarrow> disk_ID d = Some i \<longrightarrow> i \<noteq> [] \<longrightarrow>
       fst (ControllerUnpublishVolume os c req w) = Ret () \<longrightarrow>
       (\<exists>evs. trace (snd (ControllerUnpublishVolume os c req w)) = trace w @ evs \<and>
          filter mutates evs = [EvRemoveVMDisk (cunpub_NodeId req) [i]]))"
proof (intro conjI impI allI)
  let ?n = "cunpub_NodeId req" and ?v = "cunpub_VolumeId req"
  assume "disks = []"
  with assms show "ControllerUnpublishVolume os c req w =
      (Ret (), w\<lparr>ext := x, trace := trace w @ [EvLockKey ?n, EvGetVMDisks ?n ?v, EvUnlockKey ?n]\<rparr>)"
    by (simp add: ControllerUnpublishVolume_def unpublishVolumeFromVm_def GetVMDisks_def Let_def go_defs)
next
  let ?n = "cunpub_NodeId req" and ?v = "cunpub_VolumeId req"
  fix d ds i
  assume d: "disks = Some d # ds" "disk_ID d = Some i" "i \<noteq> []"
    and "fst (ControllerUnpublishVolume os c req w) = Ret ()"
  then obtain w' where run: "ControllerUnpublishVolume os c req w = (Ret (), w')" by (metis prod.collapse)
  with assms d obtain y t w1 where
    wait: "waitTask os c t (w\<lparr>ext := y, trace := trace w @ [EvLockKey ?n, EvGetVMDisks ?n ?v, EvRemoveVMDisk ?n [i]]\<rparr>)
      = (Ret (), w1)" and w': "w' = w1\<lparr>trace := trace w1 @ [EvUnlockKey ?n]\<rparr>"
    by (auto simp: ControllerUnpublishVolume_def unpublishVolumeFromVm_def api_defs Let_def ret_iffs emitE_def
        split: if_splits)
  have "emits (\<lambda>e. \<not> mutates e) (waitTask os c t)" by (intro emits_rules) (simp_all add: mutates_def)
  from emits_run [OF this wait] obtain evs where evs: "list_all (\<lambda>e. \<not> mutates e) evs"
    "trace w1 = trace w @ [EvLockKey ?n, EvGetVMDisks ?n ?v, EvRemoveVMDisk ?n [i]] @ evs" by auto
  from filter_mutates_none [OF evs(1)] evs(2) w' run show "\<exists>evs. trace (snd (ControllerUnpublishVolume os c req w)) = trace w @ evs \<and>
      filter mutates evs = [EvRemoveVMDisk ?n [i]]"
    by (intro exI [of _ "[EvLockKey ?n, EvGetVMDisks ?n ?v, EvRemoveVMDisk ?n [i]] @ evs @ [EvUnlockKey ?n]"])
       (simp add: mutates_def)
qed

lemma ControllerUnpublishVolume_effects_witness:
  "\<exists>evs. trace (snd (ControllerUnpublishVolume demo_os demo_config
       \<lparr>cunpub_VolumeId = ''vol-1'', cunpub_NodeId = ''node-1''\<rparr> demo_world)) = evs \<and>
     filter mutates evs = [EvRemoveVMDisk ''node-1'' [''d'']]"
proof -
  let ?req = "\<lparr>cunpub_VolumeId = ''vol-1'', cunpub_NodeId = ''node-1''\<rparr>"
  have "fst (ControllerUnpublishVolume demo_os demo_config ?req demo_world) = Ret ()"
    by (simp add: ControllerUnpublishVolume_def unpublishVolumeFromVm_def api_defs go_defs Let_def demo_task_def demo_wait)
  then show ?thesis
    using ControllerUnpublishVolume_effects [of ?req demo_config demo_world
        "[Some \<lparr>disk_ID = Some ''d'', Serial = Some ''serial-1-long''\<rparr>]" demo_state demo_os]
    by (simp add: demo_world_def)
qed

text \<open>
  \<open>ControllerExpandVolume\<close> changes nothing on the platform, whatever the request, and the
  capacity it reports is the current size of the volume, not the requested one.
\<close>

lemma ControllerExpandVolume_effects:
  "(\<exists>evs. trace (snd (ControllerExpandVolume c req w)) = trace w @ evs \<and> list_all (\<lambda>e. \<not> mutates e) evs) \<and>
   (\<forall>resp. fst (ControllerExpandVolume c req w) = Ret resp \<longrightarrow>
      (\<exists>vol vols x. tc_GetVMVolumes (TowerClient c) (VolumeWhereID (cexp_VolumeId req)) (ext w) = (Inr (Some vol # vols), x) \<and>
         Size vol = Some (cexp_CapacityBytes resp) \<and> cexp_NodeExpansionRequired resp))"
proof (intro conjI allI impI)
  have "emits (\<lambda>e. \<not> mutates e) (ControllerExpandVolume c req)"
    unfolding ControllerExpandVolume_def expandVolume_def Let_def
    by (intro emits_rules) (simp add: mutates_def)
  then show "\<exists>evs. trace (snd (ControllerExpandVolume c req w)) = trace w @ evs \<and> list_all (\<lambda>e. \<not> mutates e) evs"
    by (auto simp: emits_def)
  fix resp
  assume "fst (ControllerExpandVolume c req w) = Ret resp"
  then obtain w' where "ControllerExpandVolume c req w = (Ret resp, w')" by (metis prod.collapse)
  then obtain payload vol x where "tc_GetVMVolumes (TowerClient c) (VolumeWhereID (cexp_VolumeId req)) (ext w) = (Inr payload, x)"
    "payload \<noteq> []" "Some vol = hd payload" "Size vol = Some (cexp_CapacityBytes resp)" "cexp_NodeExpansionRequired resp"
    by (auto simp: ControllerExpandVolume_def getVolume_def api_defs Let_def ret_iffs split: if_splits)
  then show "\<exists>vol vols x. tc_GetVMVolumes (TowerClient c) (VolumeWhereID (cexp_VolumeId req)) (ext w) = (Inr (Some vol # vols), x) \<and>
      Size vol = Some (cexp_CapacityBytes resp) \<and> cexp_NodeExpansionRequired resp"
    by (cases payload) auto
qed

lemma ControllerExpandVolume_effects_witness:
  "\<exists>vol vols x. tc_GetVMVolumes demo_tower (VolumeWhereID ''vol-1'') demo_state = (Inr (Some vol # vols), x) \<and>
     Size vol = Some 1073741824"
proof -
  let ?req = "\<lparr>cexp_VolumeId = ''vol-1'', cexp_CapacityRange = Some \<lparr>RequiredBytes = 5368709120, LimitBytes = 0\<rparr>,
    cexp_VolumeCapability = None\<rparr>"
  have "getVolumeSize (cexp_CapacityRange ?req) = Ret 5368709120" by code_simp
  then have "fst (ControllerExpandVolume demo_config ?req demo_world) =
      Ret \<lparr>cexp_CapacityBytes = 1073741824, cexp_NodeExpansionRequired = True\<rparr>"
    by (simp add: ControllerExpandVolume_def getVolume_def expandVolume_def api_defs go_defs Let_def demo_volume_def)
  then show ?thesis using ControllerExpandVolume_effects [of demo_config ?req demo_world]
    by (simp add: demo_world_def)
qed

section \<open>Properties: rejected requests\<close>

text \<open>The guards of the handlers.\<close>

definition negative_range :: "CapacityRange option \<Rightarrow> bool" where
  "negative_range r \<longleftrightarrow> sint (GetRequiredBytes r) < 0 \<and> sint (GetLimitBytes r) < 0"

text \<open>The first capability that is not for a single node has a mode that is none of the multi-node ones.\<close>

definition sharing_unknown :: "VolumeCapability option list \<Rightarrow> bool" where
  "sharing_unknown caps \<longleftrightarrow>
     (case find (\<lambda>c. GetMode c \<notin> {SINGLE_NODE_READER_ONLY, SINGLE_NODE_WRITER}) caps of
        None \<Rightarrow> False
      | Some c \<Rightarrow> GetMode c \<notin> {MULTI_NODE_MULTI_WRITER, MULTI_NODE_READER_ONLY, MULTI_NODE_SINGLE_WRITER})"

definition create_invalid :: "unicode \<Rightarrow> CreateVolumeRequest \<Rightarrow> bool" where
  "create_invalid u req \<longleftrightarrow> ToLower u (create_Name req) = [] \<or> negative_range (create_CapacityRange req) \<or>
     sharing_unknown (create_VolumeCapabilities req)"

definition publish_invalid :: "ControllerPublishVolumeRequest \<Rightarrow> bool" where
  "publish_invalid req \<longleftrightarrow> cpub_VolumeId req = [] \<or> cpub_Readonly req \<or> cpub_NodeId req = [] \<or>
     cpub_VolumeCapability req = None"

definition unpublish_invalid :: "ControllerUnpublishVolumeRequest \<Rightarrow> bool" where
  "unpublish_invalid req \<longleftrightarrow> cunpub_VolumeId req = [] \<or> cunpub_NodeId req = []"

definition validate_invalid :: "ValidateVolumeCapabilitiesRequest \<Rightarrow> bool" where
  "validate_invalid req \<longleftrightarrow> val_VolumeId req = [] \<or> checkVolumeCapabilities (val_VolumeCapabilities req) \<noteq> Ret ()"

definition expand_invalid :: "ControllerExpandVolumeRequest \<Rightarrow> bool" where
  "expand_invalid req \<longleftrightarrow> cexp_VolumeId req = [] \<or> cexp_CapacityRange req = None \<or>
     (cexp_VolumeCapability req \<noteq> None \<and> checkVolumeCapabilities [cexp_VolumeCapability req] \<noteq> Ret ()) \<or>
     negative_range (cexp_CapacityRange req)"

lemma checkVolumeCapabilities_code:
  "checkVolumeCapabilities cs \<noteq> Ret () \<Longrightarrow>
   \<exists>s as. checkVolumeCapabilities cs = Fail (StatusErr InvalidArgument s as)"
  using checkCapabilityList_code [of cs] by (auto simp: checkVolumeCapabilities_def split: if_splits)

lemma getVolumeSize_guard:
  "negative_range r \<Longrightarrow> getVolumeSize r = Fail (StatusErr InvalidArgument ''volume capcity range error %+v'' [ARange r])"
  "\<not> negative_range r \<Longrightarrow> \<exists>s. getVolumeSize r = Ret s"
  by (rule getVolumeSize_cases [of r]; simp add: negative_range_def)+

lemma checkNeedSharing_guard:
  "sharing_unknown cs \<Longrightarrow> \<exists>s as. checkNeedSharing cs = Fail (StatusErr InvalidArgument s as)"
  "\<not> sharing_unknown cs \<Longrightarrow> \<exists>b. checkNeedSharing cs = Ret b"
  by (auto simp: checkNeedSharing_spec sharing_unknown_def split: option.splits)

lemma starts_queries [starts_rules]:
  "starts (EvGetVMVolumes q) (GetVMVolumes c q)"
  "starts (EvConfigMapGet (nm_name m)) (Get m k)"
  "starts (EvGetVMVolumes (VolumeWhereID v)) (getVolume c v)"
  unfolding GetVMVolumes_def Get_def getVolume_def by (intro starts_rules emits_rules)+

interpretation create_rpc: rpc_guards "CreateVolume os c" "create_invalid (os_unicode os)" "{InvalidArgument}"
    "\<lambda>req. EvGetVMVolumes (VolumeWhereName (ToLower (os_unicode os) (create_Name req)))"
proof
  fix req :: CreateVolumeRequest and w
  assume bad: "create_invalid (os_unicode os) req"
  show "\<exists>k msg args. CreateVolume os c req w = (Fail (StatusErr k msg args), w) \<and> k \<in> {InvalidArgument}"
  proof (cases "ToLower (os_unicode os) (create_Name req) = [] \<or> negative_range (create_CapacityRange req)")
    case True
    then show ?thesis by (auto simp: CreateVolume_def Let_def failE_def getVolumeSize_guard(1))
  next
    case False
    with bad have "sharing_unknown (create_VolumeCapabilities req)" by (simp add: create_invalid_def)
    with False getVolumeSize_guard(2) checkNeedSharing_guard(1) obtain s msg as where
      "getVolumeSize (create_CapacityRange req) = Ret s"
      "checkNeedSharing (create_VolumeCapabilities req) = Fail (StatusErr InvalidArgument msg as)" by blast
    with False show ?thesis by (simp add: CreateVolume_def Let_def failE_def)
  qed
next
  fix req :: CreateVolumeRequest
  let ?e = "EvGetVMVolumes (VolumeWhereName (ToLower (os_unicode os) (create_Name req)))"
  assume "\<not> create_invalid (os_unicode os) req"
  then have ok: "ToLower (os_unicode os) (create_Name req) \<noteq> []" "\<not> negative_range (create_CapacityRange req)"
    "\<not> sharing_unknown (create_VolumeCapabilities req)" by (simp_all add: create_invalid_def)
  obtain s sh where "getVolumeSize (create_CapacityRange req) = Ret s" "checkNeedSharing (create_VolumeCapabilities req) = Ret sh"
    using getVolumeSize_guard(2) [OF ok(2)] checkNeedSharing_guard(2) [OF ok(3)] by blast
  moreover have "starts ?e (createVmVolume os c cl (ToLower (os_unicode os) (create_Name req)) sp sz sh)" for cl sp sz sh
    unfolding createVmVolume_def by (intro starts_rules emits_rules TrueI)
  ultimately show "starts ?e (CreateVolume os c req)"
    using ok(1) by (simp add: CreateVolume_def Let_def) (intro starts_rules emits_rules TrueI; assumption)
qed

interpretation delete_rpc: rpc_guards "DeleteVolume os c" "\<lambda>v. v = []" "{InvalidArgument}" "\<lambda>v. EvGetVMVolumes (VolumeWhereID v)"
  by unfold_locales
     (simp add: DeleteVolume_def failE_def, simp add: DeleteVolume_def, intro starts_rules emits_rules TrueI)

interpretation publish_rpc: rpc_guards "ControllerPublishVolume os c" publish_invalid "{InvalidArgument}"
    "\<lambda>req. EvConfigMapGet (nm_name (cfg_NodeMap c))"
  by unfold_locales
     (auto simp: ControllerPublishVolume_def publish_invalid_def Let_def failE_def intro!: starts_rules emits_rules)

interpretation unpublish_rpc: rpc_guards "ControllerUnpublishVolume os c" unpublish_invalid "{InvalidArgument}"
    "\<lambda>req. EvLockKey (cunpub_NodeId req)"
  by unfold_locales
     (auto simp: ControllerUnpublishVolume_def unpublish_invalid_def Let_def failE_def intro!: starts_rules emits_rules)

interpretation validate_rpc: rpc_guards "ValidateVolumeCapabilities c" validate_invalid "{InvalidArgument}"
    "\<lambda>req. EvGetVMVolumes (VolumeWhereID (val_VolumeId req))"
proof
  fix req w
  assume "validate_invalid req"
  with checkVolumeCapabilities_code [of "val_VolumeCapabilities req"] show
    "\<exists>k msg args. ValidateVolumeCapabilities c req w = (Fail (StatusErr k msg args), w) \<and> k \<in> {InvalidArgument}"
    by (auto simp: ValidateVolumeCapabilities_def validate_invalid_def Let_def failE_def)
next
  fix req
  assume "\<not> validate_invalid req"
  then show "starts (EvGetVMVolumes (VolumeWhereID (val_VolumeId req))) (ValidateVolumeCapabilities c req)"
    by (auto simp: ValidateVolumeCapabilities_def validate_invalid_def Let_def intro!: starts_rules emits_rules)
qed

interpretation expand_rpc: rpc_guards "ControllerExpandVolume c" expand_invalid "{InvalidArgument}"
    "\<lambda>req. EvGetVMVolumes (VolumeWhereID (cexp_VolumeId req))"
proof
  fix req w
  assume bad: "expand_invalid req"
  show "\<exists>k msg args. ControllerExpandVolume c req w = (Fail (StatusErr k msg args), w) \<and> k \<in> {InvalidArgument}"
  proof (cases "cexp_VolumeCapability req \<noteq> None \<and> checkVolumeCapabilities [cexp_VolumeCapability req] \<noteq> Ret ()")
    case True
    with checkVolumeCapabilities_code [of "[cexp_VolumeCapability req]"] show ?thesis
      by (auto simp: ControllerExpandVolume_def Let_def failE_def)
  next
    case False
    with bad show ?thesis
      by (auto simp: expand_invalid_def ControllerExpandVolume_def getVolumeSize_guard(1) Let_def failE_def)
  qed
next
  fix req
  assume ok: "\<not> expand_invalid req"
  then obtain s where s: "getVolumeSize (cexp_CapacityRange req) = Ret s"
    using getVolumeSize_guard(2) by (auto simp: expand_invalid_def)
  from ok have guard: "(if cexp_VolumeCapability req \<noteq> None then liftR (checkVolumeCapabilities [cexp_VolumeCapability req])
      else returnE ()) = returnE ()" by (auto simp: expand_invalid_def)
  from ok have ids: "cexp_VolumeId req \<noteq> []" "cexp_CapacityRange req \<noteq> None" by (auto simp: expand_invalid_def)
  show "starts (EvGetVMVolumes (VolumeWhereID (cexp_VolumeId req))) (ControllerExpandVolume c req)"
    unfolding ControllerExpandVolume_def Let_def guard bindE_returnE s liftR_simps if_not_P [OF ids(1)] if_not_P [OF ids(2)]
    by (intro starts_rules emits_rules TrueI) (simp add: expandVolume_def emits_rules)
qed


end
