(* ===== verification/Go_Url.thy ===== *)
theory Go_Url
  imports Go_Strings
begin

text \<open>
  \<open>net/url.Parse\<close> of the Go standard library, with the parts of the result the driver reads:
  scheme, host and path.  Query, fragment and user information are checked as \<open>Parse\<close> checks
  them and then dropped; an error is \<open>None\<close>.
\<close>

record url =
  Scheme :: string
  Host :: string
  UPath :: string

section \<open>Characters\<close>

definition is_lower :: "char \<Rightarrow> bool" where "is_lower c = (97 \<le> ord c \<and> ord c \<le> 122)"
definition is_upper :: "char \<Rightarrow> bool" where "is_upper c = (65 \<le> ord c \<and> ord c \<le> 90)"

definition unhex :: "char \<Rightarrow> nat option" where
  "unhex c =
     (if is_digit c then Some (ord c - 48)
      else if 97 \<le> ord c \<and> ord c \<le> 102 then Some (ord c - 87)
      else if 65 \<le> ord c \<and> ord c \<le> 70 then Some (ord c - 55)
      else None)"

definition is_ctl :: "char \<Rightarrow> bool" where "is_ctl c = (ord c < 32 \<or> ord c = 127)"

text \<open>\<open>shouldEscape\<close> in the modes \<open>encodeHost\<close> and \<open>encodeZone\<close>.\<close>

definition shouldEscapeHost :: "char \<Rightarrow> bool" where
  "shouldEscapeHost c =
     (\<not> (is_lower c \<or> is_upper c \<or> is_digit c \<or>
         c \<in> set ''!$&()*+,;=:[]<>-_.~'' \<or> ord c = 39 \<or> ord c = 34))"

definition validUserinfo :: "string \<Rightarrow> bool" where
  "validUserinfo s =
     list_all (\<lambda>c. is_lower c \<or> is_upper c \<or> is_digit c \<or> c \<in> set ''-._:~!$&()*+,;=%@'' \<or> ord c = 39) s"

section \<open>Unescaping\<close>

datatype escape_mode = EncodePath | EncodeUserPassword | EncodeFragment | EncodeHost | EncodeZone

text \<open>\<open>unescape\<close>: the checks of its first loop and the bytes of its second, in one pass.\<close>

fun unescape :: "escape_mode \<Rightarrow> string \<Rightarrow> string option" where
  "unescape mode [] = Some []"
| "unescape mode (c # cs) =
     (if c = CHR ''%'' then
        (case cs of
           h # l # rest \<Rightarrow>
             (case (unhex h, unhex l) of
                (Some x, Some y) \<Rightarrow>
                  if mode = EncodeHost \<and> x < 8 \<and> \<not> (h = CHR ''2'' \<and> l = CHR ''5'') then None
                  else if mode = EncodeZone \<and> \<not> (h = CHR ''2'' \<and> l = CHR ''5'') \<and> 16 * x + y \<noteq> 32
                       \<and> shouldEscapeHost (char_of (16 * x + y)) then None
                  else map_option ((#) (char_of (16 * x + y))) (unescape mode rest)
              | _ \<Rightarrow> None)
         | _ \<Rightarrow> None)
      else if (mode = EncodeHost \<or> mode = EncodeZone) \<and> ord c < 128 \<and> shouldEscapeHost c then None
      else map_option ((#) c) (unescape mode cs))"

section \<open>Splitting\<close>

text \<open>\<open>strings.Cut\<close> at one byte.\<close>

fun Cut :: "char \<Rightarrow> string \<Rightarrow> string \<times> string" where
  "Cut c [] = ([], [])"
| "Cut c (x # xs) = (if x = c then ([], xs) else (let (a, b) = Cut c xs in (x # a, b)))"

text \<open>\<open>strings.LastIndex\<close> of one byte: the parts before and after its last occurrence.\<close>

fun cutLast :: "char \<Rightarrow> string \<Rightarrow> (string \<times> string) option" where
  "cutLast c [] = None"
| "cutLast c (x # xs) =
     (case cutLast c xs of
        Some (a, b) \<Rightarrow> Some (x # a, b)
      | None \<Rightarrow> if x = c then Some ([], xs) else None)"

text \<open>\<open>getScheme\<close>: the scheme read so far is \<open>acc\<close>, reversed.\<close>

fun getScheme_from :: "string \<Rightarrow> string \<Rightarrow> string \<Rightarrow> (string \<times> string) option" where
  "getScheme_from raw acc [] = Some ([], raw)"
| "getScheme_from raw acc (c # cs) =
     (if is_lower c \<or> is_upper c then getScheme_from raw (c # acc) cs
      else if is_digit c \<or> c \<in> set ''+-.''
      then (if acc = [] then Some ([], raw) else getScheme_from raw (c # acc) cs)
      else if c = CHR '':'' then (if acc = [] then None else Some (rev acc, cs))
      else Some ([], raw))"

definition getScheme :: "string \<Rightarrow> (string \<times> string) option" where
  "getScheme raw = getScheme_from raw [] raw"

section \<open>Authority\<close>

definition validOptionalPort :: "string \<Rightarrow> bool" where
  "validOptionalPort port =
     (case port of [] \<Rightarrow> True | c # cs \<Rightarrow> c = CHR '':'' \<and> list_all is_digit cs)"

fun find_zone :: "string \<Rightarrow> nat option" where
  \<comment> \<open>\<open>strings.Index(s, "%25")\<close>\<close>
  "find_zone [] = None"
| "find_zone (c # cs) =
     (if take 3 (c # cs) = ''%25'' then Some 0 else map_option Suc (find_zone cs))"

definition parseHost :: "string \<Rightarrow> string option" where
  "parseHost host =
     (if HasPrefix host ''['' then
        (case cutLast (CHR '']'') host of
           None \<Rightarrow> None
         | Some (before, colonPort) \<Rightarrow>
             if \<not> validOptionalPort colonPort then None
             else (case find_zone before of
                     Some zone \<Rightarrow>
                       (case (unescape EncodeHost (take zone host), unescape EncodeZone (drop zone before),
                              unescape EncodeHost (CHR '']'' # colonPort)) of
                          (Some h1, Some h2, Some h3) \<Rightarrow> Some (h1 @ h2 @ h3)
                        | _ \<Rightarrow> None)
                   | None \<Rightarrow> unescape EncodeHost host))
      else
        (case cutLast (CHR '':'') host of
           Some (before, after) \<Rightarrow>
             if \<not> validOptionalPort (CHR '':'' # after) then None else unescape EncodeHost host
         | None \<Rightarrow> unescape EncodeHost host))"

definition parseAuthority :: "string \<Rightarrow> string option" where
  "parseAuthority authority =
     (case cutLast (CHR ''@'') authority of
        None \<Rightarrow> parseHost authority
      | Some (userinfo, h) \<Rightarrow>
          (case parseHost h of
             None \<Rightarrow> None
           | Some host \<Rightarrow>
               if \<not> validUserinfo userinfo then None
               else (let (username, password) = Cut (CHR '':'') userinfo in
                     case (unescape EncodeUserPassword username, unescape EncodeUserPassword password) of
                       (Some _, Some _) \<Rightarrow> Some host
                     | _ \<Rightarrow> None)))"

section \<open>Parse\<close>

definition lowerASCII :: "char \<Rightarrow> char" where
  "lowerASCII c = (if is_upper c then char_of (ord c + 32) else c)"

text \<open>\<open>parse\<close> with \<open>viaRequest\<close> false, on the part before the fragment.\<close>

definition parse_url :: "string \<Rightarrow> url option" where
  "parse_url raw =
     (if list_ex is_ctl raw then None
      else if raw = ''*'' then Some \<lparr>Scheme = [], Host = [], UPath = ''*''\<rparr>
      else case getScheme raw of
        None \<Rightarrow> None
      | Some (scheme, r) \<Rightarrow>
          (let scheme = map lowerASCII scheme;
               rest = fst (Cut (CHR ''?'') r) in
           if \<not> HasPrefix rest ''/'' \<and> scheme \<noteq> [] then Some \<lparr>Scheme = scheme, Host = [], UPath = []\<rparr>
           else if \<not> HasPrefix rest ''/'' \<and> CHR '':'' \<in> set (fst (Cut slash rest)) then None
           else if (scheme \<noteq> [] \<or> \<not> HasPrefix rest ''///'') \<and> HasPrefix rest ''//''
           then (let authority = takeWhile (\<lambda>c. c \<noteq> slash) (drop 2 rest);
                     p = dropWhile (\<lambda>c. c \<noteq> slash) (drop 2 rest) in
                 case (parseAuthority authority, unescape EncodePath p) of
                   (Some h, Some path) \<Rightarrow> Some \<lparr>Scheme = scheme, Host = h, UPath = path\<rparr>
                 | _ \<Rightarrow> None)
           else (case unescape EncodePath rest of
                   Some path \<Rightarrow> Some \<lparr>Scheme = scheme, Host = [], UPath = path\<rparr>
                 | None \<Rightarrow> None)))"

definition Parse :: "string \<Rightarrow> url option" where
  "Parse rawURL =
     (let (u, frag) = Cut (CHR ''#'') rawURL in
      case parse_url u of
        None \<Rightarrow> None
      | Some url \<Rightarrow>
          if frag = [] then Some url
          else (case unescape EncodeFragment frag of None \<Rightarrow> None | Some _ \<Rightarrow> Some url))"

section \<open>Addresses of the form scheme://host:port\<close>

lemma Cut_none: "c \<notin> set s \<Longrightarrow> Cut c s = (s, [])"
  by (induction s) auto

lemma cutLast_none: "c \<notin> set s \<Longrightarrow> cutLast c s = None"
  by (induction s) auto

lemma cutLast_at: "c \<notin> set b \<Longrightarrow> cutLast c (a @ c # b) = Some (a, b)"
  by (induction a) (auto simp: cutLast_none)

lemma unescape_plain:
  "list_all (\<lambda>c. c \<noteq> CHR ''%'' \<and> \<not> shouldEscapeHost c) s \<Longrightarrow> unescape mode s = Some s"
  by (induction s) auto

text \<open>The characters of an IPv4 address or a host name.\<close>

definition host_char :: "char \<Rightarrow> bool" where
  "host_char c = (is_lower c \<or> is_upper c \<or> is_digit c \<or> c = CHR ''.'' \<or> c = CHR ''-'')"

lemma host_char_plain:
  assumes "host_char c"
  shows "c \<noteq> CHR ''%'' \<and> \<not> shouldEscapeHost c \<and> \<not> is_ctl c \<and>
    c \<notin> {CHR ''#'', CHR ''?'', slash, CHR ''@'', CHR '':'', CHR ''['', CHR '']''}"
  using assms by (auto simp: host_char_def shouldEscapeHost_def is_ctl_def is_lower_def is_upper_def is_digit_def)

lemma digit_host_char: "is_digit c \<Longrightarrow> host_char c"
  by (simp add: host_char_def)

lemma parseHost_plain:
  assumes "list_all host_char h" and "list_all is_digit p"
  shows "parseHost (h @ CHR '':'' # p) = Some (h @ CHR '':'' # p)"
proof -
  have port: "CHR '':'' \<notin> set p" using assms(2) by (auto simp: list_all_iff is_digit_def)
  have "\<not> shouldEscapeHost (CHR '':'')" by code_simp
  then have "list_all (\<lambda>c. c \<noteq> CHR ''%'' \<and> \<not> shouldEscapeHost c) (h @ CHR '':'' # p)"
    using assms by (auto simp: list_all_iff dest: digit_host_char host_char_plain)
  moreover have "\<not> HasPrefix (h @ CHR '':'' # p) ''[''"
    using assms(1) by (cases h) (auto simp: HasPrefix_def dest: host_char_plain)
  ultimately show ?thesis using assms(2)
    by (simp add: parseHost_def cutLast_at [OF port] validOptionalPort_def unescape_plain)
qed

text \<open>A TCP address of plain characters parses as its host does.\<close>

lemma Parse_tcp_host:
  assumes "list_all host_char h" and "list_all host_char p"
  shows "Parse (''tcp://'' @ h @ CHR '':'' # p) =
    map_option (\<lambda>host. \<lparr>Scheme = ''tcp'', Host = host, UPath = []\<rparr>) (parseHost (h @ CHR '':'' # p))"
proof -
  define a where "a = h @ CHR '':'' # p"
  let ?raw = "''tcp://'' @ a"
  have plain: "c \<notin> {CHR ''#'', CHR ''?'', slash, CHR ''@''} \<and> \<not> is_ctl c" if "c \<in> set a" for c
  proof -
    from that assms have "host_char c \<or> c = CHR '':''" by (auto simp: a_def list_all_iff)
    then show ?thesis using host_char_plain [of c] by (auto simp: is_ctl_def)
  qed
  have frag: "Cut (CHR ''#'') ?raw = (?raw, [])"
    using plain by (intro Cut_none) fastforce
  have query: "Cut (CHR ''?'') (''//'' @ a) = (''//'' @ a, [])"
    using plain by (intro Cut_none) fastforce
  have ctl: "\<not> list_ex is_ctl ?raw"
    using plain by (auto simp: list_ex_iff is_ctl_def)
  have scheme: "getScheme ?raw = Some (''tcp'', ''//'' @ a)"
    by (simp add: getScheme_def is_lower_def is_upper_def is_digit_def)
  have lower: "lowerASCII (CHR ''t'') = CHR ''t''" "lowerASCII (CHR ''c'') = CHR ''c''" "lowerASCII (CHR ''p'') = CHR ''p''"
    by code_simp+
  have noslash: "slash \<notin> set a" using plain [of slash] by blast
  have take: "takeWhile (\<lambda>c. c \<noteq> slash) a = a" by (rule takeWhile_all_id [OF noslash])
  have drop: "dropWhile (\<lambda>c. c \<noteq> slash) a = []" unfolding dropWhile_eq_Nil_conv using noslash by blast
  have "CHR ''@'' \<notin> set a" using plain [of "CHR ''@''"] by blast
  then have "cutLast (CHR ''@'') a = None" by (rule cutLast_none)
  then have auth: "parseAuthority a = parseHost a" by (simp add: parseAuthority_def)
  have "parse_url ?raw = map_option (\<lambda>host. \<lparr>Scheme = ''tcp'', Host = host, UPath = []\<rparr>) (parseHost a)"
    unfolding parse_url_def scheme using ctl query
    by (simp add: Let_def HasPrefix_def take drop auth lower split: option.splits)
  then show ?thesis unfolding Parse_def
    by (cases "parseHost a") (simp_all add: frag [simplified] a_def [symmetric])
qed

lemma Parse_tcp:
  assumes "list_all host_char h" and "list_all is_digit p"
  shows "Parse (''tcp://'' @ h @ CHR '':'' # p) = Some \<lparr>Scheme = ''tcp'', Host = h @ CHR '':'' # p, UPath = []\<rparr>"
  using assms Parse_tcp_host [of h p] parseHost_plain [OF assms]
  by (simp add: list_all_iff digit_host_char)

text \<open>A port with a sign is not a port.\<close>

lemma Parse_tcp_signed:
  assumes "list_all host_char h" and "list_all is_digit p"
  shows "Parse (''tcp://'' @ h @ '':-'' @ p) = None"
proof -
  have port: "CHR '':'' \<notin> set (CHR ''-'' # p)" using assms(2) by (auto simp: list_all_iff is_digit_def)
  have "\<not> HasPrefix (h @ '':-'' @ p) ''[''"
    using assms(1) by (cases h) (auto simp: HasPrefix_def dest: host_char_plain)
  then have "parseHost (h @ CHR '':'' # CHR ''-'' # p) = None"
    by (simp add: parseHost_def cutLast_at [OF port] validOptionalPort_def is_digit_def)
  moreover have "list_all host_char (CHR ''-'' # p)" using assms(2) by (simp add: list_all_iff digit_host_char) (simp add: host_char_def)
  ultimately show ?thesis using Parse_tcp_host [OF assms(1), of "CHR ''-'' # p"] by simp
qed

end
