(* ===== verification/Driver_Server.thy ===== *)
theory Driver_Server
  imports Node_Correct Controller_Correct Go_Url
begin

text \<open>
  \<open>pkg/driver/driver.go\<close>, \<open>identity.go\<close>, \<open>liveness.go\<close> and \<open>makeListener\<close> of \<open>utils.go\<close>: the
  assembly of the services by role, the identity service, the liveness service, and the order
  in which \<open>Run\<close> brings the driver up.  The goroutines that stop the servers when the process is
  told to are in \<open>Lifecycle\<close>; \<open>serve\<close> is what \<open>grpcServer.Serve\<close> returns when it ends.
\<close>

section \<open>Listening\<close>

definition makeListener :: "'w os \<Rightarrow> string \<Rightarrow> ('w, unit) io" where
  "makeListener os socketaddr =
     (case Parse socketaddr of
        None \<Rightarrow> failE (Errorf ''parse socket addr %v, %v'' [AStr socketaddr])
      | Some serverURL \<Rightarrow>
          (let serverAddr = (if Host serverURL = [] then UPath serverURL
                             else JoinPath [Host serverURL, UPath serverURL]) in
           bindE (if Scheme serverURL = ''unix''
                  then bindE (attemptE (callE (EvRemove serverAddr) (os_Remove os serverAddr))) (\<lambda>r.
                       case r of
                         Inl err \<Rightarrow>
                           if \<not> IsNotExist err
                           then failE (Errorf ''remove unix domain socket file %v,  %v'' [AStr serverAddr, AErr err])
                           else returnE ()
                       | Inr _ \<Rightarrow> returnE ())
                  else returnE ()) (\<lambda>_.
           wrapE (\<lambda>err. Errorf ''listen %v,  %v'' [AStr serverAddr, AErr err])
             (callE (EvListen (Scheme serverURL) serverAddr) (os_Listen os (Scheme serverURL) serverAddr)))))"

section \<open>Identity\<close>

definition GetPluginInfo :: "'w DriverConfig \<Rightarrow> ('w, string \<times> string) io" where
  "GetPluginInfo c = returnE (DriverName c, Version c)"

definition GetPluginCapabilities :: "('w, PluginCapability list) io" where
  "GetPluginCapabilities = returnE [CONTROLLER_SERVICE, VOLUME_EXPANSION_ONLINE]"

definition Probe :: "('w, bool) io" where
  "Probe = returnE True"

section \<open>Liveness\<close>

definition Liveness :: "('w, bool) io" where
  \<comment> \<open>the reply's \<open>Health\<close>\<close>
  "Liveness = returnE True"

definition livenessURL :: "'w DriverConfig \<Rightarrow> string \<Rightarrow> string" where
  "livenessURL c nodeIP = ''tcp://'' @ nodeIP @ '':'' @ itoa (cfg_LivenessPort c)"

definition NodeLivenessServer_Run :: "'w os \<Rightarrow> 'w DriverConfig \<Rightarrow> ('w, unit) io" where
  "NodeLivenessServer_Run os c =
     bindE (getNodeIP os) (\<lambda>nodeIP. makeListener os (livenessURL c nodeIP))"

section \<open>The driver\<close>

definition NODE :: string where "NODE = ''node''"
definition CONTROLLER :: string where "CONTROLLER = ''controller''"
definition ROLE_ALL :: string where "ROLE_ALL = ''all''"

text \<open>The servers of the \<open>Driver\<close> struct: whether each pointer is set.\<close>

record 'w Driver =
  drv_config :: "'w DriverConfig"
  drv_identity :: bool
  drv_controller :: bool
  drv_node :: bool
  drv_nodeLivenessServer :: bool

definition NewDriver :: "'w DriverConfig \<Rightarrow> 'w Driver" where
  "NewDriver config =
     (let driver = \<lparr>drv_config = config, drv_identity = False, drv_controller = False, drv_node = False,
                    drv_nodeLivenessServer = False\<rparr>;
          driver = driver\<lparr>drv_identity := True\<rparr>;
          driver = (if Role config = NODE \<or> Role config = ROLE_ALL
                    then driver\<lparr>drv_node := True, drv_nodeLivenessServer := True\<rparr> else driver);
          driver = (if Role config = CONTROLLER \<or> Role config = ROLE_ALL
                    then driver\<lparr>drv_controller := True\<rparr> else driver)
      in driver)"

text \<open>
  Every call of a service goes through the log interceptor of \<open>Run\<close>, except that the calls and
  answers of \<open>Probe\<close> are not logged; its errors are.
\<close>

definition shouldIgnoredMethod :: string where
  "shouldIgnoredMethod = ''/csi.v1.Identity/Probe''"

definition grpcLogInterceptor :: "string \<Rightarrow> ('w, 'a) io \<Rightarrow> ('w, 'a) io" where
  "grpcLogInterceptor fullMethod handler =
     (let shouldLog = (fullMethod \<noteq> shouldIgnoredMethod) in
      bindE (if shouldLog then emitE (EvLog ''start call'' fullMethod) else returnE ()) (\<lambda>_.
      bindE (attemptE handler) (\<lambda>r.
      case r of
        Inl err \<Rightarrow> bindE (emitE (EvLog ''error'' fullMethod)) (\<lambda>_. failE err)
      | Inr resp \<Rightarrow>
          bindE (if shouldLog then emitE (EvLog ''call'' fullMethod) else returnE ()) (\<lambda>_. returnE resp))))"

text \<open>
  A call through a nil interface or pointer panics; \<open>csi.RegisterXServer\<close> of a nil server does
  not.  The registrations of the gRPC server are events.
\<close>

definition Run :: "'w os \<Rightarrow> ('w, unit) ext_fun \<Rightarrow> 'w Driver \<Rightarrow> ('w, unit) io" where
  "Run os serve d =
     (let c = drv_config d in
      bindE (if drv_identity d then emitE (EvRegister ''Identity'') else returnE ()) (\<lambda>_.
      bindE (if Role c = ROLE_ALL \<or> Role c = CONTROLLER then emitE (EvRegister ''Controller'') else returnE ()) (\<lambda>_.
      bindE (if Role c = ROLE_ALL \<or> Role c = NODE
             then bindE (if drv_node d then registerNodeEntry os c else panicE) (\<lambda>_.
                  bindE (if drv_nodeLivenessServer d then NodeLivenessServer_Run os c else panicE) (\<lambda>_.
                  emitE (EvRegister ''Node'')))
             else returnE ()) (\<lambda>_.
      bindE (makeListener os (ServerAddr c)) (\<lambda>_.
      callE EvServe serve)))))"

section \<open>Listening: facts\<close>

lemma emits_makeListener [emits_rules]:
  assumes "\<And>p. P (EvRemove p)" and "\<And>n a. P (EvListen n a)"
  shows "emits P (makeListener os addr)"
  unfolding makeListener_def Let_def by (intro emits_rules assms)

lemma emits_registerNodeEntry [emits_rules]:
  assumes "\<And>k. P (EvLookupEnv k)" and "P (EvConfigMapGet (nm_name (cfg_NodeMap c)))"
    and "\<And>m. P (EvConfigMapUpdate (nm_name (cfg_NodeMap c)) m)" and "\<And>d. P (EvSleep d)"
  shows "emits P (registerNodeEntry os c)"
  unfolding registerNodeEntry_def getNodeIP_def by (intro emits_rules assms)

lemma emits_NodeLivenessServer_Run [emits_rules]:
  assumes "\<And>k. P (EvLookupEnv k)" and "\<And>p. P (EvRemove p)" and "\<And>n a. P (EvListen n a)"
  shows "emits P (NodeLivenessServer_Run os c)"
  unfolding NodeLivenessServer_Run_def getNodeIP_def by (intro emits_rules assms)

lemma Clean_host_port:
  assumes "ordinary a"
  shows "JoinPath [a, []] = a"
proof -
  have a: "slash \<notin> set a" "a \<noteq> []" "a \<noteq> ''.''" "a \<noteq> ''..''" using assms by (auto simp: ordinary_def)
  then have "hd a \<noteq> slash" by (cases a) auto
  moreover have "Split slash (a @ ''/'') = [a, []]"
    using Split_append_sep [OF a(1), of "[]"] by simp
  ultimately show ?thesis using a by (simp add: Clean_def clean_step_def)
qed

lemma colon_ordinary: "CHR '':'' \<in> set s \<Longrightarrow> slash \<notin> set s \<Longrightarrow> ordinary s"
  by (auto simp: ordinary_def)

text \<open>A node IP: host characters only, as in an IPv4 address.\<close>

lemma makeListener_tcp:
  assumes "list_all host_char ip" and "0 \<le> port"
  shows "makeListener os (''tcp://'' @ ip @ '':'' @ itoa port) =
    wrapE (\<lambda>err. Errorf ''listen %v,  %v'' [AStr (ip @ '':'' @ itoa port), AErr err])
      (callE (EvListen ''tcp'' (ip @ '':'' @ itoa port)) (os_Listen os ''tcp'' (ip @ '':'' @ itoa port)))"
proof -
  have p: "itoa port = utoa (nat port)" using assms(2) by (simp add: itoa_def)
  have parsed: "Parse (''tcp://'' @ ip @ '':'' @ utoa (nat port)) =
      Some \<lparr>Scheme = ''tcp'', Host = ip @ '':'' @ utoa (nat port), UPath = []\<rparr>"
    using Parse_tcp [OF assms(1) utoa_is_digit] by simp
  have "slash \<notin> set (ip @ '':'' @ utoa (nat port))"
    using assms(1) utoa_is_digit [of "nat port"] by (auto simp: list_all_iff dest: host_char_plain digit_host_char)
  moreover have "CHR '':'' \<in> set (ip @ '':'' @ utoa (nat port))" by simp
  ultimately have "ordinary (ip @ '':'' @ utoa (nat port))" by (intro colon_ordinary)
  from Clean_host_port [OF this] show ?thesis unfolding makeListener_def p parsed by (simp add: Let_def)
qed

text \<open>The liveness service listens at the address the node registers.\<close>

lemma liveness_listens:
  assumes "os_LookupEnv os ''NODE_IP'' (ext w) = Some ip" and "list_all host_char ip" and "0 \<le> cfg_LivenessPort c"
  shows "trace (snd (NodeLivenessServer_Run os c w)) =
    trace w @ [EvLookupEnv ''NODE_IP'', EvListen ''tcp'' (nodeAddress (registeredEntry c ip))]"
  using assms(1) makeListener_tcp [OF assms(2,3), of os]
  by (simp add: NodeLivenessServer_Run_def getNodeIP_def LookupEnvE_def livenessURL_def nodeAddress_def
      registeredEntry_def bindE_def returnE_def wrapE_def callE_def split: prod.splits)

section \<open>Bringing the driver up\<close>

lemma yields_putEntry: "yields (\<lambda>_. True) (liftR (putEntry data key e))"
  by (rule yields_liftR) (auto simp: putEntry_def Let_def split: option.splits sum.splits)

lemma yields_Put: "yields (\<lambda>_. True) (Put m key e)"
  unfolding Put_def
  by (intro yields_bindE [OF yields_wrapE [OF yields_callE_any]] yields_bindE [OF yields_putEntry] yields_returnE TrueI)

lemma yields_LookupEnvE: "yields (\<lambda>_. True) (LookupEnvE os k)"
  by (simp add: yields_def LookupEnvE_def)

lemma yields_getNodeIP: "yields (\<lambda>_. True) (getNodeIP os)"
  unfolding getNodeIP_def
  by (rule yields_bindE [OF yields_LookupEnvE]) (auto intro!: yields_rules split: option.splits)

lemma yields_registerNodeEntry: "yields (\<lambda>_. True) (registerNodeEntry os c)"
  unfolding registerNodeEntry_def Retry_def
  by (rule yields_bindE [OF yields_getNodeIP], rule yields_RetryLoop [OF yields_Put])

lemma yields_makeListener: "yields (\<lambda>_. True) (makeListener os addr)"
proof (cases "Parse addr")
  case (Some url)
  have "yields (\<lambda>_. True) (attemptE (callE ev f))" for ev and f :: "'a \<Rightarrow> (go_error + unit) \<times> 'a"
    by (rule yields_weaken [OF yields_attemptE [OF yields_callE_any]]) simp
  with Some show ?thesis unfolding makeListener_def Let_def
    by (auto intro!: yields_bindE [of "\<lambda>_. True"] yields_rules split: sum.splits)
qed (simp add: makeListener_def yields_failE)

lemma yields_NodeLivenessServer_Run: "yields (\<lambda>_. True) (NodeLivenessServer_Run os c)"
  unfolding NodeLivenessServer_Run_def by (rule yields_bindE [OF yields_getNodeIP yields_makeListener])

lemma NewDriver_servers:
  "drv_config (NewDriver c) = c" "drv_identity (NewDriver c)"
  "drv_controller (NewDriver c) \<longleftrightarrow> Role c \<in> {CONTROLLER, ROLE_ALL}"
  "drv_node (NewDriver c) \<longleftrightarrow> Role c \<in> {NODE, ROLE_ALL}"
  "drv_nodeLivenessServer (NewDriver c) \<longleftrightarrow> Role c \<in> {NODE, ROLE_ALL}"
  by (auto simp: NewDriver_def Let_def)

text \<open>
  Starting the driver never crashes, whatever the role and the answers of its environment:
  \<open>NewDriver\<close> sets every server \<open>Run\<close> uses for that role, and \<open>Run\<close> returns or fails.
\<close>

lemma Run_returns: "fst (Run os serve (NewDriver c) w) \<notin> {Panic, Diverge}"
proof (rule yields_orderly)
  show "yields (\<lambda>_. True) (Run os serve (NewDriver c))"
    unfolding Run_def Let_def NewDriver_servers(1)
    by (intro yields_bindE [of "\<lambda>_. True"] yields_if yields_emitE yields_returnE TrueI yields_registerNodeEntry
        yields_NodeLivenessServer_Run yields_makeListener yields_callE_any)
       (auto simp: NewDriver_servers)
qed

definition registration :: "event \<Rightarrow> bool" where
  "registration e = (case e of EvRegister _ \<Rightarrow> True | _ \<Rightarrow> False)"

lemma no_registration:
  assumes "emits (\<lambda>e. \<not> registration e) m" and "m w = (r, w')"
  obtains evs where "trace w' = trace w @ evs" "filter registration evs = []"
proof -
  from emits_run [OF assms] obtain evs where evs: "trace w' = trace w @ evs" "list_all (\<lambda>e. \<not> registration e) evs" .
  then have "filter registration evs = []" by (auto simp: list_all_iff filter_empty_conv)
  with evs show thesis by (intro that)
qed

text \<open>The start of the node's part, when it succeeds.\<close>

lemma node_start:
  assumes "bindE (registerNodeEntry os c) (\<lambda>_. bindE (NodeLivenessServer_Run os c) (\<lambda>_. emitE (EvRegister ''Node''))) w
      = (Ret (), w')"
  obtains w1 w2 evs where "registerNodeEntry os c w = (Ret (), w1)" "NodeLivenessServer_Run os c w1 = (Ret (), w2)"
    "trace w' = trace w @ evs @ [EvRegister ''Node'']" "filter registration evs = []"
    "trace w' = trace w2 @ [EvRegister ''Node'']"
proof -
  from assms obtain w1 w2 where run: "registerNodeEntry os c w = (Ret (), w1)"
    "NodeLivenessServer_Run os c w1 = (Ret (), w2)" "w' = w2\<lparr>trace := trace w2 @ [EvRegister ''Node'']\<rparr>"
    by (auto simp: bindE_Ret emitE_Ret)
  have "emits (\<lambda>e. \<not> registration e) (registerNodeEntry os c)"
    by (intro emits_rules) (simp_all add: registration_def)
  from no_registration [OF this run(1)] obtain es where es: "trace w1 = trace w @ es" "filter registration es = []" .
  have "emits (\<lambda>e. \<not> registration e) (NodeLivenessServer_Run os c)"
    by (intro emits_rules) (simp_all add: registration_def)
  from no_registration [OF this run(2)] obtain fs where "trace w2 = trace w1 @ fs" "filter registration fs = []" .
  with es run show thesis by (intro that [of w1 w2 "es @ fs"]) simp_all
qed

text \<open>The interceptor changes neither the answer nor the calls of the handler, and logs every error.\<close>

definition call_log :: "event \<Rightarrow> bool" where
  "call_log e = (case e of EvLog _ _ \<Rightarrow> True | _ \<Rightarrow> False)"

lemma interceptor_transparent:
  assumes "emits (\<lambda>e. \<not> call_log e) handler"
  obtains w1 r w2 evs where "w1 = w\<lparr>trace := trace w1\<rparr>" "handler w1 = (r, w2)" "trace w2 = trace w1 @ evs"
    "fst (grpcLogInterceptor m handler w) = r" "ext (snd (grpcLogInterceptor m handler w)) = ext w2"
    "filter (\<lambda>e. \<not> call_log e) (trace (snd (grpcLogInterceptor m handler w))) =
       filter (\<lambda>e. \<not> call_log e) (trace w) @ evs"
    "(\<exists>e. r = Fail e) \<Longrightarrow> last (trace (snd (grpcLogInterceptor m handler w))) = EvLog ''error'' m"
proof -
  let ?pre = "if m \<noteq> shouldIgnoredMethod then [EvLog ''start call'' m] else []"
  let ?w1 = "w\<lparr>trace := trace w @ ?pre\<rparr>"
  obtain r w2 where run: "handler ?w1 = (r, w2)" by fastforce
  from emits_run [OF assms run] obtain evs where evs: "trace w2 = trace ?w1 @ evs" "list_all (\<lambda>e. \<not> call_log e) evs" .
  then have "filter (\<lambda>e. \<not> call_log e) evs = evs" by (simp add: list_all_iff)
  with run evs(1) show thesis
    by (intro that [of ?w1 r w2 evs]; cases r)
       (auto simp: grpcLogInterceptor_def Let_def bindE_def attemptE_def emitE_def returnE_def failE_def call_log_def)
qed

text \<open>The services of a role, in the order they are registered.\<close>

definition services :: "string \<Rightarrow> string list" where
  "services role = [''Identity''] @ (if role \<in> {ROLE_ALL, CONTROLLER} then [''Controller''] else []) @
     (if role \<in> {ROLE_ALL, NODE} then [''Node''] else [])"

text \<open>Where \<open>makeListener\<close> listens: the network and the address of its URL.\<close>

definition server_address :: "string \<Rightarrow> (string \<times> string) option" where
  "server_address a = map_option (\<lambda>u. (Scheme u, if Host u = [] then UPath u else JoinPath [Host u, UPath u])) (Parse a)"

lemma makeListener_Ret:
  assumes "makeListener os a w = (Ret (), w')"
  obtains net addr es where "server_address a = Some (net, addr)" "trace w' = trace w @ es @ [EvListen net addr]"
    "filter registration es = []"
proof -
  from assms obtain u where u: "Parse a = Some u" by (cases "Parse a") (simp_all add: makeListener_def failE_def)
  let ?addr = "if Host u = [] then UPath u else JoinPath [Host u, UPath u]"
  let ?clear = "if Scheme u = ''unix'' then bindE (attemptE (callE (EvRemove ?addr) (os_Remove os ?addr))) (\<lambda>r.
      case r of Inl err \<Rightarrow> if \<not> IsNotExist err
        then failE (Errorf ''remove unix domain socket file %v,  %v'' [AStr ?addr, AErr err]) else returnE ()
      | Inr _ \<Rightarrow> returnE ()) else returnE ()"
  from assms u obtain w1 where clear: "?clear w = (Ret (), w1)" and "callE (EvListen (Scheme u) ?addr) (os_Listen os (Scheme u) ?addr) w1 = (Ret (), w')"
    unfolding makeListener_def by (auto simp: Let_def bindE_Ret wrapE_Ret)
  then have listen: "trace w' = trace w1 @ [EvListen (Scheme u) ?addr]" by (auto simp: callE_Ret)
  have "emits (\<lambda>e. \<not> registration e) ?clear" by (intro emits_rules) (simp_all add: registration_def)
  from no_registration [OF this clear] obtain es where "trace w1 = trace w @ es" "filter registration es = []" .
  with listen u show thesis by (intro that [of "Scheme u" ?addr es]) (simp_all add: server_address_def)
qed

text \<open>
  When \<open>Run\<close> returns without error, exactly the services of the role were registered, once each
  and before serving began; and on a node the entry was written and the liveness service was
  listening before the node service was registered.
\<close>

lemma Run_services:
  assumes "Run os serve (NewDriver c) w = (Ret (), w')"
  shows "\<exists>net addr. server_address (ServerAddr c) = Some (net, addr) \<and>
    (\<exists>evs. trace w' = trace w @ evs @ [EvListen net addr, EvServe] \<and> filter registration evs = map EvRegister (services (Role c))) \<and>
    (Role c \<in> {ROLE_ALL, NODE} \<longrightarrow> (\<exists>w1 w2 w3 pre es. trace w1 = trace w @ pre \<and> registerNodeEntry os c w1 = (Ret (), w2) \<and>
       NodeLivenessServer_Run os c w2 = (Ret (), w3) \<and> trace w' = trace w3 @ [EvRegister ''Node''] @ es @ [EvListen net addr, EvServe]))"
proof -
  let ?ctl = "Role c = ROLE_ALL \<or> Role c = CONTROLLER" and ?node = "Role c = ROLE_ALL \<or> Role c = NODE"
  let ?w1 = "w\<lparr>trace := trace w @ EvRegister ''Identity'' # (if ?ctl then [EvRegister ''Controller''] else [])\<rparr>"
  from assms obtain w2 w3 where node: "(if ?node then bindE (registerNodeEntry os c) (\<lambda>_.
        bindE (NodeLivenessServer_Run os c) (\<lambda>_. emitE (EvRegister ''Node''))) else returnE ()) ?w1 = (Ret (), w2)"
    and lst: "makeListener os (ServerAddr c) w2 = (Ret (), w3)" and srv: "callE EvServe serve w3 = (Ret (), w')"
    by (auto simp: Run_def Let_def NewDriver_servers bindE_Ret emitE_Ret returnE_Ret split: if_splits)
  from lst obtain net addr ls where addr: "server_address (ServerAddr c) = Some (net, addr)"
    and ls: "trace w3 = trace w2 @ ls @ [EvListen net addr]" "filter registration ls = []" by (rule makeListener_Ret)
  from srv have w': "trace w' = trace w3 @ [EvServe]" by (auto simp: callE_Ret)
  show ?thesis
  proof (cases ?node)
    case True
    with node obtain v1 v2 evs where v: "registerNodeEntry os c ?w1 = (Ret (), v1)" "NodeLivenessServer_Run os c v1 = (Ret (), v2)"
      "trace w2 = trace ?w1 @ evs @ [EvRegister ''Node'']" "filter registration evs = []" "trace w2 = trace v2 @ [EvRegister ''Node'']"
      by (auto elim!: node_start)
    let ?evs = "EvRegister ''Identity'' # (if ?ctl then [EvRegister ''Controller''] else []) @ evs @ [EvRegister ''Node''] @ ls"
    have "trace w' = trace w @ ?evs @ [EvListen net addr, EvServe]" using v(3) ls w' by simp
    moreover have "filter registration ?evs = map EvRegister (services (Role c))"
      using v(4) ls(2) True by (auto simp: registration_def services_def)
    moreover have "trace w' = trace v2 @ [EvRegister ''Node''] @ ls @ [EvListen net addr, EvServe]" using v(5) ls w' by simp
    moreover have "\<exists>pre. trace ?w1 = trace w @ pre" by simp
    ultimately show ?thesis using v(1,2) addr by blast
  next
    case False
    with node have w2: "w2 = ?w1" by (simp add: returnE_def)
    let ?evs = "EvRegister ''Identity'' # (if ?ctl then [EvRegister ''Controller''] else []) @ ls"
    have "trace w' = trace w @ ?evs @ [EvListen net addr, EvServe]" using w2 ls w' by simp
    moreover have "filter registration ?evs = map EvRegister (services (Role c))"
      using ls(2) False by (auto simp: registration_def services_def)
    ultimately show ?thesis using False addr by blast
  qed
qed

lemma demo_register:
  assumes "d_cm (ext w) = d_cm demo_state"
  obtains w' where "registerNodeEntry demo_os demo_config w = (Ret (), w')"
proof -
  let ?m = "NewNodeMap ''nodes'' demo_configmaps" and ?w = "w\<lparr>trace := trace w @ [EvLookupEnv ''NODE_IP'']\<rparr>"
  have "fst (Put ?m ''node-1'' demo_entry ?w) = Ret ()"
    using assms by (simp add: Put_def NewNodeMap_def putEntry_def go_defs demo_state_def Let_def)
  then obtain w' where put: "Put ?m ''node-1'' demo_entry ?w = (Ret (), w')" by (metis prod.collapse)
  have "RetryLoop demo_os (Put ?m ''node-1'' demo_entry) (Suc 4) (Millisecond * 500) None ?w = (Ret (), w')"
    using put by (rule RetryLoop_ok_step)
  moreover have "nat 5 = Suc 4" by simp
  moreover have "registeredEntry demo_config ''10.0.0.1'' = demo_entry"
    by (simp add: registeredEntry_def demo_entry_def demo_config_def)
  ultimately have "registerNodeEntry demo_os demo_config w = (Ret (), w')"
    by (simp add: registerNodeEntry_def getNodeIP_def LookupEnvE_def bindE_def returnE_def Retry_def demo_config_def
        del: RetryLoop.simps)
  then show thesis by (rule that)
qed

lemma demo_liveness: "NodeLivenessServer_Run demo_os demo_config w =
    (Ret (), w\<lparr>trace := trace w @ [EvLookupEnv ''NODE_IP'', EvListen ''tcp'' ''10.0.0.1:10103'']\<rparr>)"
proof -
  have chars: "list_all host_char ''10.0.0.1''"
    by (simp add: host_char_def is_digit_def is_lower_def is_upper_def)
  have addr: "''10.0.0.1'' @ '':'' @ itoa 10103 = ''10.0.0.1:10103''"
    by (simp add: itoa_def utoa.simps char_of_def bit_0)
  have "makeListener demo_os (livenessURL demo_config ''10.0.0.1'') v =
      (Ret (), v\<lparr>trace := trace v @ [EvListen ''tcp'' ''10.0.0.1:10103'']\<rparr>)" for v
    unfolding livenessURL_def demo_config_simps using makeListener_tcp [OF chars, of 10103 demo_os] unfolding addr
    by (simp add: wrapE_def callE_def)
  then show ?thesis by (simp add: NodeLivenessServer_Run_def getNodeIP_def LookupEnvE_def bindE_def returnE_def)
qed

lemma demo_listen: "makeListener demo_os ''unix:///csi.sock'' w =
    (Ret (), w\<lparr>ext := (ext w)\<lparr>d_files := removeAll ''/csi.sock'' (d_files (ext w))\<rparr>,
       trace := trace w @ [EvRemove ''/csi.sock'', EvListen ''unix'' ''/csi.sock'']\<rparr>)"
proof -
  have "Parse ''unix:///csi.sock'' = Some \<lparr>Scheme = ''unix'', Host = [], UPath = ''/csi.sock''\<rparr>" by code_simp
  then show ?thesis by (simp add: makeListener_def Let_def go_defs)
qed

lemma Run_services_witness:
  "\<exists>w' evs. Run demo_os (\<lambda>x. (Inr (), x)) (NewDriver demo_config) demo_world = (Ret (), w') \<and>
     trace w' = evs @ [EvListen ''unix'' ''/csi.sock'', EvServe] \<and>
     filter registration evs = map EvRegister [''Identity'', ''Controller'', ''Node'']"
proof -
  let ?w = "demo_world\<lparr>trace := trace demo_world @ [EvRegister ''Identity'', EvRegister ''Controller'']\<rparr>"
  have role: "Role demo_config = ROLE_ALL" "ServerAddr demo_config = ''unix:///csi.sock''"
    by (simp_all add: demo_config_def ROLE_ALL_def)
  obtain w1 where reg: "registerNodeEntry demo_os demo_config ?w = (Ret (), w1)"
    by (rule demo_register [of ?w]) (simp_all add: demo_world_def)
  have "\<exists>w'. Run demo_os (\<lambda>x. (Inr (), x)) (NewDriver demo_config) demo_world = (Ret (), w')"
    using reg by (simp add: Run_def Let_def NewDriver_servers role emitE_def bindE_def demo_liveness demo_listen callE_def)
  then obtain w' where run: "Run demo_os (\<lambda>x. (Inr (), x)) (NewDriver demo_config) demo_world = (Ret (), w')" by blast
  have "server_address ''unix:///csi.sock'' = Some (''unix'', ''/csi.sock'')" by code_simp
  with Run_services [OF run] run show ?thesis
    by (auto simp: demo_world_def role services_def)
qed

end
