(* ===== verification/Flag_Parse.thy ===== *)
theory Flag_Parse
  imports Resizer
begin

text \<open>
  The command line of \<open>cmd/csi-driver/main.go\<close>: its flags with their defaults, and package
  \<open>flag\<close> as \<open>flag.Parse\<close> uses it.  \<open>klog.InitFlags\<close> adds the flags of the log library to the same
  set; they are a parameter, which tells of a name whether it is a boolean flag and which values
  it accepts.
\<close>

section \<open>The flags\<close>

record flags =
  csiAddr :: string
  driverName :: string
  role :: string
  livenessPort :: int
  namespace :: string
  nodeMapName :: string
  kubeConfigPath :: string
  pprofPort :: int
  clusterID :: string

definition default_flags :: flags where
  "default_flags =
     \<lparr>csiAddr = [], driverName = ''com.smartx.elf-csi-driver'', role = ''node'', livenessPort = - 1,
      namespace = ''default'', nodeMapName = ''node-map'', kubeConfigPath = [], pprofPort = 0, clusterID = []\<rparr>"

text \<open>\<open>strconv.ParseInt(s, 0, 64)\<close>, with which an integer flag reads its value.\<close>

definition ParseInt0 :: "string \<Rightarrow> num_error + int" where
  "ParseInt0 s =
     (if s = [] then Inl ErrSyntax
      else let neg = (hd s = CHR ''-'');
               s' = (if hd s = CHR ''+'' \<or> hd s = CHR ''-'' then tl s else s)
           in (case ParseUint0 s' of
                 Inl e \<Rightarrow> Inl e
               | Inr un \<Rightarrow>
                   if \<not> neg \<and> un \<ge> 2 ^ 63 then Inl ErrRange
                   else if neg \<and> un > 2 ^ 63 then Inl ErrRange
                   else Inr (if neg then - int un else int un)))"

text \<open>\<open>flag.Value.Set\<close> of the program's own flags: the outer \<open>None\<close> is an undefined name.\<close>

definition setFlag :: "string \<Rightarrow> string \<Rightarrow> flags \<Rightarrow> (num_error + flags) option" where
  "setFlag name val fs =
     (if name = ''csi_addr'' then Some (Inr (fs\<lparr>csiAddr := val\<rparr>))
      else if name = ''driver_name'' then Some (Inr (fs\<lparr>driverName := val\<rparr>))
      else if name = ''role'' then Some (Inr (fs\<lparr>role := val\<rparr>))
      else if name = ''liveness_port''
      then Some (case ParseInt0 val of Inl e \<Rightarrow> Inl e | Inr n \<Rightarrow> Inr (fs\<lparr>livenessPort := n\<rparr>))
      else if name = ''namespace'' then Some (Inr (fs\<lparr>namespace := val\<rparr>))
      else if name = ''node_map'' then Some (Inr (fs\<lparr>nodeMapName := val\<rparr>))
      else if name = ''kube_config_path'' then Some (Inr (fs\<lparr>kubeConfigPath := val\<rparr>))
      else if name = ''pprof_port''
      then Some (case ParseInt0 val of Inl e \<Rightarrow> Inl e | Inr n \<Rightarrow> Inr (fs\<lparr>pprofPort := n\<rparr>))
      else if name = ''cluster_id'' then Some (Inr (fs\<lparr>clusterID := val\<rparr>))
      else None)"

section \<open>Parsing\<close>

type_synonym lib_flags = "string \<Rightarrow> (bool \<times> (string \<Rightarrow> bool)) option"

datatype one =
    Done "string list"
  | Seen "string list" flags
  | BadFlag string "string list"
  | Help

text \<open>
  A flag of the program or of the log library gets its value: \<open>None\<close> is an undefined name.
  The program's own names shadow nothing: the library registers other names.
\<close>

definition setAny :: "lib_flags \<Rightarrow> string \<Rightarrow> string \<Rightarrow> flags \<Rightarrow> (unit + flags) option" where
  "setAny lib name val fs =
     (case setFlag name val fs of
        Some (Inl _) \<Rightarrow> Some (Inl ())
      | Some (Inr fs') \<Rightarrow> Some (Inr fs')
      | None \<Rightarrow> (case lib name of None \<Rightarrow> None | Some (_, accepts) \<Rightarrow> Some (if accepts val then Inr fs else Inl ())))"

definition isBoolFlag :: "lib_flags \<Rightarrow> string \<Rightarrow> bool" where
  "isBoolFlag lib name = (setFlag name [] default_flags = None \<and> (case lib name of Some (b, _) \<Rightarrow> b | None \<Rightarrow> False))"

definition defined :: "lib_flags \<Rightarrow> string \<Rightarrow> bool" where
  "defined lib name \<longleftrightarrow> setFlag name [] default_flags \<noteq> None \<or> lib name \<noteq> None"

text \<open>The name of an argument without its dashes, and the value after the first equals sign.\<close>

definition splitEq :: "string \<Rightarrow> string \<times> string option" where
  "splitEq s = (let name = takeWhile (\<lambda>c. c \<noteq> CHR ''='') s in
     (name, if length name < length s then Some (drop (length name + 1) s) else None))"

definition parseOne :: "lib_flags \<Rightarrow> string list \<Rightarrow> flags \<Rightarrow> one" where
  "parseOne lib args fs =
     (case args of
        [] \<Rightarrow> Done []
      | s # rest \<Rightarrow>
          if length s < 2 \<or> s ! 0 \<noteq> CHR ''-'' then Done args
          else if s = ''--'' then Done rest
          else
            (let name = (if s ! 1 = CHR ''-'' then drop 2 s else drop 1 s) in
             if name = [] \<or> hd name = CHR ''-'' \<or> hd name = CHR ''='' then BadFlag ''bad flag syntax: %s'' [s]
             else
               (let (name, val) = splitEq name in
                if \<not> defined lib name
                then (if name = ''help'' \<or> name = ''h'' then Help else BadFlag ''flag provided but not defined: -%s'' [name])
                else if isBoolFlag lib name
                then (let v = (case val of Some v \<Rightarrow> v | None \<Rightarrow> ''true'') in
                      case setAny lib name v fs of
                        Some (Inr fs') \<Rightarrow> Seen rest fs'
                      | _ \<Rightarrow> (if val = None then BadFlag ''invalid boolean flag %s: %v'' [name]
                              else BadFlag ''invalid boolean value %q for -%s: %v'' [v, name]))
                else
                  (case (val, rest) of
                     (Some v, _) \<Rightarrow> (case setAny lib name v fs of Some (Inr fs') \<Rightarrow> Seen rest fs'
                                    | _ \<Rightarrow> BadFlag ''invalid value %q for flag -%s: %v'' [v, name])
                   | (None, v # rest') \<Rightarrow> (case setAny lib name v fs of Some (Inr fs') \<Rightarrow> Seen rest' fs'
                                    | _ \<Rightarrow> BadFlag ''invalid value %q for flag -%s: %v'' [v, name])
                   | (None, []) \<Rightarrow> BadFlag ''flag needs an argument: -%s'' [name]))))"

text \<open>\<open>flag.Parse\<close> on the command line exits on an error: with 0 after the help, with 2 otherwise.\<close>

datatype parsed = Parsed "string list" flags | Exit int

lemma parseOne_shorter: "parseOne lib args fs = Seen rest fs' \<Longrightarrow> length rest < length args"
  by (auto simp: parseOne_def Let_def split: list.splits if_splits prod.splits option.splits sum.splits)

function parseFlags :: "lib_flags \<Rightarrow> string list \<Rightarrow> flags \<Rightarrow> parsed" where
  "parseFlags lib args fs =
     (case parseOne lib args fs of
        Done rest \<Rightarrow> Parsed rest fs
      | Seen rest fs' \<Rightarrow> parseFlags lib rest fs'
      | BadFlag _ _ \<Rightarrow> Exit 2
      | Help \<Rightarrow> Exit 0)"
  by pat_completeness auto
termination
  by (relation "measure (\<lambda>(lib, args, fs). length args)") (auto dest: parseOne_shorter)

declare parseFlags.simps [simp del]

section \<open>Facts\<close>

lemma ParseInt0_itoa:
  assumes "- (2 ^ 63) \<le> i" and "i < 2 ^ 63"
  shows "ParseInt0 (itoa i) = Inr i"
proof (cases "i < 0")
  case True
  with assms have "nat (- i) < 2 ^ 64" "\<not> nat (- i) > 2 ^ 63" by auto
  with True ParseUint0_utoa [of "nat (- i)"] show ?thesis by (simp add: ParseInt0_def itoa_def Let_def)
next
  case False
  with assms have *: "nat i < 2 ^ 64" "\<not> nat i \<ge> 2 ^ 63" by auto
  have "hd (utoa (nat i)) \<noteq> CHR ''-''" "hd (utoa (nat i)) \<noteq> CHR ''+''" using utoa_hd [of "nat i"] by auto
  with False * ParseUint0_utoa [of "nat i"] show ?thesis by (simp add: ParseInt0_def itoa_def Let_def)
qed

definition own_flags :: "string list" where
  "own_flags = [''csi_addr'', ''driver_name'', ''role'', ''liveness_port'', ''namespace'', ''node_map'',
     ''kube_config_path'', ''pprof_port'', ''cluster_id'']"

lemma setFlag_None: "setFlag name v fs = None \<longleftrightarrow> name \<notin> set own_flags"
  by (simp add: setFlag_def own_flags_def)

lemma own_plain:
  assumes "name \<in> set own_flags"
  shows "name \<noteq> []" "hd name \<noteq> CHR ''-''" "CHR ''='' \<notin> set name"
  using assms by (auto simp: own_flags_def)

lemma splitEq_plain:
  assumes "CHR ''='' \<notin> set name"
  shows "splitEq name = (name, None)" "splitEq (name @ CHR ''='' # v) = (name, Some v)"
proof -
  have t: "takeWhile (\<lambda>c. c \<noteq> CHR ''='') name = name" "takeWhile (\<lambda>c. c \<noteq> CHR ''='') (name @ CHR ''='' # v) = name"
    using assms by (auto simp: takeWhile_eq_all_conv takeWhile_append)
  show "splitEq name = (name, None)" unfolding splitEq_def Let_def t by simp
  show "splitEq (name @ CHR ''='' # v) = (name, Some v)" unfolding splitEq_def Let_def t by simp
qed

text \<open>The four spellings of an assignment on the command line.\<close>

inductive spelling :: "string \<times> string \<Rightarrow> string list \<Rightarrow> bool" where
  "spelling (name, v) [''-'' @ name @ ''='' @ v]"
| "spelling (name, v) [''--'' @ name @ ''='' @ v]"
| "spelling (name, v) [''-'' @ name, v]"
| "spelling (name, v) [''--'' @ name, v]"

inductive_cases spellingE [elim!]: "spelling (name, v) args"

lemma parseOne_own:
  assumes "name \<in> set own_flags" and "spelling (name, v) args"
  shows "parseOne lib (args @ rest) fs =
    (case setFlag name v fs of Some (Inr fs') \<Rightarrow> Seen rest fs' | _ \<Rightarrow> BadFlag ''invalid value %q for flag -%s: %v'' [v, name])"
proof -
  note plain = own_plain [OF assms(1)]
  obtain d ds where name: "name = d # ds" using plain(1) by (cases name) auto
  have d: "d \<noteq> CHR ''-''" "d \<noteq> CHR ''=''" using plain name by auto
  have own: "setFlag name [] default_flags \<noteq> None" "setFlag name v fs \<noteq> None"
    using assms(1) setFlag_None by blast+
  then have bool: "defined lib name" "\<not> isBoolFlag lib name" by (simp_all add: defined_def isBoolFlag_def)
  note split = splitEq_plain(1) [OF plain(3), unfolded name] splitEq_plain(2) [OF plain(3), of v, unfolded name append_Cons]
  from assms(2) show ?thesis
    using own(2) d bool unfolding name
    by (auto simp: parseOne_def split setAny_def split: option.splits sum.splits)
qed

fun assign :: "(string \<times> string) list \<Rightarrow> flags \<Rightarrow> flags option" where
  "assign [] fs = Some fs"
| "assign ((name, v) # asgs) fs = (case setFlag name v fs of Some (Inr fs') \<Rightarrow> assign asgs fs' | _ \<Rightarrow> None)"

lemma parseFlags_assign:
  assumes "list_all2 spelling asgs argss" and "fst ` set asgs \<subseteq> set own_flags"
  shows "parseFlags lib (concat argss @ rest) fs =
    (case assign asgs fs of Some fs' \<Rightarrow> parseFlags lib rest fs' | None \<Rightarrow> Exit 2)"
  using assms
proof (induction asgs argss arbitrary: fs rule: list_all2_induct)
  case (Cons a asgs args argss)
  obtain name v where a: "a = (name, v)" by fastforce
  with Cons have "name \<in> set own_flags" "spelling (name, v) args" by auto
  from parseOne_own [OF this, of lib "concat argss @ rest" fs] a Cons show ?case
    by (auto simp: parseFlags.simps [of lib "args @ concat argss @ rest" fs] split: option.splits sum.splits)
qed simp

section \<open>What the command line means\<close>

text \<open>
  The assignments of a command line, read field by field: the last one given for its flag, or
  else what was there; the two ports are integers.
\<close>

definition lastText :: "(string \<times> string) list \<Rightarrow> string \<Rightarrow> string \<Rightarrow> string" where
  "lastText asgs name d = (case map_of (rev asgs) name of None \<Rightarrow> d | Some v \<Rightarrow> v)"

definition lastPort :: "(string \<times> string) list \<Rightarrow> string \<Rightarrow> int \<Rightarrow> int" where
  "lastPort asgs name d = (case map_of (rev asgs) name of None \<Rightarrow> d | Some v \<Rightarrow> projr (ParseInt0 v))"

definition assigned :: "(string \<times> string) list \<Rightarrow> flags \<Rightarrow> flags" where
  "assigned asgs fs =
     \<lparr>csiAddr = lastText asgs ''csi_addr'' (csiAddr fs), driverName = lastText asgs ''driver_name'' (driverName fs),
      role = lastText asgs ''role'' (role fs), livenessPort = lastPort asgs ''liveness_port'' (livenessPort fs),
      namespace = lastText asgs ''namespace'' (namespace fs), nodeMapName = lastText asgs ''node_map'' (nodeMapName fs),
      kubeConfigPath = lastText asgs ''kube_config_path'' (kubeConfigPath fs),
      pprofPort = lastPort asgs ''pprof_port'' (pprofPort fs), clusterID = lastText asgs ''cluster_id'' (clusterID fs)\<rparr>"

definition badPort :: "(string \<times> string) list \<Rightarrow> bool" where
  "badPort asgs \<longleftrightarrow> (\<exists>(name, v) \<in> set asgs. name \<in> {''liveness_port'', ''pprof_port''} \<and> isl (ParseInt0 v))"

lemma last_simps:
  "lastText [] name d = d" "lastPort [] name n = n"
  "lastText ((name', v) # asgs) name d = lastText asgs name (if name = name' then v else d)"
  "lastPort ((name', v) # asgs) name n = lastPort asgs name (if name = name' then projr (ParseInt0 v) else n)"
  by (simp_all add: lastText_def lastPort_def map_add_def split: option.split)

lemma badPort_simps:
  "\<not> badPort []"
  "badPort ((name, v) # asgs) \<longleftrightarrow> name \<in> {''liveness_port'', ''pprof_port''} \<and> isl (ParseInt0 v) \<or> badPort asgs"
  by (auto simp: badPort_def)

lemma assign_assigned:
  "fst ` set asgs \<subseteq> set own_flags \<Longrightarrow> assign asgs fs = (if badPort asgs then None else Some (assigned asgs fs))"
proof (induction asgs arbitrary: fs)
  case Nil
  show ?case by (simp add: badPort_simps assigned_def last_simps)
next
  case (Cons a asgs)
  obtain name v where a: "a = (name, v)" by fastforce
  with Cons.prems have own: "name \<in> set own_flags" by simp
  from Cons have IH: "assign asgs fs' = (if badPort asgs then None else Some (assigned asgs fs'))" for fs' by simp
  show ?case
  proof (cases "ParseInt0 v")
    case (Inl e)
    with own show ?thesis unfolding own_flags_def a
      by (auto simp: setFlag_def IH badPort_simps assigned_def last_simps)
  next
    case (Inr n)
    with own show ?thesis unfolding own_flags_def a
      by (auto simp: setFlag_def IH badPort_simps assigned_def last_simps)
  qed
qed

section \<open>Properties\<close>

text \<open>
  C37: The command line means its assignments: however the flags of the program are spelled, with
  one dash or two, with an equals sign or a separate argument, parsing exits with 2 when a
  liveness or pprof port is not an integer; otherwise each field has the value given last for
  its own flag, and is unchanged when none was given.
\<close>

theorem flags_assigned:
  assumes "list_all2 spelling asgs argss" and "fst ` set asgs \<subseteq> set own_flags"
  shows "parseFlags lib (concat argss) fs = (if badPort asgs then Exit 2 else Parsed [] (assigned asgs fs))"
proof -
  have "parseFlags lib [] fs' = Parsed [] fs'" for fs' by (simp add: parseFlags.simps [of lib "[]"] parseOne_def)
  with parseFlags_assign [OF assms, of lib "[]" fs] assign_assigned [OF assms(2)] show ?thesis by simp
qed

theorem flags_assigned_witness:
  "parseFlags (\<lambda>_. None) [''-role=all'', ''--liveness_port'', ''0x10'', ''-role'', ''node''] default_flags =
     Parsed [] (default_flags\<lparr>role := ''node'', livenessPort := 16\<rparr>)"
proof -
  let ?asgs = "[(''role'', ''all''), (''liveness_port'', ''0x10''), (''role'', ''node'')]"
  have "spelling (''role'', ''all'') [''-role=all'']" using spelling.intros(1) [of "''role''" "''all''"] by simp
  moreover have "spelling (''liveness_port'', ''0x10'') [''--liveness_port'', ''0x10'']"
    using spelling.intros(4) [of "''liveness_port''" "''0x10''"] by simp
  moreover have "spelling (''role'', ''node'') [''-role'', ''node'']" using spelling.intros(3) [of "''role''" "''node''"] by simp
  ultimately have "list_all2 spelling ?asgs [[''-role=all''], [''--liveness_port'', ''0x10''], [''-role'', ''node'']]"
    by (intro list.rel_intros)
  moreover have "fst ` set ?asgs \<subseteq> set own_flags" by (simp add: own_flags_def)
  ultimately have "parseFlags (\<lambda>_. None) (concat [[''-role=all''], [''--liveness_port'', ''0x10''], [''-role'', ''node'']]) default_flags =
      (if badPort ?asgs then Exit 2 else Parsed [] (assigned ?asgs default_flags))" by (rule flags_assigned)
  moreover have "ParseInt0 ''0x10'' = Inr 16" by (simp add: ParseInt0_def ParseUint0_def hexval_def is_prefix_char_def)
  ultimately show ?thesis by (simp add: badPort_simps assigned_def last_simps default_flags_def)
qed

text \<open>The command line that sets every flag.\<close>

definition render :: "flags \<Rightarrow> string list" where
  "render fs =
     [''-csi_addr='' @ csiAddr fs, ''-driver_name='' @ driverName fs, ''-role='' @ role fs,
      ''-liveness_port='' @ itoa (livenessPort fs), ''-namespace='' @ namespace fs, ''-node_map='' @ nodeMapName fs,
      ''-kube_config_path='' @ kubeConfigPath fs, ''-pprof_port='' @ itoa (pprofPort fs), ''-cluster_id='' @ clusterID fs]"

text \<open>
  C38: Writing the flags on a command line and parsing it gives them back, for values of any
  content and ports in the range of an int.
\<close>

theorem flags_roundtrip:
  assumes "- (2 ^ 63) \<le> livenessPort fs" and "livenessPort fs < 2 ^ 63" and "- (2 ^ 63) \<le> pprofPort fs" and "pprofPort fs < 2 ^ 63"
  shows "parseFlags lib (render fs) fs0 = Parsed [] fs"
proof -
  let ?asgs = "[(''csi_addr'', csiAddr fs), (''driver_name'', driverName fs), (''role'', role fs),
      (''liveness_port'', itoa (livenessPort fs)), (''namespace'', namespace fs), (''node_map'', nodeMapName fs),
      (''kube_config_path'', kubeConfigPath fs), (''pprof_port'', itoa (pprofPort fs)), (''cluster_id'', clusterID fs)]"
  have "list_all2 spelling ?asgs (map (\<lambda>(n, v). [''-'' @ n @ ''='' @ v]) ?asgs)"
    unfolding list.map prod.case by (intro list.rel_intros spelling.intros(1))
  moreover have "fst ` set ?asgs \<subseteq> set own_flags" by (simp add: own_flags_def)
  ultimately have "parseFlags lib (concat (map (\<lambda>(n, v). [''-'' @ n @ ''='' @ v]) ?asgs) @ []) fs0 =
      (case assign ?asgs fs0 of Some fs' \<Rightarrow> parseFlags lib [] fs' | None \<Rightarrow> Exit 2)" by (rule parseFlags_assign)
  moreover have "assign ?asgs fs0 = Some fs"
    using ParseInt0_itoa [OF assms(1,2)] ParseInt0_itoa [OF assms(3,4)] by (simp add: setFlag_def)
  ultimately show ?thesis by (simp add: render_def parseFlags.simps [of lib "[]"] parseOne_def)
qed

theorem flags_roundtrip_witness:
  "parseFlags (\<lambda>_. None) (render default_flags) (default_flags\<lparr>role := ''all''\<rparr>) = Parsed [] default_flags"
  by (rule flags_roundtrip) (simp_all add: default_flags_def)

end
