(* ===== verification/State_Logic.thy ===== *)
theory State_Logic
  imports Go_Logic
begin

text \<open>
  Rules for what effectful functions do to a view of the state outside the program: \<open>tells\<close> for
  those that leave it alone, \<open>does\<close> for those that apply an operation to it or fail; and \<open>sure\<close>
  for functions that return, from every world, with a value of a kind.
\<close>

section \<open>Calls and a view of the world\<close>

text \<open>
  \<open>tells view Q m\<close>: \<open>m\<close> leaves the view alone, and a value it returns stands in \<open>Q\<close> to it.
  \<open>does view P op m\<close>: from a view with \<open>P\<close>, \<open>m\<close> applies \<open>op\<close> when it returns, and nothing or
  \<open>op\<close> when it does not.
\<close>

definition tells :: "('w \<Rightarrow> 's) \<Rightarrow> ('a \<Rightarrow> 's \<Rightarrow> bool) \<Rightarrow> ('w, 'a) io \<Rightarrow> bool" where
  "tells view Q m \<longleftrightarrow> (\<forall>w r w'. m w = (r, w') \<longrightarrow>
     view (ext w') = view (ext w) \<and> (\<forall>a. r = Ret a \<longrightarrow> Q a (view (ext w))))"

definition does :: "('w \<Rightarrow> 's) \<Rightarrow> ('s \<Rightarrow> bool) \<Rightarrow> ('s \<Rightarrow> 's) \<Rightarrow> ('w, 'a) io \<Rightarrow> bool" where
  "does view P op m \<longleftrightarrow> (\<forall>w r w'. P (view (ext w)) \<longrightarrow> m w = (r, w') \<longrightarrow>
     (if \<exists>a. r = Ret a then view (ext w') = op (view (ext w))
      else view (ext w') = view (ext w) \<or> view (ext w') = op (view (ext w))))"

named_theorems tells_rules

lemma tells_weaken: "tells view Q m \<Longrightarrow> (\<And>a s. Q a s \<Longrightarrow> R a s) \<Longrightarrow> tells view R m"
  unfolding tells_def by blast

lemma tells_pure [tells_rules]:
  "(\<And>s. Q a s) \<Longrightarrow> tells view Q (returnE a)" "tells view Q (failE e)" "tells view Q panicE"
  by (simp_all add: tells_def go_defs)

lemma tells_derefE [tells_rules]: "tells view (\<lambda>_ _. True) (derefE p)"
  by (cases p) (simp_all add: tells_def go_defs)

lemma tells_index0E [tells_rules]: "tells view (\<lambda>_ _. True) (index0E xs)"
  by (cases xs) (simp_all add: tells_def go_defs)

lemma tells_if [tells_rules]: "tells view Q m \<Longrightarrow> tells view Q m' \<Longrightarrow> tells view Q (if b then m else m')"
  by simp

lemma tells_bindE:
  assumes "tells view Q m" and "\<And>a. tells view R (f a)"
  shows "tells view R (bindE m f)"
  unfolding tells_def
proof (intro allI impI)
  fix w r w'
  assume run: "bindE m f w = (r, w')"
  obtain r1 w1 where m: "m w = (r1, w1)" by fastforce
  with assms(1) have w1: "view (ext w1) = view (ext w)" by (auto simp: tells_def)
  show "view (ext w') = view (ext w) \<and> (\<forall>a. r = Ret a \<longrightarrow> R a (view (ext w)))"
  proof (cases r1)
    case (Ret a)
    with m run have "f a w1 = (r, w')" by (simp add: bindE_def)
    with assms(2) [of a] w1 show ?thesis unfolding tells_def by metis
  qed (use m run w1 in \<open>auto simp: bindE_def\<close>)
qed

lemmas tells_seq [tells_rules] = tells_bindE [where Q = "\<lambda>_ _. True"]

lemma tells_first_of [tells_rules]: "tells view (\<lambda>_ _. True) (first_of xs)"
  unfolding first_of_def by (intro tells_rules)

lemma tells_wrapE [tells_rules]:
  assumes "tells view Q m"
  shows "tells view Q (wrapE g m)"
  unfolding tells_def
proof (intro allI impI)
  fix w r w'
  assume run: "wrapE g m w = (r, w')"
  obtain r1 w1 where m: "m w = (r1, w1)" by fastforce
  with run have "w' = w1" "\<And>a. r = Ret a \<Longrightarrow> r1 = Ret a" by (auto simp: wrapE_def split: res.splits)
  with assms m show "view (ext w') = view (ext w) \<and> (\<forall>a. r = Ret a \<longrightarrow> Q a (view (ext w)))" by (auto simp: tells_def)
qed

lemma tells_callE:
  assumes "\<And>x r x'. f x = (r, x') \<Longrightarrow> view x' = view x" and "\<And>x a x'. f x = (Inr a, x') \<Longrightarrow> Q a (view x)"
  shows "tells view Q (callE e f)"
  using assms by (auto simp: tells_def callE_def split: prod.splits sum.splits)

lemma tells_attemptE:
  assumes "\<And>x r x'. f x = (r, x') \<Longrightarrow> view x' = view x" and "\<And>x r x'. f x = (r, x') \<Longrightarrow> Q r (view x)"
  shows "tells view Q (attemptE (callE e f))"
  using assms by (auto simp: tells_def attemptE_def callE_def split: prod.splits sum.splits)

lemma tells_rangeE [tells_rules]:
  assumes "\<And>x s. tells view (\<lambda>_ _. True) (f x s)"
  shows "tells view (\<lambda>_ _. True) (rangeE f xs s)"
  by (induction xs arbitrary: s) (auto intro!: tells_rules assms)

lemma does_after:
  assumes "tells view Q m" and "\<And>a. does view (\<lambda>s. P s \<and> Q a s) op (f a)"
  shows "does view P op (bindE m f)"
  unfolding does_def
proof (intro allI impI)
  fix w r w'
  assume P: "P (view (ext w))" and run: "bindE m f w = (r, w')"
  obtain r1 w1 where m: "m w = (r1, w1)" by fastforce
  with assms(1) have w1: "view (ext w1) = view (ext w)" "\<And>a. r1 = Ret a \<Longrightarrow> Q a (view (ext w))" by (auto simp: tells_def)
  show "if \<exists>a. r = Ret a then view (ext w') = op (view (ext w))
    else view (ext w') = view (ext w) \<or> view (ext w') = op (view (ext w))"
  proof (cases r1)
    case (Ret a)
    with m run have "f a w1 = (r, w')" by (simp add: bindE_def)
    moreover have "P (view (ext w1)) \<and> Q a (view (ext w1))" using w1 P Ret by simp
    ultimately show ?thesis using assms(2) [of a] w1(1) unfolding does_def by metis
  qed (use m run w1 in \<open>auto simp: bindE_def\<close>)
qed

lemma does_then:
  assumes "does view P op m" and "\<And>a. tells view Q (f a)"
  shows "does view P op (bindE m f)"
  unfolding does_def
proof (intro allI impI)
  fix w r w'
  assume P: "P (view (ext w))" and run: "bindE m f w = (r, w')"
  obtain r1 w1 where m: "m w = (r1, w1)" by fastforce
  with assms(1) P have w1: "if \<exists>a. r1 = Ret a then view (ext w1) = op (view (ext w))
    else view (ext w1) = view (ext w) \<or> view (ext w1) = op (view (ext w))" unfolding does_def by blast
  show "if \<exists>a. r = Ret a then view (ext w') = op (view (ext w))
    else view (ext w') = view (ext w) \<or> view (ext w') = op (view (ext w))"
  proof (cases r1)
    case (Ret a)
    with m run have "f a w1 = (r, w')" by (simp add: bindE_def)
    with assms(2) [of a] have "view (ext w') = view (ext w1)" by (auto simp: tells_def)
    with w1 Ret show ?thesis by simp
  qed (use m run w1 in \<open>auto simp: bindE_def\<close>)
qed

lemma does_nothing:
  assumes "tells view Q m" and "\<And>s. P s \<Longrightarrow> op s = s"
  shows "does view P op m"
  using assms by (auto simp: does_def tells_def)

lemma does_if:
  assumes "b \<Longrightarrow> does view P op m" and "\<not> b \<Longrightarrow> does view P op m'"
  shows "does view P op (if b then m else m')"
  using assms by simp

lemma does_wrapE:
  assumes "does view P op m"
  shows "does view P op (wrapE g m)"
  unfolding does_def
proof (intro allI impI)
  fix w r w'
  assume P: "P (view (ext w))" and run: "wrapE g m w = (r, w')"
  obtain r1 w1 where m: "m w = (r1, w1)" by fastforce
  with run have "w' = w1" "(\<exists>a. r = Ret a) \<longleftrightarrow> (\<exists>a. r1 = Ret a)" by (auto simp: wrapE_def split: res.splits)
  with assms P m show "if \<exists>a. r = Ret a then view (ext w') = op (view (ext w))
    else view (ext w') = view (ext w) \<or> view (ext w') = op (view (ext w))" unfolding does_def by metis
qed

lemma does_failE: "does view P op (failE e)"
  by (simp add: does_def failE_def)

lemma does_callE:
  assumes "\<And>x r x'. f x = (r, x') \<Longrightarrow> view x' = (case r of Inl _ \<Rightarrow> view x | Inr _ \<Rightarrow> op (view x))"
  shows "does view P op (callE e f)"
  using assms by (auto simp: does_def callE_def split: prod.splits sum.splits)

lemma does_pre: "does view (\<lambda>s. True) op m \<Longrightarrow> does view P op m"
  by (simp add: does_def)

section \<open>Calls that succeed\<close>

definition sure :: "('a \<Rightarrow> bool) \<Rightarrow> ('w, 'a) io \<Rightarrow> bool" where
  "sure Q m \<longleftrightarrow> (\<forall>w. \<exists>a w'. m w = (Ret a, w') \<and> Q a)"

named_theorems sure_rules

lemma sureE:
  assumes "sure Q m"
  obtains a w' where "m w = (Ret a, w')" "Q a"
  using assms unfolding sure_def by blast

lemma sure_returnE [sure_rules]: "Q a \<Longrightarrow> sure Q (returnE a)"
  by (simp add: sure_def returnE_def)

lemma sure_emitE [sure_rules]: "sure (\<lambda>_. True) (emitE e)"
  by (simp add: sure_def emitE_def)

lemma sure_if [sure_rules]: "(b \<Longrightarrow> sure Q m) \<Longrightarrow> (\<not> b \<Longrightarrow> sure Q m') \<Longrightarrow> sure Q (if b then m else m')"
  by simp

lemma sure_bindE:
  assumes "sure Q m" and "\<And>a. Q a \<Longrightarrow> sure R (f a)"
  shows "sure R (bindE m f)"
  unfolding sure_def
proof
  fix w
  from assms(1) obtain a w1 where "m w = (Ret a, w1)" "Q a" by (rule sureE)
  moreover from assms(2) [OF this(2)] obtain b w' where "f a w1 = (Ret b, w')" "R b" by (rule sureE)
  ultimately show "\<exists>a w'. bindE m f w = (Ret a, w') \<and> R a" by (simp add: bindE_def)
qed

lemma sure_wrapE [sure_rules]:
  assumes "sure Q m"
  shows "sure Q (wrapE g m)"
  unfolding sure_def
proof
  fix w
  from assms obtain a w' where "m w = (Ret a, w')" "Q a" by (rule sureE)
  then show "\<exists>a w'. wrapE g m w = (Ret a, w') \<and> Q a" by (simp add: wrapE_def)
qed

lemma sure_callE:
  assumes "\<And>x. \<exists>a x'. f x = (Inr a, x') \<and> Q a"
  shows "sure Q (callE e f)"
proof -
  have "\<exists>a w'. callE e f w = (Ret a, w') \<and> Q a" for w using assms [of "ext w"] by (auto simp: callE_def)
  then show ?thesis by (simp add: sure_def)
qed

lemma sure_weaken: "sure Q m \<Longrightarrow> (\<And>a. Q a \<Longrightarrow> R a) \<Longrightarrow> sure R m"
  unfolding sure_def by blast

end
