(* ===== verification/Main_Program.thy ===== *)
theory Main_Program
  imports Driver_Server Flag_Parse State_Logic
begin

text \<open>
  \<open>cmd/csi-driver/main.go\<close>: the configuration of the driver from its flags, its environment and
  the CloudTower file, and the start of the driver.  \<open>klog.Fatalf\<close> ends the process with its
  message: here the program fails with it.  The clients of Kubernetes, of the snapshot API and of
  CloudTower and the YAML decoder are parameters, the record \<open>clients\<close>.  The command line is
  parsed in \<open>Flag_Parse\<close>; the goroutines \<open>main\<close> starts are in \<open>Lifecycle\<close>.
\<close>

section \<open>Constants and parameters\<close>

definition version :: string where "version = ''2.0''"

definition cloudTowerYaml :: string where
  "cloudTowerYaml = ''/etc/cloudtower-server/cloudtower.yaml''"

record CloudTowerConnect =
  Server :: string
  AuthMode :: string
  Username :: string
  Password :: string
  SkipTLSVerify :: bool

datatype UserSource = UserSourceLOCAL | UserSourceLDAP

record ('w, 'k) clients =
  cl_BuildConfigFromFlags :: "string \<Rightarrow> ('w, 'k) ext_fun"
  cl_InClusterConfig :: "('w, 'k) ext_fun"
  cl_NewForConfig :: "'k \<Rightarrow> ('w, string \<Rightarrow> 'w configmaps) ext_fun"
  cl_NewSnapshotClient :: "'k \<Rightarrow> ('w, unit) ext_fun"
  cl_yaml_Unmarshal :: "string \<Rightarrow> go_error + CloudTowerConnect"
  cl_NewWithUserConfig :: "string \<Rightarrow> string \<Rightarrow> string \<Rightarrow> UserSource \<Rightarrow> ('w, 'w towerclient) ext_fun"

section \<open>Configuration\<close>

text \<open>\<open>NewForConfigOrDie\<close> panics on an error.\<close>

definition orDieE :: "('w, 'a) io \<Rightarrow> ('w, 'a) io" where
  "orDieE m w = (case m w of (r, w') \<Rightarrow> (case r of Fail _ \<Rightarrow> Panic | _ \<Rightarrow> r, w'))"

definition getKClient :: "('w, 'k) clients \<Rightarrow> flags \<Rightarrow> ('w, string \<Rightarrow> 'w configmaps) io" where
  "getKClient cl fs =
     bindE (wrapE (\<lambda>err. Errorf ''failed to config k8s client, %v'' [AErr err])
              (if length (kubeConfigPath fs) > 0
               then callE (EvKubeConfig (kubeConfigPath fs)) (cl_BuildConfigFromFlags cl (kubeConfigPath fs))
               else callE (EvKubeConfig []) (cl_InClusterConfig cl))) (\<lambda>config.
     bindE (orDieE (callE EvKubeClient (cl_NewForConfig cl config))) (\<lambda>configMaps.
     bindE (orDieE (callE EvKubeClient (cl_NewSnapshotClient cl config))) (\<lambda>_.
     returnE configMaps)))"

text \<open>The nil interfaces of a configuration without \<open>initNodeConfig\<close>: every call panics.\<close>

definition nilMount :: "'w Mount" where
  "nilMount = \<lparr>m_Mount = (\<lambda>_ _ _ _. panicE), m_Unmount = (\<lambda>_. panicE), m_IsLikelyNotMountPoint = (\<lambda>_. panicE),
     m_GetDiskFormat = (\<lambda>_. panicE), m_FormatAndMount = (\<lambda>_ _ _ _. panicE), m_GetMountPoint = (\<lambda>_. panicE),
     m_GetMountRef = (\<lambda>_. panicE)\<rparr>"

definition nilResizer :: "'w Resizer" where
  "nilResizer = \<lparr>ResizeBlock = (\<lambda>_ _. panicE), ResizeFS = (\<lambda>_ _. panicE)\<rparr>"

definition initCommonConfig :: "'w os \<Rightarrow> ('w, 'k) clients \<Rightarrow> flags \<Rightarrow> ('w, 'w DriverConfig) io" where
  "initCommonConfig os cl fs =
     bindE (getKClient cl fs) (\<lambda>configMaps.
     bindE (wrapE (\<lambda>_. Errorf ''failed to get cloudtower yaml'' [])
              (callE (EvReadFile cloudTowerYaml) (os_ReadFile os cloudTowerYaml))) (\<lambda>raw.
     case cl_yaml_Unmarshal cl raw of
       Inl _ \<Rightarrow> failE (Errorf ''failed to parse cloudtower'' [])
     | Inr cloudTower \<Rightarrow>
         (let source = (if AuthMode cloudTower = ''LDAP'' then UserSourceLDAP else UserSourceLOCAL) in
          bindE (wrapE (\<lambda>err. Errorf ''driver config init error, %v'' [AErr err])
                   (callE (EvTowerLogin (Server cloudTower) (Username cloudTower))
                      (cl_NewWithUserConfig cl (Server cloudTower) (Username cloudTower) (Password cloudTower) source)))
            (\<lambda>towerClient.
             returnE \<lparr>DriverName = driverName fs, Version = version, Role = role fs, ClusterID = clusterID fs,
               NodeID = [], ServerAddr = csiAddr fs, cfg_LivenessPort = 0,
               cfg_NodeMap = NewNodeMap (nodeMapName fs) (configMaps (namespace fs)),
               cfg_Mount = nilMount, cfg_Resizer = nilResizer, TowerClient = towerClient\<rparr>))))"

definition initNodeConfig :: "'w os \<Rightarrow> 'w kmount \<Rightarrow> flags \<Rightarrow> 'w DriverConfig \<Rightarrow> ('w, 'w DriverConfig) io" where
  "initNodeConfig os km fs config =
     (let config = config\<lparr>cfg_LivenessPort := livenessPort fs, cfg_Mount := NewMount os km, cfg_Resizer := NewResizer os\<rparr> in
      bindE (LookupEnvE os ''NODE_NAME'') (\<lambda>nodeID.
      case nodeID of
        None \<Rightarrow> failE (Errorf ''failed to look up NODE_NAME'' [])
      | Some n \<Rightarrow> returnE (config\<lparr>NodeID := n\<rparr>)))"

definition initControllerConfig :: "'w DriverConfig \<Rightarrow> ('w, 'w DriverConfig) io" where
  "initControllerConfig config = returnE config"

section \<open>main\<close>

text \<open>The configuration \<open>main\<close> hands to the driver.\<close>

definition initConfig :: "'w os \<Rightarrow> 'w kmount \<Rightarrow> ('w, 'k) clients \<Rightarrow> flags \<Rightarrow> ('w, 'w DriverConfig) io" where
  "initConfig os km cl fs =
     bindE (initCommonConfig os cl fs) (\<lambda>config.
     bindE (if Role config = ROLE_ALL \<or> Role config = CONTROLLER then initControllerConfig config else returnE config) (\<lambda>config.
     if Role config = ROLE_ALL \<or> Role config = NODE then initNodeConfig os km fs config else returnE config))"

text \<open>The part of \<open>main\<close> after the flags: \<open>klog.Fatalf\<close> ends it with its message.\<close>

definition runDriver :: "'w os \<Rightarrow> 'w kmount \<Rightarrow> ('w, 'k) clients \<Rightarrow> ('w, unit) ext_fun \<Rightarrow> flags \<Rightarrow> ('w, unit) io" where
  "runDriver os km cl serve fs =
     bindE (initConfig os km cl fs) (\<lambda>config.
     wrapE (\<lambda>err. Errorf ''driver run error, %v'' [AErr err]) (Run os serve (NewDriver config)))"

definition main ::
    "'w os \<Rightarrow> 'w kmount \<Rightarrow> ('w, 'k) clients \<Rightarrow> ('w, unit) ext_fun \<Rightarrow> lib_flags \<Rightarrow> string list \<Rightarrow> ('w, unit) io" where
  "main os km cl serve lib args =
     (case parseFlags lib args default_flags of
        Exit n \<Rightarrow> failE (Errorf ''exit status %d'' [AInt n])
      | Parsed _ fs \<Rightarrow> runDriver os km cl serve fs)"

section \<open>The configuration\<close>

lemma emits_orDieE [emits_rules]: "emits P m \<Longrightarrow> emits P (orDieE m)"
  by (simp add: emits_def orDieE_def case_prod_beta)

lemma emits_getKClient [emits_rules]:
  "(\<And>p. P (EvKubeConfig p)) \<Longrightarrow> P EvKubeClient \<Longrightarrow> emits P (getKClient cl fs)"
  unfolding getKClient_def by (intro emits_rules)

lemma emits_initCommonConfig [emits_rules]:
  assumes "\<And>p. P (EvKubeConfig p)" and "P EvKubeClient" and "\<And>p. P (EvReadFile p)" and "\<And>s u. P (EvTowerLogin s u)"
  shows "emits P (initCommonConfig os cl fs)"
  unfolding initCommonConfig_def Let_def by (intro emits_rules assms)

lemma emits_initConfig [emits_rules]:
  assumes "\<And>p. P (EvKubeConfig p)" and "P EvKubeClient" and "\<And>p. P (EvReadFile p)" and "\<And>s u. P (EvTowerLogin s u)"
    and "\<And>k. P (EvLookupEnv k)"
  shows "emits P (initConfig os km cl fs)"
  unfolding initConfig_def initNodeConfig_def initControllerConfig_def Let_def by (intro emits_rules assms)

definition configured :: "flags \<Rightarrow> 'w DriverConfig \<Rightarrow> bool" where
  "configured fs c \<longleftrightarrow> Role c = role fs \<and> ServerAddr c = csiAddr fs \<and> ClusterID c = clusterID fs \<and>
     nm_name (cfg_NodeMap c) = nodeMapName fs \<and>
     (role fs \<in> {NODE, ROLE_ALL} \<longrightarrow> cfg_LivenessPort c = livenessPort fs)"

lemma returns_initCommonConfig:
  "returns (\<lambda>c. Role c = role fs \<and> ServerAddr c = csiAddr fs \<and> ClusterID c = clusterID fs \<and>
     nm_name (cfg_NodeMap c) = nodeMapName fs) (initCommonConfig os cl fs)"
  unfolding initCommonConfig_def Let_def
  by (rule returns_bindE [OF returns_True], rule returns_bindE [OF returns_True])
     (auto intro!: returns_bindE [OF returns_True] returns_failE returns_returnE simp: NewNodeMap_def split: sum.splits)

lemma returns_initConfig: "returns (configured fs) (initConfig os km cl fs)"
  unfolding initConfig_def initNodeConfig_def initControllerConfig_def Let_def
  by (rule returns_bindE [OF returns_initCommonConfig])
     (auto intro!: returns_bindE [OF returns_True] returns_failE returns_returnE
       simp: configured_def returns_def bindE_Ret returnE_Ret failE_Ret LookupEnvE_def split: option.splits)

section \<open>Starting with a bad port\<close>

definition listens :: "event \<Rightarrow> bool" where
  "listens e = (case e of EvListen _ _ \<Rightarrow> True | EvServe \<Rightarrow> True | _ \<Rightarrow> False)"

text \<open>With a negative port the liveness service has no address to listen on.\<close>

lemma liveness_negative_port:
  assumes "os_LookupEnv os ''NODE_IP'' = (\<lambda>_. Some ip)" and "list_all host_char ip" and "cfg_LivenessPort c < 0"
  shows "NodeLivenessServer_Run os c w =
    (Fail (Errorf ''parse socket addr %v, %v'' [AStr (livenessURL c ip)]), w\<lparr>trace := trace w @ [EvLookupEnv ''NODE_IP'']\<rparr>)"
proof -
  have "Parse (livenessURL c ip) = None"
    using Parse_tcp_signed [OF assms(2) utoa_is_digit, of "nat (- cfg_LivenessPort c)"] assms(3)
    by (simp add: livenessURL_def itoa_def)
  then show ?thesis
    by (simp add: NodeLivenessServer_Run_def getNodeIP_def LookupEnvE_def makeListener_def assms(1) bindE_def returnE_def failE_def)
qed

lemma returns_Run_negative_port:
  assumes "os_LookupEnv os ''NODE_IP'' = (\<lambda>_. Some ip)" and "list_all host_char ip" and "cfg_LivenessPort c < 0"
    and "Role c \<in> {NODE, ROLE_ALL}"
  shows "emits (\<lambda>e. \<not> listens e) (Run os serve (NewDriver c))" and "returns (\<lambda>_. False) (Run os serve (NewDriver c))"
proof -
  let ?live = "NodeLivenessServer_Run os c"
  have live: "returns (\<lambda>_. False) ?live" "emits (\<lambda>e. \<not> listens e) ?live"
    by (simp_all add: returns_def emits_def liveness_negative_port [OF assms(1-3)] listens_def)
  have reg: "emits (\<lambda>e. \<not> listens e) (registerNodeEntry os c)"
    by (intro emits_rules) (simp_all add: listens_def)
  let ?node = "bindE (registerNodeEntry os c) (\<lambda>_. bindE ?live (\<lambda>_. emitE (EvRegister ''Node'')))"
  have node: "returns (\<lambda>_. False) ?node" "emits (\<lambda>e. \<not> listens e) ?node"
    by (rule returns_bindE [OF returns_True], rule returns_bindE [OF live(1)], simp)
       (rule emits_bindE [OF reg], rule emits_bindE_returns [OF live(2,1)], simp)
  have run: "Run os serve (NewDriver c) =
      bindE (emitE (EvRegister ''Identity'')) (\<lambda>_.
      bindE (if Role c = ROLE_ALL \<or> Role c = CONTROLLER then emitE (EvRegister ''Controller'') else returnE ()) (\<lambda>_.
      bindE ?node (\<lambda>_. bindE (makeListener os (ServerAddr c)) (\<lambda>_. callE EvServe serve))))"
    using assms(4) by (auto simp: Run_def Let_def NewDriver_servers)
  show "returns (\<lambda>_. False) (Run os serve (NewDriver c))" unfolding run
    by (rule returns_bindE [OF returns_True], rule returns_bindE [OF returns_True], rule returns_bindE [OF node(1)], simp)
  show "emits (\<lambda>e. \<not> listens e) (Run os serve (NewDriver c))" unfolding run
    by (intro emits_bindE emits_bindE_returns [OF node(2,1)] emits_rules) (simp_all add: listens_def)
qed

text \<open>
  C39: A node without a liveness port never serves: with a negative port, the default of the
  flag, and a \<open>NODE_IP\<close> that is a host name or an IPv4 address, \<open>main\<close> for the roles node and all
  does not return normally and listens on nothing, neither for liveness nor for CSI calls.
\<close>

theorem main_negative_port:
  assumes "parseFlags lib args default_flags = Parsed rest fs"
    and "role fs \<in> {NODE, ROLE_ALL}" and "livenessPort fs < 0"
    and "os_LookupEnv os ''NODE_IP'' = (\<lambda>_. Some ip)" and "list_all host_char ip"
  shows "\<exists>evs. trace (snd (main os km cl serve lib args w)) = trace w @ evs \<and> list_all (\<lambda>e. \<not> listens e) evs \<and>
    fst (main os km cl serve lib args w) \<noteq> Ret ()"
proof -
  let ?run = "\<lambda>c. wrapE (\<lambda>err. Errorf ''driver run error, %v'' [AErr err]) (Run os serve (NewDriver c))"
  have bad: "emits (\<lambda>e. \<not> listens e) (?run c)" "returns (\<lambda>_. False) (?run c)" if "configured fs c" for c
  proof -
    have "cfg_LivenessPort c < 0" "Role c \<in> {NODE, ROLE_ALL}" using that assms(2,3) by (auto simp: configured_def)
    from returns_Run_negative_port [OF assms(4,5) this] show "emits (\<lambda>e. \<not> listens e) (?run c)" "returns (\<lambda>_. False) (?run c)"
      by (auto intro: emits_rules returns_wrapE)
  qed
  have main: "main os km cl serve lib args = runDriver os km cl serve fs" by (simp add: main_def assms(1))
  have "emits (\<lambda>e. \<not> listens e) (initConfig os km cl fs)" by (intro emits_rules) (simp_all add: listens_def)
  then have "emits (\<lambda>e. \<not> listens e) (main os km cl serve lib args)" unfolding main runDriver_def
    by (rule emits_bindE_returns [OF _ returns_initConfig bad(1)])
  moreover have "returns (\<lambda>_. False) (main os km cl serve lib args)" unfolding main runDriver_def
    by (rule returns_bindE [OF returns_initConfig bad(2)])
  ultimately show ?thesis by (metis emitsE prod.collapse returnsD)
qed

definition demo_clients :: "(demo, unit) clients" where
  "demo_clients =
     \<lparr>cl_BuildConfigFromFlags = (\<lambda>p x. (Inr (), x)), cl_InClusterConfig = (\<lambda>x. (Inr (), x)),
      cl_NewForConfig = (\<lambda>k x. (Inr (\<lambda>ns. demo_configmaps), x)), cl_NewSnapshotClient = (\<lambda>k x. (Inr (), x)),
      cl_yaml_Unmarshal = (\<lambda>raw. Inr \<lparr>Server = ''tower'', AuthMode = ''LDAP'', Username = ''u'', Password = ''p'', SkipTLSVerify = False\<rparr>),
      cl_NewWithUserConfig = (\<lambda>s u p src x. (Inr demo_tower, x))\<rparr>"

lemma parse_nothing: "parseFlags lib [] fs = Parsed [] fs"
  by (simp add: parseFlags.simps [of lib "[]"] parseOne_def)

theorem main_negative_port_witness:
  "\<exists>evs. trace (snd (main demo_os demo_kmount demo_clients (\<lambda>x. (Inr (), x)) (\<lambda>_. None) [] demo_world)) =
       trace demo_world @ evs \<and> list_all (\<lambda>e. \<not> listens e) evs \<and>
     fst (main demo_os demo_kmount demo_clients (\<lambda>x. (Inr (), x)) (\<lambda>_. None) [] demo_world) \<noteq> Ret ()"
proof (rule main_negative_port [OF parse_nothing])
  show "os_LookupEnv demo_os ''NODE_IP'' = (\<lambda>_. Some ''10.0.0.1'')" by (simp add: fun_eq_iff)
  show "list_all host_char ''10.0.0.1''" by (simp add: host_char_def is_digit_def is_lower_def is_upper_def)
qed (simp_all add: default_flags_def NODE_def)

section \<open>A start that succeeds\<close>

text \<open>
  What a start relies on, as far as the flags ask for it: the registry of one node map answers and
  takes an update of what it has just answered; the Kubernetes clients can be made from the one
  configuration there is; the CloudTower file can be read, decodes, and its user can log in; and
  one address can be listened at.
\<close>

definition registry_up :: "'w configmaps \<Rightarrow> string \<Rightarrow> bool" where
  "registry_up cm n \<longleftrightarrow> (\<forall>x. \<exists>m x'. cm_Get cm n x = (Inr m, x') \<and> data_ok (BinaryData m) \<and>
     (\<forall>d. \<exists>m' x2. cm_Update cm n (m\<lparr>BinaryData := d\<rparr>) x' = (Inr m', x2)))"

definition kube_up :: "('w, 'k) clients \<Rightarrow> flags \<Rightarrow> bool" where
  "kube_up cl fs \<longleftrightarrow> (\<exists>config.
     (\<forall>x. \<exists>x'. (if kubeConfigPath fs \<noteq> [] then cl_BuildConfigFromFlags cl (kubeConfigPath fs) else cl_InClusterConfig cl) x =
        (Inr config, x')) \<and>
     (\<forall>x. \<exists>f x'. cl_NewForConfig cl config x = (Inr f, x') \<and> registry_up (f (namespace fs)) (nodeMapName fs)) \<and>
     (\<forall>x. \<exists>u x'. cl_NewSnapshotClient cl config x = (Inr u, x')))"

definition tower_up :: "'w os \<Rightarrow> ('w, 'k) clients \<Rightarrow> bool" where
  "tower_up os cl \<longleftrightarrow> (\<exists>raw t.
     (\<forall>x. \<exists>x'. os_ReadFile os ''/etc/cloudtower-server/cloudtower.yaml'' x = (Inr raw, x')) \<and> cl_yaml_Unmarshal cl raw = Inr t \<and>
     (\<forall>x. \<exists>tc x'. cl_NewWithUserConfig cl (Server t) (Username t) (Password t)
        (if AuthMode t = ''LDAP'' then UserSourceLDAP else UserSourceLOCAL) x = (Inr tc, x')))"

definition can_listen :: "'w os \<Rightarrow> string \<Rightarrow> string \<Rightarrow> bool" where
  "can_listen os net addr \<longleftrightarrow> (\<forall>x. \<exists>x'. os_Listen os net addr x = (Inr (), x')) \<and>
     (net = ''unix'' \<longrightarrow> (\<forall>x e x'. os_Remove os addr x = (Inl e, x') \<longrightarrow> IsNotExist e))"

text \<open>On a node: its name and IP are in the environment, and its liveness port can be listened at.\<close>

definition node_up :: "'w os \<Rightarrow> flags \<Rightarrow> string \<Rightarrow> bool" where
  "node_up os fs ip \<longleftrightarrow> (\<exists>n. os_LookupEnv os ''NODE_NAME'' = (\<lambda>_. Some n)) \<and> os_LookupEnv os ''NODE_IP'' = (\<lambda>_. Some ip) \<and>
     list_all host_char ip \<and> 0 \<le> livenessPort fs \<and> can_listen os ''tcp'' (ip @ '':'' @ itoa (livenessPort fs))"

lemma sure_orDieE:
  assumes "sure Q m"
  shows "sure Q (orDieE m)"
  unfolding sure_def
proof
  fix w
  from assms obtain a w1 where "m w = (Ret a, w1)" "Q a" by (rule sureE)
  then show "\<exists>a w'. orDieE m w = (Ret a, w') \<and> Q a" by (simp add: orDieE_def)
qed

lemma sure_getKClient:
  assumes "kube_up cl fs"
  shows "sure (\<lambda>f. registry_up (f (namespace fs)) (nodeMapName fs)) (getKClient cl fs)"
proof -
  from assms obtain config where
    config: "\<And>x. \<exists>x'. (if kubeConfigPath fs \<noteq> [] then cl_BuildConfigFromFlags cl (kubeConfigPath fs) else cl_InClusterConfig cl) x =
      (Inr config, x')"
    and client: "\<And>x. \<exists>f x'. cl_NewForConfig cl config x = (Inr f, x') \<and> registry_up (f (namespace fs)) (nodeMapName fs)"
    and snapshots: "\<And>x. \<exists>u x'. cl_NewSnapshotClient cl config x = (Inr u, x')" unfolding kube_up_def by blast
  have "sure (\<lambda>k. k = config) (if length (kubeConfigPath fs) > 0
      then callE (EvKubeConfig (kubeConfigPath fs)) (cl_BuildConfigFromFlags cl (kubeConfigPath fs))
      else callE (EvKubeConfig []) (cl_InClusterConfig cl))"
    using config by (intro sure_if sure_callE) (simp_all split: if_splits)
  then show ?thesis unfolding getKClient_def
    by (rule sure_bindE [OF sure_wrapE])
       (simp, rule sure_bindE [OF sure_orDieE [OF sure_callE [OF client]]],
        rule sure_bindE [where Q = "\<lambda>_. True"], rule sure_orDieE, rule sure_callE, use snapshots in simp, rule sure_returnE)
qed

lemma sure_initConfig:
  assumes "kube_up cl fs" and "tower_up os cl" and "role fs \<in> {NODE, ROLE_ALL} \<Longrightarrow> node_up os fs ip"
  shows "sure (\<lambda>c. configured fs c \<and> registry_up (nm_client (cfg_NodeMap c)) (nodeMapName fs)) (initConfig os km cl fs)"
proof -
  let ?common = "\<lambda>c. Role c = role fs \<and> ServerAddr c = csiAddr fs \<and> ClusterID c = clusterID fs \<and>
      nm_name (cfg_NodeMap c) = nodeMapName fs \<and> registry_up (nm_client (cfg_NodeMap c)) (nodeMapName fs)"
  from assms(2) obtain raw t where yamlFile: "\<And>x. \<exists>x'. os_ReadFile os cloudTowerYaml x = (Inr raw, x')"
    and yaml: "cl_yaml_Unmarshal cl raw = Inr t"
    and login: "\<And>x. \<exists>tc x'. cl_NewWithUserConfig cl (Server t) (Username t) (Password t)
        (if AuthMode t = ''LDAP'' then UserSourceLDAP else UserSourceLOCAL) x = (Inr tc, x')"
    unfolding tower_up_def cloudTowerYaml_def by blast
  have read: "sure (\<lambda>r. r = raw) (callE e (os_ReadFile os cloudTowerYaml))" for e
    using yamlFile by (intro sure_callE) simp
  have login: "sure (\<lambda>_. True) (callE e (cl_NewWithUserConfig cl (Server t) (Username t) (Password t)
      (if AuthMode t = ''LDAP'' then UserSourceLDAP else UserSourceLOCAL)))" for e
    using login by (intro sure_callE) simp
  have common: "sure ?common (initCommonConfig os cl fs)"
    unfolding initCommonConfig_def Let_def
    by (rule sure_bindE [OF sure_getKClient [OF assms(1)]], rule sure_bindE [OF sure_wrapE [OF read]])
       (simp only: yaml sum.case, rule sure_bindE [OF sure_wrapE [OF login]], rule sure_returnE, simp add: NewNodeMap_def)
  have name: "\<exists>n. sure (\<lambda>v. v = Some n) (LookupEnvE os ''NODE_NAME'')" if "role fs \<in> {NODE, ROLE_ALL}"
    using assms(3) [OF that] by (auto simp: sure_def LookupEnvE_def node_up_def)
  have node: "sure (\<lambda>c. configured fs c \<and> registry_up (nm_client (cfg_NodeMap c)) (nodeMapName fs)) (initNodeConfig os km fs c)"
    if "?common c" "Role c = ROLE_ALL \<or> Role c = NODE" for c
  proof -
    from name that obtain n where "sure (\<lambda>v. v = Some n) (LookupEnvE os ''NODE_NAME'')" by auto
    then show ?thesis unfolding initNodeConfig_def Let_def
      by (rule sure_bindE) (use that in \<open>auto simp: configured_def intro!: sure_returnE\<close>)
  qed
  show ?thesis unfolding initConfig_def initControllerConfig_def
    by (rule sure_bindE [OF common], rule sure_bindE [where Q = ?common])
       (simp add: sure_returnE, rule sure_if [OF node sure_returnE], auto simp: configured_def)
qed

lemma sure_makeListener:
  assumes "server_address a = Some (net, addr)" and "can_listen os net addr"
  shows "sure (\<lambda>_. True) (makeListener os a)"
proof -
  from assms(1) obtain url where url: "Parse a = Some url" "net = Scheme url"
    "addr = (if Host url = [] then UPath url else JoinPath [Host url, UPath url])" by (auto simp: server_address_def)
  have listen: "sure (\<lambda>_. True) (callE e (os_Listen os net addr))" for e
    using assms(2) by (auto intro!: sure_callE simp: can_listen_def)
  have remove: "sure (\<lambda>r. case r of Inl e \<Rightarrow> IsNotExist e | Inr _ \<Rightarrow> True) (attemptE (callE e (os_Remove os addr)))"
    if "net = ''unix''" for e
    unfolding sure_def attemptE_def callE_def using assms(2) that
    by (auto simp: can_listen_def split: prod.splits sum.splits)
  show ?thesis unfolding makeListener_def url(1) option.case Let_def url(2,3) [symmetric]
    by (rule sure_bindE [where Q = "\<lambda>_. True"])
       (auto intro!: sure_if sure_bindE [OF remove] sure_returnE sure_wrapE listen split: sum.splits)
qed

lemma sure_Put:
  assumes "registry_up (nm_client m) (nm_name m)"
  shows "sure (\<lambda>_. True) (Put m key e)"
proof -
  have "\<exists>w'. Put m key e w = (Ret (), w')" for w
  proof -
    from assms obtain cm x where get: "cm_Get (nm_client m) (nm_name m) (ext w) = (Inr cm, x)" "data_ok (BinaryData cm)"
      and update: "\<And>d. \<exists>m' x2. cm_Update (nm_client m) (nm_name m) (cm\<lparr>BinaryData := d\<rparr>) x = (Inr m', x2)"
      unfolding registry_up_def by blast
    from nm.put_accepts [OF get(2)] obtain d where "putEntry (BinaryData cm) key e = Ret d" by blast
    moreover from update [of d] obtain m' x2 where "cm_Update (nm_client m) (nm_name m) (cm\<lparr>BinaryData := d\<rparr>) x = (Inr m', x2)" by blast
    ultimately show ?thesis using get(1) by (simp add: Put_def go_defs)
  qed
  then show ?thesis by (simp add: sure_def)
qed

lemma sure_Run:
  assumes "server_address (ServerAddr c) = Some (net, addr)" and "can_listen os net addr"
    and "registry_up (nm_client (cfg_NodeMap c)) (nm_name (cfg_NodeMap c))"
    and node: "Role c \<in> {NODE, ROLE_ALL} \<Longrightarrow> os_LookupEnv os ''NODE_IP'' = (\<lambda>_. Some ip) \<and> list_all host_char ip \<and>
      0 \<le> cfg_LivenessPort c \<and> can_listen os ''tcp'' (ip @ '':'' @ itoa (cfg_LivenessPort c))"
    and "\<And>x. \<exists>x'. serve x = (Inr (), x')"
  shows "sure (\<lambda>_. True) (Run os serve (NewDriver c))"
proof -
  have ip: "sure (\<lambda>v. v = ip) (getNodeIP os)" if "Role c \<in> {NODE, ROLE_ALL}"
    using node [OF that] by (simp add: sure_def getNodeIP_def LookupEnvE_def bindE_def returnE_def)
  have "\<exists>w'. RetryLoop os (Put (cfg_NodeMap c) (NodeID c) e) (Suc 4) d None w = (Ret (), w')" for e d w
    using sure_Put [OF assms(3), of "NodeID c" e] RetryLoop_ok_step unfolding sure_def by (metis (full_types) unit.exhaust)
  moreover have five: "nat 5 = Suc 4" by simp
  ultimately have register: "sure (\<lambda>_. True) (registerNodeEntry os c)" if "Role c \<in> {NODE, ROLE_ALL}"
    unfolding registerNodeEntry_def by (intro sure_bindE [OF ip [OF that]]) (simp add: sure_def Retry_def del: RetryLoop.simps)
  have live: "sure (\<lambda>_. True) (NodeLivenessServer_Run os c)" if role: "Role c \<in> {NODE, ROLE_ALL}"
  proof -
    have "makeListener os (livenessURL c ip) = wrapE (\<lambda>err. Errorf ''listen %v,  %v'' [AStr (ip @ '':'' @ itoa (cfg_LivenessPort c)), AErr err])
        (callE (EvListen ''tcp'' (ip @ '':'' @ itoa (cfg_LivenessPort c))) (os_Listen os ''tcp'' (ip @ '':'' @ itoa (cfg_LivenessPort c))))"
      using makeListener_tcp [of ip "cfg_LivenessPort c" os] node [OF role] by (simp add: livenessURL_def)
    moreover have "sure (\<lambda>_. True) (callE e (os_Listen os ''tcp'' (ip @ '':'' @ itoa (cfg_LivenessPort c))))" for e
      using node [OF role] by (auto intro!: sure_callE simp: can_listen_def)
    ultimately have "sure (\<lambda>_. True) (makeListener os (livenessURL c ip))" by (simp add: sure_wrapE)
    then show ?thesis unfolding NodeLivenessServer_Run_def by (intro sure_bindE [OF ip [OF role]]) simp
  qed
  have serve: "sure (\<lambda>_. True) (callE EvServe serve)" using assms(5) by (auto intro!: sure_callE)
  show ?thesis unfolding Run_def Let_def NewDriver_servers(1)
    by (intro sure_bindE [where Q = "\<lambda>_. True"] sure_if sure_emitE sure_returnE TrueI register live
        sure_makeListener [OF assms(1,2)] serve) (auto simp: NewDriver_servers)
qed

text \<open>
  C36: The driver comes up.  With a command line that parses, working Kubernetes clients and node
  map, a readable CloudTower file that decodes and whose user can log in, an address to serve at
  that can be listened at, and on a node its name and IP (a host name or an IPv4 address) in the
  environment, a port that is not negative and can be listened at there: \<open>main\<close> listens at the
  address of \<open>csi_addr\<close> and serves, and returns normally when serving ends so.  Before that exactly
  the services of the role were registered, once each and in order, and a node listens for
  liveness calls at its IP and port, the address it registers.
\<close>

theorem main_serves:
  assumes "parseFlags lib args default_flags = Parsed rest fs" and "kube_up cl fs" and "tower_up os cl"
    and "server_address (csiAddr fs) = Some (net, addr)" and "can_listen os net addr"
    and "role fs \<in> {NODE, ROLE_ALL} \<Longrightarrow> node_up os fs ip" and "\<And>x. \<exists>x'. serve x = (Inr (), x')"
  shows "\<exists>w' evs. main os km cl serve lib args w = (Ret (), w') \<and> trace w' = trace w @ evs @ [EvListen net addr, EvServe] \<and>
    filter registration evs = map EvRegister (services (role fs)) \<and>
    (role fs \<in> {NODE, ROLE_ALL} \<longrightarrow> EvListen ''tcp'' (ip @ '':'' @ itoa (livenessPort fs)) \<in> set evs)"
proof -
  from sure_initConfig [OF assms(2,3,6), of km] obtain c w0 where init: "initConfig os km cl fs w = (Ret c, w0)"
    and c: "configured fs c" "registry_up (nm_client (cfg_NodeMap c)) (nodeMapName fs)"
    unfolding sure_def by blast
  have fields: "Role c = role fs" "ServerAddr c = csiAddr fs" "nm_name (cfg_NodeMap c) = nodeMapName fs"
    "role fs \<in> {NODE, ROLE_ALL} \<Longrightarrow> cfg_LivenessPort c = livenessPort fs"
    using c(1) by (auto simp: configured_def)
  have "sure (\<lambda>_. True) (Run os serve (NewDriver c))"
    using assms(4-6) fields c(2) by (intro sure_Run [OF _ assms(5) _ _ assms(7), where ip = ip]) (auto simp: node_up_def)
  then obtain u w' where run: "Run os serve (NewDriver c) w0 = (Ret u, w')" by (rule sureE)
  then have main: "main os km cl serve lib args w = (Ret (), w')"
    using init by (simp add: main_def assms(1) runDriver_def bindE_def wrapE_def)
  have "emits (\<lambda>e. \<not> registration e) (initConfig os km cl fs)" by (intro emits_rules) (simp_all add: registration_def)
  from no_registration [OF this init] obtain es where es: "trace w0 = trace w @ es" "filter registration es = []" .
  from run have run: "Run os serve (NewDriver c) w0 = (Ret (), w')" by simp
  have addr: "server_address (ServerAddr c) = Some (net, addr)" using fields(2) assms(4) by simp
  from Run_services [OF run] fields(1) addr obtain fs' where fs': "trace w' = trace w0 @ fs' @ [EvListen net addr, EvServe]"
    "filter registration fs' = map EvRegister (services (role fs))" by auto
  have "EvListen ''tcp'' (ip @ '':'' @ itoa (livenessPort fs)) \<in> set fs'" if node: "role fs \<in> {NODE, ROLE_ALL}"
  proof -
    from node fields(1) have "Role c \<in> {ROLE_ALL, NODE}" by auto
    with Run_services [OF run] obtain net' addr' w1 w2 w3 pre ss where
      "server_address (ServerAddr c) = Some (net', addr')" and
      w1: "trace w1 = trace w0 @ pre" "registerNodeEntry os c w1 = (Ret (), w2)" "NodeLivenessServer_Run os c w2 = (Ret (), w3)"
      "trace w' = trace w3 @ [EvRegister ''Node''] @ ss @ [EvListen net' addr', EvServe]" by blast
    then have same: "net' = net" "addr' = addr" using addr by simp_all
    have "emits (\<lambda>_. True) (registerNodeEntry os c)" by (intro emits_rules) simp_all
    from emits_run [OF this w1(2)] obtain rs where "trace w2 = trace w1 @ rs" .
    moreover have "trace w3 = trace w2 @ [EvLookupEnv ''NODE_IP'', EvListen ''tcp'' (ip @ '':'' @ itoa (livenessPort fs))]"
      using liveness_listens [of os w2 ip c] w1(3) assms(6) [OF node] fields(4) [OF node]
      by (simp add: nodeAddress_def registeredEntry_def node_up_def)
    ultimately have "fs' @ [EvListen net addr, EvServe] = (pre @ rs @ [EvLookupEnv ''NODE_IP'',
        EvListen ''tcp'' (ip @ '':'' @ itoa (livenessPort fs))] @ [EvRegister ''Node''] @ ss) @ [EvListen net addr, EvServe]"
      using w1 fs'(1) by (simp add: same)
    then have "fs' = pre @ rs @ [EvLookupEnv ''NODE_IP'',
        EvListen ''tcp'' (ip @ '':'' @ itoa (livenessPort fs))] @ [EvRegister ''Node''] @ ss" by (simp only: append_same_eq)
    then show ?thesis by simp
  qed
  with main es fs' show ?thesis by (intro exI [of _ w'] exI [of _ "es @ fs'"]) simp
qed

text \<open>Demonstration services where the node map is always there and accepts every update.\<close>

definition up_configmaps :: "demo configmaps" where
  "up_configmaps =
     \<lparr>cm_Get = (\<lambda>n x. (Inr \<lparr>BinaryData = None, ResourceVersion = 1\<rparr>, x)), cm_Update = (\<lambda>n m x. (Inr m, x\<lparr>d_cm := m\<rparr>))\<rparr>"

definition up_clients :: "(demo, unit) clients" where
  "up_clients = demo_clients\<lparr>cl_NewForConfig := (\<lambda>k x. (Inr (\<lambda>ns. up_configmaps), x))\<rparr>"

definition up_args :: "string list" where
  "up_args = [''-csi_addr=unix:///csi.sock'', ''-liveness_port='' @ itoa 10103]"

lemma up_parsed:
  "parseFlags (\<lambda>_. None) up_args default_flags = Parsed [] (default_flags\<lparr>csiAddr := ''unix:///csi.sock'', livenessPort := 10103\<rparr>)"
proof -
  have "list_all2 spelling [(''csi_addr'', ''unix:///csi.sock''), (''liveness_port'', itoa 10103)]
      [[''-csi_addr=unix:///csi.sock''], [''-liveness_port='' @ itoa 10103]]"
    using spelling.intros(1) [of "''csi_addr''" "''unix:///csi.sock''"] spelling.intros(1) [of "''liveness_port''" "itoa 10103"]
    by simp
  from parseFlags_assign [OF this, of "\<lambda>_. None" "[]" default_flags] ParseInt0_itoa [of 10103]
  show ?thesis by (simp add: own_flags_def setFlag_def parse_nothing up_args_def)
qed

lemma up_services:
  "kube_up up_clients fs" "tower_up demo_os up_clients" "can_listen demo_os net addr"
  by (simp_all add: kube_up_def tower_up_def can_listen_def registry_up_def up_clients_def up_configmaps_def demo_clients_def data_ok_def)

theorem main_serves_witness:
  "\<exists>w' evs. main demo_os demo_kmount up_clients (\<lambda>x. (Inr (), x)) (\<lambda>_. None) up_args demo_world = (Ret (), w') \<and>
     trace w' = trace demo_world @ evs @ [EvListen ''unix'' ''/csi.sock'', EvServe] \<and>
     filter registration evs = map EvRegister (services NODE) \<and>
     EvListen ''tcp'' (''10.0.0.1'' @ '':'' @ itoa 10103) \<in> set evs"
proof -
  let ?fs = "default_flags\<lparr>csiAddr := ''unix:///csi.sock'', livenessPort := 10103\<rparr>"
  have addr: "server_address (csiAddr ?fs) = Some (''unix'', ''/csi.sock'')" by code_simp
  have ip: "list_all host_char ''10.0.0.1''" by (simp add: host_char_def is_digit_def is_lower_def is_upper_def)
  have node: "role ?fs = NODE" "livenessPort ?fs = 10103" by (simp_all add: default_flags_def NODE_def)
  have "node_up demo_os ?fs ''10.0.0.1''" using ip up_services(3) by (simp add: node_up_def fun_eq_iff)
  from main_serves [OF up_parsed up_services(1,2) addr up_services(3) this, of "\<lambda>x. (Inr (), x)" demo_kmount demo_world]
  show ?thesis unfolding node by (simp only: simp_thms insert_iff) auto
qed

end
