(* ===== verification/Key_Mutex.thy ===== *)
theory Key_Mutex
  imports Controller_Correct
begin

text \<open>
  Concurrent publish and unpublish calls and the \<open>keyMutex\<close> of \<open>controllerServer\<close>
  (\<open>pkg/driver/controller.go\<close>).  gRPC runs every call in its own goroutine; the calls share the
  hashed key mutex that \<open>newControllerServer\<close> makes, in which several keys may share one lock:
  \<open>slot\<close>, the lock a key is hashed to, is a parameter.  A call is one of the two handlers of the
  controller with the environment that answers it, an arbitrary one, so that the answers may be
  those any interleaving with other calls produces; its program is the sequence of external
  calls the handler makes.
\<close>

section \<open>Calls\<close>

datatype 'w rpc =
    Publish "'w os" "'w DriverConfig" ControllerPublishVolumeRequest "'w world"
  | Unpublish "'w os" "'w DriverConfig" ControllerUnpublishVolumeRequest "'w world"

fun rpc_run :: "'w rpc \<Rightarrow> unit res \<times> 'w world" where
  "rpc_run (Publish os c req w) = ControllerPublishVolume os c req w"
| "rpc_run (Unpublish os c req w) = ControllerUnpublishVolume os c req w"

fun rpc_start :: "'w rpc \<Rightarrow> 'w world" where
  "rpc_start (Publish os c req w) = w"
| "rpc_start (Unpublish os c req w) = w"

fun rpc_node :: "'w rpc \<Rightarrow> string" where
  "rpc_node (Publish os c req w) = cpub_NodeId req"
| "rpc_node (Unpublish os c req w) = cunpub_NodeId req"

definition rpc_program :: "'w rpc \<Rightarrow> event list" where
  "rpc_program r = drop (length (trace (rpc_start r))) (trace (snd (rpc_run r)))"

section \<open>Interleaving\<close>

text \<open>
  The calls in flight are numbered; \<open>held\<close> tells which of them has a lock and \<open>todo\<close> what is
  left of each.
\<close>

record server =
  held :: "nat \<Rightarrow> nat option"
  todo :: "nat \<Rightarrow> event list"

definition start_server :: "'w rpc list \<Rightarrow> server" where
  "start_server calls =
     \<lparr>held = (\<lambda>_. None), todo = (\<lambda>t. if t < length calls then rpc_program (calls ! t) else [])\<rparr>"

definition call_node :: "'w rpc list \<Rightarrow> nat \<Rightarrow> string" where
  "call_node calls t = (if t < length calls then rpc_node (calls ! t) else [])"

text \<open>
  One external call of one handler.  \<open>LockKey\<close> waits until the lock of the key is free,
  \<open>UnlockKey\<close> frees it, whoever has it; every other call is made without regard to the locks.
\<close>

inductive step :: "(string \<Rightarrow> nat) \<Rightarrow> server \<Rightarrow> nat \<times> event \<Rightarrow> server \<Rightarrow> bool" for slot where
  step_lock: "todo s t = EvLockKey k # es \<Longrightarrow> held s (slot k) = None \<Longrightarrow>
     step slot s (t, EvLockKey k) (s\<lparr>held := (held s)(slot k := Some t), todo := (todo s)(t := es)\<rparr>)"
| step_unlock: "todo s t = EvUnlockKey k # es \<Longrightarrow>
     step slot s (t, EvUnlockKey k) (s\<lparr>held := (held s)(slot k := None), todo := (todo s)(t := es)\<rparr>)"
| step_call: "todo s t = e # es \<Longrightarrow> \<not> lock_call e \<Longrightarrow> step slot s (t, e) (s\<lparr>todo := (todo s)(t := es)\<rparr>)"

inductive run :: "(string \<Rightarrow> nat) \<Rightarrow> server \<Rightarrow> (nat \<times> event) list \<Rightarrow> server \<Rightarrow> bool" for slot s where
  run_start: "run slot s [] s"
| run_step: "run slot s h s1 \<Longrightarrow> step slot s1 te s2 \<Longrightarrow> run slot s (h @ [te]) s2"

section \<open>The invariant\<close>

text \<open>A call outside its section holds no lock; a call inside it holds the lock of its node and no other.\<close>

definition outside :: "string \<Rightarrow> server \<Rightarrow> nat \<Rightarrow> bool" where
  "outside n s t \<longleftrightarrow> locked n (todo s t) \<and> (\<forall>i. held s i \<noteq> Some t)"

definition inside :: "(string \<Rightarrow> nat) \<Rightarrow> string \<Rightarrow> server \<Rightarrow> nat \<Rightarrow> bool" where
  "inside slot n s t \<longleftrightarrow> (\<exists>mid. todo s t = mid @ [EvUnlockKey n] \<and> list_all (\<lambda>e. \<not> lock_call e) mid) \<and>
     (\<forall>i. held s i = Some t \<longleftrightarrow> i = slot n)"

definition sections :: "(string \<Rightarrow> nat) \<Rightarrow> (nat \<Rightarrow> string) \<Rightarrow> server \<Rightarrow> bool" where
  "sections slot node s \<longleftrightarrow> (\<forall>t. outside (node t) s t \<or> inside slot (node t) s t)"

lemma lock_call_simps [simp]: "lock_call (EvLockKey k)" "lock_call (EvUnlockKey k)"
  by (simp_all add: lock_call_def)

lemma vm_call_not_lock: "vm_call e \<Longrightarrow> \<not> lock_call e"
  by (auto simp: vm_call_def lock_call_def split: event.splits)

text \<open>The first call of a program with one closed section.\<close>

lemma locked_Cons:
  "locked n (e # es) \<longleftrightarrow> (\<not> vm_call e \<and> \<not> lock_call e \<and> locked n es) \<or>
     (e = EvLockKey n \<and> (\<exists>mid. es = mid @ [EvUnlockKey n] \<and> list_all (\<lambda>e. \<not> lock_call e) mid))"
proof
  assume "locked n (e # es)"
  then show "(\<not> vm_call e \<and> \<not> lock_call e \<and> locked n es) \<or>
      (e = EvLockKey n \<and> (\<exists>mid. es = mid @ [EvUnlockKey n] \<and> list_all (\<lambda>e. \<not> lock_call e) mid))"
    unfolding locked_def
  proof (elim disjE exE conjE)
    fix pre mid
    assume *: "e # es = pre @ [EvLockKey n] @ mid @ [EvUnlockKey n]"
      "list_all (\<lambda>e. \<not> vm_call e \<and> \<not> lock_call e) pre" "list_all (\<lambda>e. \<not> lock_call e) mid"
    then show "\<not> vm_call e \<and> \<not> lock_call e \<and> (list_all (\<lambda>e. \<not> vm_call e \<and> \<not> lock_call e) es \<or>
        (\<exists>pre mid. es = pre @ [EvLockKey n] @ mid @ [EvUnlockKey n] \<and>
           list_all (\<lambda>e. \<not> vm_call e \<and> \<not> lock_call e) pre \<and> list_all (\<lambda>e. \<not> lock_call e) mid)) \<or>
      e = EvLockKey n \<and> (\<exists>mid. es = mid @ [EvUnlockKey n] \<and> list_all (\<lambda>e. \<not> lock_call e) mid)"
      by (cases pre) auto
  qed simp
next
  assume "(\<not> vm_call e \<and> \<not> lock_call e \<and> locked n es) \<or>
      (e = EvLockKey n \<and> (\<exists>mid. es = mid @ [EvUnlockKey n] \<and> list_all (\<lambda>e. \<not> lock_call e) mid))"
  then show "locked n (e # es)"
  proof (elim disjE conjE exE)
    assume e: "\<not> vm_call e" "\<not> lock_call e" "locked n es"
    from e(3) show ?thesis unfolding locked_def
    proof (elim disjE exE conjE)
      fix pre mid
      assume "es = pre @ [EvLockKey n] @ mid @ [EvUnlockKey n]"
        "list_all (\<lambda>e. \<not> vm_call e \<and> \<not> lock_call e) pre" "list_all (\<lambda>e. \<not> lock_call e) mid"
      with e show "list_all (\<lambda>e. \<not> vm_call e \<and> \<not> lock_call e) (e # es) \<or>
        (\<exists>pre mid. e # es = pre @ [EvLockKey n] @ mid @ [EvUnlockKey n] \<and>
           list_all (\<lambda>e. \<not> vm_call e \<and> \<not> lock_call e) pre \<and> list_all (\<lambda>e. \<not> lock_call e) mid)"
        by (intro disjI2 exI [of _ "e # pre"] exI [of _ mid]) simp
    qed (use e in simp)
  next
    fix mid
    assume "e = EvLockKey n" "es = mid @ [EvUnlockKey n]" "list_all (\<lambda>e. \<not> lock_call e) mid"
    then show ?thesis unfolding locked_def by (intro disjI2 exI [of _ "[]"] exI [of _ mid]) simp
  qed
qed

lemma locked_Nil [simp]: "locked n []"
  by (simp add: locked_def)

text \<open>A call inside its section: the next call is not \<open>LockKey\<close>, and \<open>UnlockKey\<close> ends the program.\<close>

lemma inside_Cons:
  assumes "e # es = mid @ [EvUnlockKey n]" and "list_all (\<lambda>e. \<not> lock_call e) mid"
  shows "(e = EvUnlockKey n \<and> es = []) \<or>
    (\<not> lock_call e \<and> (\<exists>mid'. es = mid' @ [EvUnlockKey n] \<and> list_all (\<lambda>e. \<not> lock_call e) mid'))"
  using assms by (cases mid) auto

text \<open>The lock of a call inside its section is its own.\<close>

lemma sections_other:
  assumes "sections slot node s" and "held s i = Some t"
  shows "inside slot (node t) s t" and "i = slot (node t)"
  using assms unfolding sections_def outside_def inside_def by blast+

lemma phase_frame:
  assumes "outside n s t \<or> inside slot n s t" and "todo s' t = todo s t"
    and "\<And>i. held s' i = Some t \<longleftrightarrow> held s i = Some t"
  shows "outside n s' t \<or> inside slot n s' t"
  using assms by (simp add: outside_def inside_def)

text \<open>The call that takes the lock enters its section, the call that frees it leaves it.\<close>

lemma enter_section:
  assumes "outside n s u \<or> inside slot n s u" and "todo s u = EvLockKey k # es"
  shows "k = n" and "inside slot n (s\<lparr>held := (held s)(slot k := Some u), todo := (todo s)(u := es)\<rparr>) u"
proof -
  have "\<not> inside slot n s u" using assms(2) inside_Cons [of "EvLockKey k" es] by (auto simp: inside_def)
  with assms show "k = n" "inside slot n (s\<lparr>held := (held s)(slot k := Some u), todo := (todo s)(u := es)\<rparr>) u"
    by (auto simp: outside_def inside_def locked_Cons)
qed

lemma leave_section:
  assumes "outside n s u \<or> inside slot n s u" and "todo s u = EvUnlockKey k # es"
  shows "held s (slot k) = Some u" and "outside n (s\<lparr>held := (held s)(slot k := None), todo := (todo s)(u := es)\<rparr>) u"
proof -
  have "\<not> outside n s u" using assms(2) by (auto simp: outside_def locked_Cons)
  with assms(1) obtain mid where "todo s u = mid @ [EvUnlockKey n]" "list_all (\<lambda>e. \<not> lock_call e) mid"
    and own: "\<And>i. held s i = Some u \<longleftrightarrow> i = slot n" by (auto simp: inside_def)
  with inside_Cons [of "EvUnlockKey k" es mid n] assms(2) have "k = n" "es = []" by auto
  with own show "held s (slot k) = Some u" "outside n (s\<lparr>held := (held s)(slot k := None), todo := (todo s)(u := es)\<rparr>) u"
    by (auto simp: outside_def)
qed

lemma stay_in_section:
  assumes "outside n s u \<or> inside slot n s u" and "todo s u = e # es" and "\<not> lock_call e"
  shows "outside n (s\<lparr>todo := (todo s)(u := es)\<rparr>) u \<or> inside slot n (s\<lparr>todo := (todo s)(u := es)\<rparr>) u"
  using assms inside_Cons [of e es _ n] by (auto simp: outside_def inside_def locked_Cons)

lemma step_sections:
  assumes inv: "sections slot node s" and step: "step slot s (u, e) s'"
  shows "sections slot node s'"
  unfolding sections_def
proof
  fix t
  from inv have t: "outside (node t) s t \<or> inside slot (node t) s t" and u: "outside (node u) s u \<or> inside slot (node u) s u"
    by (auto simp: sections_def)
  from step show "outside (node t) s' t \<or> inside slot (node t) s' t"
  proof cases
    case (step_lock k es)
    show ?thesis
    proof (cases "t = u")
      case True
      with step_lock enter_section [OF u step_lock(3)] show ?thesis by simp
    next
      case False
      with step_lock show ?thesis by (intro phase_frame [OF t]) auto
    qed
  next
    case (step_unlock k es)
    show ?thesis
    proof (cases "t = u")
      case True
      with step_unlock leave_section [OF u step_unlock(3)] show ?thesis by simp
    next
      case False
      with step_unlock leave_section(1) [OF u step_unlock(3)] show ?thesis by (intro phase_frame [OF t]) auto
    qed
  next
    case (step_call es)
    show ?thesis
    proof (cases "t = u")
      case True
      with step_call stay_in_section [OF u step_call(2)] show ?thesis by simp
    next
      case False
      with step_call show ?thesis by (intro phase_frame [OF t]) auto
    qed
  qed
qed

lemma run_sections: "run slot s h s' \<Longrightarrow> sections slot node s \<Longrightarrow> sections slot node s'"
  by (induction rule: run.induct) (auto intro: step_sections)

lemma rpc_program_locked:
  assumes "fst (rpc_run r) \<noteq> Diverge"
  shows "locked (rpc_node r) (rpc_program r)"
proof -
  have "\<exists>evs. trace (snd (rpc_run r)) = trace (rpc_start r) @ evs \<and> locked (rpc_node r) evs"
    using assms ControllerPublishVolume_locked [OF prod.collapse [symmetric]]
      ControllerUnpublishVolume_locked [OF prod.collapse [symmetric]] by (cases r) auto
  then show ?thesis by (auto simp: rpc_program_def)
qed

lemma start_sections:
  "\<forall>r \<in> set calls. fst (rpc_run r) \<noteq> Diverge \<Longrightarrow> sections slot (call_node calls) (start_server calls)"
  by (auto simp: sections_def outside_def start_server_def call_node_def intro!: disjI1 rpc_program_locked)

section \<open>Progress\<close>

lemma sections_vm_call:
  assumes "sections slot node s" and "todo s t = e # es" and "vm_call e"
  shows "held s (slot (node t)) = Some t"
  using assms vm_call_not_lock [of e] unfolding sections_def outside_def inside_def by (auto simp: locked_Cons dest: spec [of _ t])

lemma sections_enabled:
  assumes inv: "sections slot node s" and "todo s t \<noteq> []"
  obtains te s' where "step slot s te s'"
proof (cases "\<exists>u. inside slot (node u) s u")
  case True
  then obtain u mid where "todo s u = mid @ [EvUnlockKey (node u)]" "list_all (\<lambda>e. \<not> lock_call e) mid"
    by (auto simp: inside_def)
  then show ?thesis by (cases mid) (auto intro: that step_unlock step_call)
next
  case False
  with inv have out: "outside (node u) s u" for u by (auto simp: sections_def)
  then have free: "held s i = None" for i unfolding outside_def by (cases "held s i") auto
  from assms(2) obtain e es where t: "todo s t = e # es" by (cases "todo s t") auto
  with out [of t] consider "\<not> lock_call e" | "e = EvLockKey (node t)" by (auto simp: outside_def locked_Cons)
  then show ?thesis using t free by cases (auto intro: that step_lock step_call)
qed

definition left :: "nat \<Rightarrow> server \<Rightarrow> nat" where
  "left n s = (\<Sum>t<n. length (todo s t))"

lemma step_left:
  assumes "step slot s te s'" and "\<forall>t \<ge> n. todo s t = []"
  shows "left n s = Suc (left n s')" and "\<forall>t \<ge> n. todo s' t = []"
proof -
  from assms(1) obtain t e es where t: "todo s t = e # es" and s': "todo s' = (todo s)(t := es)"
    by cases auto
  with assms(2) have "t < n" by (metis list.distinct(1) not_le)
  then have "left n s = length (todo s t) + (\<Sum>u \<in> {..<n} - {t}. length (todo s u))"
    "left n s' = length (todo s' t) + (\<Sum>u \<in> {..<n} - {t}. length (todo s' u))"
    unfolding left_def by (simp_all add: sum.remove)
  moreover have "(\<Sum>u \<in> {..<n} - {t}. length (todo s' u)) = (\<Sum>u \<in> {..<n} - {t}. length (todo s u))"
    by (rule sum.cong) (simp_all add: s')
  ultimately show "left n s = Suc (left n s')" using t s' by simp
  show "\<forall>t \<ge> n. todo s' t = []" using assms(2) s' \<open>t < n\<close> by auto
qed

lemma run_first: "step slot s te s1 \<Longrightarrow> run slot s1 h s2 \<Longrightarrow> run slot s (te # h) s2"
proof (induction h arbitrary: s2 rule: rev_induct)
  case Nil
  from Nil.prems(2) have "s2 = s1" by cases auto
  with run_step [OF run_start Nil.prems(1)] show ?case by simp
next
  case (snoc x h)
  from snoc.prems(2) obtain s3 where "run slot s1 h s3" "step slot s3 x s2" by cases auto
  with snoc.IH [OF snoc.prems(1)] run_step [of slot s "te # h" s3 x s2] show ?case by simp
qed

lemma sections_completes:
  assumes "sections slot node s" and "\<forall>t \<ge> n. todo s t = []"
  shows "\<exists>h s'. run slot s h s' \<and> length h = left n s \<and> (\<forall>t. todo s' t = []) \<and> (\<forall>i. held s' i = None)"
  using assms
proof (induction "left n s" arbitrary: s)
  case 0
  then have "todo s t = []" for t by (cases "t < n") (auto simp: left_def)
  moreover have "held s i = None" for i
  proof (cases "held s i")
    case (Some u)
    from sections_other(1) [OF "0.prems"(1) this] \<open>\<And>t. todo s t = []\<close> show ?thesis by (simp add: inside_def)
  qed
  ultimately show ?case using "0.hyps" by (intro exI [of _ "[]"] exI [of _ s]) (simp add: run_start)
next
  case (Suc k)
  have "\<exists>t. todo s t \<noteq> []"
  proof (rule ccontr)
    assume "\<not> (\<exists>t. todo s t \<noteq> [])"
    with Suc.hyps(2) show False by (simp add: left_def)
  qed
  then obtain te s1 where step: "step slot s te s1" using sections_enabled [OF Suc.prems(1)] by blast
  obtain t e where "te = (t, e)" by (rule prod.exhaust)
  with step step_sections [OF Suc.prems(1)] have "sections slot node s1" by simp
  with Suc.hyps(1) [of s1] step_left [OF step Suc.prems(2)] Suc.hyps(2) obtain h s' where
    "run slot s1 h s'" "length h = left n s1" "\<forall>t. todo s' t = []" "\<forall>i. held s' i = None" by auto
  with run_first [OF step] step_left(1) [OF step Suc.prems(2)] show ?case
    by (intro exI [of _ "te # h"] exI [of _ s']) simp
qed

lemma run_idle: "run slot s h s' \<Longrightarrow> \<forall>t \<ge> n. todo s t = [] \<Longrightarrow> \<forall>t \<ge> n. todo s' t = []"
  by (induction rule: run.induct) (auto dest: step_left(2))

section \<open>Properties\<close>

text \<open>
  C12: Mutual exclusion of concurrent calls on one node.  In every interleaving of any number of
  publish and unpublish calls, a call that is about to touch the storage platform's view of a VM
  holds the lock of its node, so two calls for the same node, or for nodes that share a lock,
  are never both at such a step.
\<close>

theorem publish_mutual_exclusion:
  assumes "\<forall>r \<in> set calls. fst (rpc_run r) \<noteq> Diverge" and "run slot (start_server calls) h s"
    and "todo s t = e # es" and "vm_call e" and "todo s u = e' # es'" and "vm_call e'"
    and "slot (call_node calls t) = slot (call_node calls u)"
  shows "t = u \<and> held s (slot (call_node calls t)) = Some t"
proof -
  have inv: "sections slot (call_node calls) s" by (rule run_sections [OF assms(2) start_sections [OF assms(1)]])
  have t: "held s (slot (call_node calls t)) = Some t" by (rule sections_vm_call [OF inv assms(3,4)])
  have "held s (slot (call_node calls u)) = Some u" by (rule sections_vm_call [OF inv assms(5,6)])
  then have "t = u" unfolding assms(7) [symmetric] t by (rule option.inject [THEN iffD1])
  with t show ?thesis by blast
qed

definition demo_unpublish :: "demo rpc" where
  "demo_unpublish = Unpublish demo_os demo_config \<lparr>cunpub_VolumeId = ''vol-1'', cunpub_NodeId = ''node-1''\<rparr> demo_world"

lemma demo_unpublish_run: "rpc_run demo_unpublish = (Ret (), demo_world\<lparr>trace := rpc_program demo_unpublish\<rparr>)"
  and demo_unpublish_program: "rpc_program demo_unpublish =
    [EvLockKey ''node-1'', EvGetVMDisks ''node-1'' ''vol-1'', EvRemoveVMDisk ''node-1'' [''d''], EvNow, EvGetTasks ''t'',
     EvUnlockKey ''node-1'']"
proof -
  have "rpc_run demo_unpublish = (Ret (), demo_world\<lparr>trace :=
    [EvLockKey ''node-1'', EvGetVMDisks ''node-1'' ''vol-1'', EvRemoveVMDisk ''node-1'' [''d''], EvNow, EvGetTasks ''t'',
     EvUnlockKey ''node-1'']\<rparr>)"
    by (simp add: demo_unpublish_def ControllerUnpublishVolume_def unpublishVolumeFromVm_def Let_def api_defs go_defs
        demo_task_def demo_wait demo_world_def)
  then show "rpc_program demo_unpublish =
    [EvLockKey ''node-1'', EvGetVMDisks ''node-1'' ''vol-1'', EvRemoveVMDisk ''node-1'' [''d''], EvNow, EvGetTasks ''t'',
     EvUnlockKey ''node-1'']" and "rpc_run demo_unpublish = (Ret (), demo_world\<lparr>trace := rpc_program demo_unpublish\<rparr>)"
    by (simp_all add: rpc_program_def demo_unpublish_def demo_world_def)
qed

theorem publish_mutual_exclusion_witness:
  "\<exists>h s. run length (start_server [demo_unpublish, demo_unpublish]) h s \<and>
     todo s 1 = EvGetVMDisks ''node-1'' ''vol-1'' # drop 2 (rpc_program demo_unpublish) \<and> held s 6 = Some 1"
proof -
  let ?calls = "[demo_unpublish, demo_unpublish]" and ?k = "''node-1''"
  let ?s = "(start_server ?calls)\<lparr>held := (held (start_server ?calls))(length ?k := Some 1),
     todo := (todo (start_server ?calls))(1 := tl (rpc_program demo_unpublish))\<rparr>"
  have "step length (start_server ?calls) (1, EvLockKey ?k) ?s"
    by (rule step_lock) (simp_all add: start_server_def demo_unpublish_program)
  from run_step [OF run_start this] have run: "run length (start_server ?calls) [(1, EvLockKey ?k)] ?s" by simp
  have todo: "todo ?s 1 = EvGetVMDisks ?k ''vol-1'' # drop 2 (rpc_program demo_unpublish)"
    by (simp add: demo_unpublish_program)
  have "call_node ?calls 1 = ?k" by (simp add: call_node_def demo_unpublish_def)
  with publish_mutual_exclusion [OF _ run todo _ todo] have "held ?s 6 = Some 1"
    by (simp add: demo_unpublish_run vm_call_def)
  with run todo show ?thesis by blast
qed

text \<open>
  C13: No deadlock and no lock left behind: from every state that concurrent publish and
  unpublish calls can reach, they can all be run to their end, and then every lock is free.
\<close>

theorem publish_no_deadlock:
  assumes "\<forall>r \<in> set calls. fst (rpc_run r) \<noteq> Diverge" and "run slot (start_server calls) h s"
  shows "\<exists>h' s'. run slot s h' s' \<and> (\<forall>t. todo s' t = []) \<and> (\<forall>i. held s' i = None)"
proof -
  have "sections slot (call_node calls) s" by (rule run_sections [OF assms(2) start_sections [OF assms(1)]])
  moreover have "\<forall>t \<ge> length calls. todo s t = []"
    by (rule run_idle [OF assms(2)]) (simp add: start_server_def)
  ultimately show ?thesis using sections_completes by blast
qed

theorem publish_no_deadlock_witness:
  "\<exists>h' s'. run length (start_server [demo_unpublish, demo_unpublish]) h' s' \<and>
     (\<forall>t. todo s' t = []) \<and> (\<forall>i. held s' i = None)"
  by (rule publish_no_deadlock [OF _ run_start]) (simp add: demo_unpublish_run)

end
