(* ===== verification/Attachment.thy ===== *)
theory Attachment
  imports Controller_Correct
begin

text \<open>
  Publishing and unpublishing against the platform's view of which volume is attached to which
  VM: \<open>att x\<close> is the set of pairs of a volume and a VM in the state \<open>x\<close>.  \<open>attach_contract\<close> is
  what the handlers rely on of CloudTower: a query shows whether a volume is attached, and a
  request to add or remove a disk has taken effect when its task is reported as succeeded.  The
  abstract operations are the insertion and the removal of a pair.
\<close>

section \<open>Waiting for an effect\<close>

text \<open>The states that can be passed while only waiting for the task \<open>i\<close>.\<close>

inductive waits :: "'w os \<Rightarrow> 'w towerclient \<Rightarrow> string \<Rightarrow> 'w \<Rightarrow> 'w \<Rightarrow> bool" for os tc i x where
  waits_start: "waits os tc i x x"
| waits_query: "waits os tc i x y \<Longrightarrow> tc_GetTasks tc i y = (r, y') \<Longrightarrow> waits os tc i x y'"
| waits_sleep: "waits os tc i x y \<Longrightarrow> waits os tc i x (os_Sleep os d y)"
| waits_now: "waits os tc i x y \<Longrightarrow> os_Now os y = (t, y') \<Longrightarrow> waits os tc i x y'"

text \<open>\<open>P\<close> holds once the task is reported as succeeded; without a task it holds at once.\<close>

definition takes_effect :: "'w os \<Rightarrow> 'w towerclient \<Rightarrow> string option \<Rightarrow> ('w \<Rightarrow> bool) \<Rightarrow> 'w \<Rightarrow> bool" where
  "takes_effect os tc task P x =
     (case task of
        None \<Rightarrow> P x
      | Some i \<Rightarrow> \<forall>y u us y'. waits os tc i x y \<longrightarrow> tc_GetTasks tc i y = (Inr (Some u # us), y') \<longrightarrow>
          Status u = Some TaskStatusSUCCESSED \<longrightarrow> P y')"

lemma waitRound_waits:
  assumes "waitRound os c i start u = (Ret None, u')" and "waits os (TowerClient c) i x (ext u)"
  shows "waits os (TowerClient c) i x (ext u')"
proof -
  from assms(1) obtain r y t y' where "tc_GetTasks (TowerClient c) i (ext u) = (r, y)"
    "os_Now os (os_Sleep os (5 * Second) y) = (t, y')" "ext u' = y'"
    by (auto simp: waitRound_def GetTasks_def ret_iffs checkTaskFinished_def
        split: if_splits option.splits TaskStatus.splits prod.splits)
  with assms(2) show ?thesis by (metis waits_query waits_sleep waits_now)
qed

lemma waitTask_effect:
  assumes "waitTask os c task w = (Ret (), w')" and "takes_effect os (TowerClient c) task P (ext w)"
  shows "P (ext w')"
proof (cases task)
  case None
  with assms show ?thesis by (simp add: waitTask_def returnE_def takes_effect_def)
next
  case (Some i)
  with assms(1) obtain start w0 where start: "NowE os w = (Ret start, w0)"
    and loop: "forE (waitRound os c i start) w0 = (Ret (), w')" by (auto simp: waitTask_def ret_iffs)
  from loop obtain k w1 where rounds: "run_rounds k (waitRound os c i start) w0 = Some w1"
    "waitRound os c i start w1 = (Ret (Some ()), w')" by (rule forE_Ret)
  have "waits os (TowerClient c) i (ext w) (ext w1)"
    by (rule run_rounds_induct [OF rounds(1), where I = "\<lambda>_ u. waits os (TowerClient c) i (ext w) (ext u)"])
       (use start in \<open>auto simp: NowE_Ret intro: waits_now [OF waits_start] waitRound_waits\<close>)
  moreover from rounds(2) obtain u us where "tc_GetTasks (TowerClient c) i (ext w1) = (Inr (Some u # us), ext w')"
    "Status u = Some TaskStatusSUCCESSED" by (rule waitRound_done)
  ultimately show ?thesis using assms(2) Some by (auto simp: takes_effect_def)
qed

section \<open>What the platform promises\<close>

definition attach_contract :: "'w os \<Rightarrow> 'w towerclient \<Rightarrow> ('w \<Rightarrow> (string \<times> string) set) \<Rightarrow> bool" where
  "attach_contract os tc att \<longleftrightarrow>
     (\<forall>q x. att (snd (tc_GetVMVolumes tc q x)) = att x) \<and>
     (\<forall>v x vol vols x'. tc_GetVMVolumes tc (VolumeWhereID v) x = (Inr (Some vol # vols), x') \<longrightarrow>
        ((VMDisks vol \<noteq> [] \<or> Mounting vol = Some True) \<longleftrightarrow> (\<exists>n. (v, n) \<in> att x))) \<and>
     (\<forall>n p x t ts x'. tc_AddVMDisk tc n p x = (Inr (Some t # ts), x') \<longrightarrow>
        takes_effect os tc (TaskID t) (\<lambda>y. (md_VMVolumeID p, n) \<in> att y) x') \<and>
     (\<forall>n v x x'. tc_GetVMDisks tc n v x = (Inr [], x') \<longrightarrow> (v, n) \<notin> att x') \<and>
     (\<forall>n v x d ds x' i t ts x2. tc_GetVMDisks tc n v x = (Inr (Some d # ds), x') \<longrightarrow> disk_ID d = Some i \<longrightarrow>
        tc_RemoveVMDisk tc n [i] x' = (Inr (Some t # ts), x2) \<longrightarrow>
        takes_effect os tc (TaskID t) (\<lambda>y. (v, n) \<notin> att y) x2)"

text \<open>The calls on the way to the platform do not attach or detach anything.\<close>

definition path_contract :: "'w os \<Rightarrow> 'w configmaps \<Rightarrow> ('w \<Rightarrow> (string \<times> string) set) \<Rightarrow> bool" where
  "path_contract os cm att \<longleftrightarrow>
     (\<forall>n x. att (snd (cm_Get cm n x)) = att x) \<and> (\<forall>a x. att (snd (os_Dial os a x)) = att x) \<and>
     (\<forall>a x. att (snd (os_Liveness os a x)) = att x)"

lemma attach_kept:
  assumes "attach_contract os tc att" and "tc_GetVMVolumes tc q x = (r, x')"
  shows "att x' = att x"
  using assms unfolding attach_contract_def by (metis snd_conv)

lemma attach_query:
  assumes "attach_contract os tc att" and "tc_GetVMVolumes tc (VolumeWhereID v) x = (Inr (Some vol # vols), x')"
  shows "VMDisks vol \<noteq> [] \<or> Mounting vol = Some True \<longleftrightarrow> (\<exists>n. (v, n) \<in> att x)"
  using assms unfolding attach_contract_def by (elim conjE) blast

lemma attach_add:
  assumes "attach_contract os tc att" and "tc_AddVMDisk tc n p x = (Inr (Some t # ts), x')"
  shows "takes_effect os tc (TaskID t) (\<lambda>y. (md_VMVolumeID p, n) \<in> att y) x'"
  using assms unfolding attach_contract_def by (elim conjE) blast

lemma attach_none:
  assumes "attach_contract os tc att" and "tc_GetVMDisks tc n v x = (Inr [], x')"
  shows "(v, n) \<notin> att x'"
  using assms unfolding attach_contract_def by (elim conjE) blast

lemma attach_remove:
  assumes "attach_contract os tc att" and "tc_GetVMDisks tc n v x = (Inr (Some d # ds), x')" and "disk_ID d = Some i"
    and "tc_RemoveVMDisk tc n [i] x' = (Inr (Some t # ts), x2)"
  shows "takes_effect os tc (TaskID t) (\<lambda>y. (v, n) \<notin> att y) x2"
proof -
  from assms(1) have "\<forall>n v x d ds x' i t ts x2. tc_GetVMDisks tc n v x = (Inr (Some d # ds), x') \<longrightarrow> disk_ID d = Some i \<longrightarrow>
      tc_RemoveVMDisk tc n [i] x' = (Inr (Some t # ts), x2) \<longrightarrow>
      takes_effect os tc (TaskID t) (\<lambda>y. (v, n) \<notin> att y) x2"
    unfolding attach_contract_def by (elim conjE)
  from this [rule_format, OF assms(2-4)] show ?thesis .
qed

section \<open>Calls that change nothing\<close>

text \<open>\<open>quiet I m\<close>: from a state with \<open>I\<close>, the call keeps \<open>I\<close> and changes nothing on the platform, on every outcome.\<close>

definition quiet :: "('w \<Rightarrow> bool) \<Rightarrow> ('w, 'a) io \<Rightarrow> bool" where
  "quiet I m \<longleftrightarrow> (\<forall>w r w'. I (ext w) \<longrightarrow> m w = (r, w') \<longrightarrow>
     I (ext w') \<and> (\<exists>evs. trace w' = trace w @ evs \<and> filter mutates evs = []))"

lemma quietI:
  assumes "\<And>w r w'. I (ext w) \<Longrightarrow> m w = (r, w') \<Longrightarrow>
    I (ext w') \<and> (\<exists>evs. trace w' = trace w @ evs \<and> filter mutates evs = [])"
  shows "quiet I m"
  using assms by (simp add: quiet_def)

lemma quietE:
  assumes "quiet I m" and "m w = (r, w')" and "I (ext w)"
  obtains evs where "I (ext w')" "trace w' = trace w @ evs" "filter mutates evs = []"
  using assms unfolding quiet_def by blast

lemma quiet_returnE: "quiet I (returnE a)"
  by (auto simp: quiet_def returnE_def)

lemma quiet_failE: "quiet I (failE e)"
  by (auto simp: quiet_def failE_def)

lemma quiet_liftR: "quiet I (liftR r)"
  by (auto simp: quiet_def liftR_def split: res.splits)

lemma quiet_if: "quiet I m \<Longrightarrow> quiet I m' \<Longrightarrow> quiet I (if b then m else m')"
  by simp

lemma quiet_emitE: "\<not> mutates e \<Longrightarrow> quiet I (emitE e)"
  by (auto simp: quiet_def emitE_def)

lemma quiet_callE:
  assumes "\<not> mutates e" and "\<And>x. I x \<Longrightarrow> I (snd (f x))"
  shows "quiet I (callE e f)"
proof (rule quietI)
  fix w r w'
  assume "I (ext w)" "callE e f w = (r, w')"
  moreover from this assms(2) have "I (snd (f (ext w)))" by blast
  ultimately show "I (ext w') \<and> (\<exists>evs. trace w' = trace w @ evs \<and> filter mutates evs = [])"
    using assms(1) by (auto simp: callE_def split: prod.splits sum.splits)
qed

lemma quiet_wrapE:
  assumes "quiet I m"
  shows "quiet I (wrapE g m)"
proof (rule quietI)
  fix w r w'
  assume start: "I (ext w)" and run: "wrapE g m w = (r, w')"
  obtain r1 w1 where m: "m w = (r1, w1)" by fastforce
  with run have "w' = w1" by (cases r1) (auto simp: wrapE_def)
  with quietE [OF assms m start] show "I (ext w') \<and> (\<exists>evs. trace w' = trace w @ evs \<and> filter mutates evs = [])" by blast
qed

lemma quiet_bindE:
  assumes "quiet I m" and "\<And>a. quiet I (f a)"
  shows "quiet I (bindE m f)"
proof (rule quietI)
  fix w r w'
  assume start: "I (ext w)" and run: "bindE m f w = (r, w')"
  obtain r1 w1 where m: "m w = (r1, w1)" by fastforce
  from quietE [OF assms(1) m start] obtain es where es: "I (ext w1)" "trace w1 = trace w @ es" "filter mutates es = []" .
  show "I (ext w') \<and> (\<exists>evs. trace w' = trace w @ evs \<and> filter mutates evs = [])"
  proof (cases "\<exists>a. r1 = Ret a")
    case True
    with m run obtain a where "f a w1 = (r, w')" by (auto simp: bindE_def)
    from quietE [OF assms(2) this es(1)] obtain fs where "I (ext w')" "trace w' = trace w1 @ fs" "filter mutates fs = []" .
    with es show ?thesis by (intro conjI exI [of _ "es @ fs"]) simp_all
  next
    case False
    with m run have "w' = w1" by (cases r1) (auto simp: bindE_def)
    with es show ?thesis by blast
  qed
qed

lemma quiet_deferE:
  assumes "quiet I m" and "\<not> mutates e"
  shows "quiet I (deferE (emitE e) m)"
proof (rule quietI)
  fix w r w'
  assume start: "I (ext w)" and run: "deferE (emitE e) m w = (r, w')"
  obtain r1 w1 where m: "m w = (r1, w1)" by fastforce
  from quietE [OF assms(1) m start] obtain es where es: "I (ext w1)" "trace w1 = trace w @ es" "filter mutates es = []" .
  from run m have "w' = w1 \<or> w' = w1\<lparr>trace := trace w1 @ [e]\<rparr>" by (auto simp: deferE_def emitE_def split: if_splits)
  then show "I (ext w') \<and> (\<exists>evs. trace w' = trace w @ evs \<and> filter mutates evs = [])"
  proof
    assume "w' = w1\<lparr>trace := trace w1 @ [e]\<rparr>"
    with es assms(2) show ?thesis by (intro conjI exI [of _ "es @ [e]"]) simp_all
  qed (use es in blast)
qed

lemmas quiet_rules = quiet_returnE quiet_failE quiet_liftR quiet_if quiet_emitE quiet_callE quiet_wrapE quiet_bindE quiet_deferE

definition attached :: "('w \<Rightarrow> (string \<times> string) set) \<Rightarrow> string \<Rightarrow> 'w \<Rightarrow> bool" where
  "attached att v x \<longleftrightarrow> (\<exists>n. (v, n) \<in> att x)"

lemma path_kept:
  assumes "path_contract os cm att"
  shows "attached att v x \<Longrightarrow> attached att v (snd (cm_Get cm n x))"
    and "attached att v x \<Longrightarrow> attached att v (snd (os_Dial os a x))"
    and "attached att v x \<Longrightarrow> attached att v (snd (os_Liveness os a x))"
  using assms by (simp_all add: path_contract_def attached_def)

lemma quiet_Get:
  assumes "path_contract os (nm_client m) att"
  shows "quiet (attached att v) (Get m k)"
  unfolding Get_def by (intro quiet_rules path_kept [OF assms]) (simp_all add: mutates_def)

lemma quiet_canPublishToNode:
  assumes "path_contract os cm att"
  shows "quiet (attached att v) (canPublishToNode os a)"
  unfolding canPublishToNode_def by (intro quiet_rules path_kept [OF assms]) (simp_all add: mutates_def)

text \<open>For a volume that is attached, \<open>publishVolumeToVm\<close> ends after its query, whatever the answer.\<close>

lemma quiet_publishVolumeToVm:
  assumes contract: "attach_contract os (TowerClient c) att"
  shows "quiet (attached att v) (publishVolumeToVm os c v n)"
proof (rule quietI)
  fix w r w'
  assume start: "attached att v (ext w)" and run: "publishVolumeToVm os c v n w = (r, w')"
  obtain a x where call: "tc_GetVMVolumes (TowerClient c) (VolumeWhereID v) (ext w) = (a, x)" by fastforce
  have "w' = w\<lparr>ext := x, trace := trace w @ [EvGetVMVolumes (VolumeWhereID v)]\<rparr>"
  proof (cases "\<exists>vol vols. a = Inr (Some vol # vols)")
    case True
    then obtain vol vols where a: "a = Inr (Some vol # vols)" by blast
    with attach_query [OF contract call [unfolded a]] start have "VMDisks vol \<noteq> [] \<or> Mounting vol = Some True"
      by (simp add: attached_def)
    with run call a show ?thesis
      by (cases "VMDisks vol = []") (auto simp: publishVolumeToVm_def GetVMVolumes_def go_defs)
  next
    case False
    with run call show ?thesis
      by (auto simp: publishVolumeToVm_def GetVMVolumes_def go_defs index0E_def neq_Nil_conv
          split: sum.splits list.splits option.splits if_splits)
  qed
  moreover have "att x = att (ext w)" by (rule attach_kept [OF contract call])
  ultimately show "attached att v (ext w') \<and> (\<exists>evs. trace w' = trace w @ evs \<and> filter mutates evs = [])"
    using start by (simp add: attached_def mutates_def)
qed

lemma quiet_ControllerPublishVolume:
  assumes "attach_contract os (TowerClient c) att" and "path_contract os (nm_client (cfg_NodeMap c)) att"
  shows "quiet (attached att (cpub_VolumeId req)) (ControllerPublishVolume os c req)"
  unfolding ControllerPublishVolume_def Let_def
  by (intro quiet_if quiet_failE quiet_bindE [OF quiet_Get [OF assms(2)]]
      quiet_bindE [OF quiet_canPublishToNode [OF assms(2)]] quiet_bindE [OF quiet_emitE] quiet_deferE
      quiet_publishVolumeToVm [OF assms(1)]) (simp_all add: mutates_def)

lemma Get_path:
  assumes "path_contract os (nm_client m) att" and "Get m k w = (Ret e, w')"
  shows "att (ext w') = att (ext w)"
proof -
  from assms(2) obtain cm where "cm_Get (nm_client m) (nm_name m) (ext w) = (Inr cm, ext w')"
    by (auto simp: Get_def ret_iffs)
  with assms(1) show ?thesis unfolding path_contract_def by (metis snd_conv)
qed

text \<open>A successful \<open>ControllerUnpublishVolume\<close>, taken apart.\<close>

lemma ControllerUnpublishVolume_Ret:
  assumes "ControllerUnpublishVolume os c req w = (Ret (), w')"
  obtains (absent) "tc_GetVMDisks (TowerClient c) (cunpub_NodeId req) (cunpub_VolumeId req) (ext w) = (Inr [], ext w')"
  | (removed) d ds x i t ts w1 w2 where
      "tc_GetVMDisks (TowerClient c) (cunpub_NodeId req) (cunpub_VolumeId req) (ext w) = (Inr (Some d # ds), x)"
      "disk_ID d = Some i" "tc_RemoveVMDisk (TowerClient c) (cunpub_NodeId req) [i] x = (Inr (Some t # ts), ext w1)"
      "waitTask os c (TaskID t) w1 = (Ret (), w2)" "ext w' = ext w2"
proof -
  let ?n = "cunpub_NodeId req" and ?v = "cunpub_VolumeId req"
  let ?w = "w\<lparr>trace := trace w @ [EvLockKey ?n]\<rparr>"
  from assms obtain w2 where w': "w' = w2\<lparr>trace := trace w2 @ [EvUnlockKey ?n]\<rparr>"
    and run: "unpublishVolumeFromVm os c ?v ?n ?w = (Ret (), w2)"
    by (auto simp: ControllerUnpublishVolume_def Let_def ret_iffs emitE_def split: if_splits)
  from run obtain disks x where get: "tc_GetVMDisks (TowerClient c) ?n ?v (ext w) = (Inr disks, x)"
    and rest: "disks = [] \<and> ext w2 = x \<or> (\<exists>d i updated t w1. disks \<noteq> [] \<and> hd disks = Some d \<and> disk_ID d = Some i \<and>
      tc_RemoveVMDisk (TowerClient c) ?n [i] x = (Inr updated, ext w1) \<and> updated \<noteq> [] \<and> hd updated = Some t \<and>
      waitTask os c (TaskID t) w1 = (Ret (), w2))"
    by (fastforce simp: unpublishVolumeFromVm_def api_defs ret_iffs split: if_splits)
  from rest show thesis
  proof (elim disjE exE conjE)
    fix d i updated t w1
    assume d: "disks \<noteq> []" "hd disks = Some d" "disk_ID d = Some i"
      and remove: "tc_RemoveVMDisk (TowerClient c) ?n [i] x = (Inr updated, ext w1)" "updated \<noteq> []" "hd updated = Some t"
      and wait: "waitTask os c (TaskID t) w1 = (Ret (), w2)"
    from d get remove obtain ds ts where "disks = Some d # ds" "updated = Some t # ts" by (cases disks; cases updated) auto
    with get d remove wait w' show thesis by (intro removed) auto
  qed (use get w' absent in auto)
qed

lemma publish_effect:
  assumes "attach_contract os (TowerClient c) att" and "path_contract os (nm_client (cfg_NodeMap c)) att"
    and "ControllerPublishVolume os c req w = (Ret (), w')"
  shows "att (ext w') = att (ext w) \<and> attached att (cpub_VolumeId req) (ext w) \<or>
    (cpub_VolumeId req, cpub_NodeId req) \<in> att (ext w')"
proof -
  let ?n = "cpub_NodeId req" and ?v = "cpub_VolumeId req"
  from assms(3) obtain entry w1 x y w2 where pre: "Get (cfg_NodeMap c) ?n w = (Ret entry, w1)"
    "os_Dial os (nodeAddress entry) (ext w1) = (Inr (), x)" "os_Liveness os (nodeAddress entry) x = (Inr True, y)"
    and pub: "publishVolumeToVm os c ?v ?n (w1\<lparr>ext := y, trace := trace w1 @ [EvDial (nodeAddress entry),
        EvRpcCall (nodeAddress entry), EvRpcClose (nodeAddress entry), EvLockKey ?n]\<rparr>) = (Ret (), w2)"
    and w': "w' = w2\<lparr>trace := trace w2 @ [EvUnlockKey ?n]\<rparr>"
    by (rule ControllerPublishVolume_Ret)
  from Get_path [OF assms(2) pre(1)] pre(2,3) assms(2) have y: "att y = att (ext w)"
    unfolding path_contract_def by (metis snd_conv)
  from pub show ?thesis
  proof (cases rule: publishVolumeToVm_Ret)
    case (skipped vol vols z)
    then have call: "tc_GetVMVolumes (TowerClient c) (VolumeWhereID ?v) y = (Inr (Some vol # vols), z)" by simp
    with attach_query [OF assms(1) call] attach_kept [OF assms(1) call] skipped y w' show ?thesis
      by (simp add: attached_def)
  next
    case (attached vol vols z vm vms z1 z2 t ts evs)
    from attached(8) obtain w3 where "ext w3 = z2" "waitTask os c (TaskID t) w3 = (Ret (), w2)" by blast
    with waitTask_effect [OF this(2), of "\<lambda>y. (?v, ?n) \<in> att y"] attach_add [OF assms(1) attached(5)] w'
    show ?thesis by simp
  qed
qed

section \<open>A platform with a table of disks\<close>

text \<open>
  An instance for the examples: the table of mounts of the example state serves as the table
  of disks, with the volume as the device and the VM as the path; tasks succeed at once.
\<close>

definition disk_table :: "demo \<Rightarrow> (string \<times> string) set" where
  "disk_table x = set (map (\<lambda>m. (Device m, Path m)) (d_mounts x))"

definition disk_tower :: "demo towerclient" where
  "disk_tower = demo_tower\<lparr>
     tc_GetVMVolumes := (\<lambda>q x. (Inr (case q of VolumeWhereName _ \<Rightarrow> []
        | VolumeWhereID v \<Rightarrow> [Some (demo_volume\<lparr>Mounting := Some (list_ex (\<lambda>m. Device m = v) (d_mounts x))\<rparr>)]), x)),
     tc_AddVMDisk := (\<lambda>n p x. (Inr demo_task, x\<lparr>d_mounts :=
        \<lparr>Device = md_VMVolumeID p, Path = n, Type = [], Opts = []\<rparr> # d_mounts x\<rparr>)),
     tc_RemoveVMDisk := (\<lambda>n ds x. (Inr demo_task, x\<lparr>d_mounts :=
        filter (\<lambda>m. \<not> (Path m = n \<and> Device m \<in> set ds)) (d_mounts x)\<rparr>)),
     tc_GetVMDisks := (\<lambda>n v x. (Inr (if list_ex (\<lambda>m. Device m = v \<and> Path m = n) (d_mounts x)
        then [Some \<lparr>disk_ID = Some v, Serial = Some v\<rparr>] else []), x))\<rparr>"

definition disk_config :: "demo DriverConfig" where
  "disk_config = demo_config\<lparr>TowerClient := disk_tower\<rparr>"

lemma disk_GetTasks: "tc_GetTasks disk_tower i x = (Inr [Some \<lparr>Status = Some TaskStatusSUCCESSED\<rparr>], x)"
  by (simp add: disk_tower_def)

lemma disk_waits:
  assumes "waits demo_os disk_tower i x y"
  shows "d_mounts y = d_mounts x"
  using assms by induction (auto simp: disk_GetTasks)

lemma disk_takes_effect:
  assumes "\<And>y. d_mounts y = d_mounts x \<Longrightarrow> P y"
  shows "takes_effect demo_os disk_tower (Some i) P x"
  unfolding takes_effect_def option.case
proof (intro allI impI)
  fix y u us y'
  assume "waits demo_os disk_tower i x y" "tc_GetTasks disk_tower i y = (Inr (Some u # us), y')"
  then show "P y'" using disk_waits assms by (auto simp: disk_GetTasks)
qed

lemma disk_attach_contract: "attach_contract demo_os disk_tower disk_table"
  unfolding attach_contract_def
proof (intro conjI allI impI)
  fix n p x t ts x'
  assume "tc_AddVMDisk disk_tower n p x = (Inr (Some t # ts), x')"
  then have "t = \<lparr>TaskID = Some ''t''\<rparr>"
    "d_mounts x' = \<lparr>Device = md_VMVolumeID p, Path = n, Type = [], Opts = []\<rparr> # d_mounts x"
    by (auto simp: disk_tower_def demo_task_def)
  then show "takes_effect demo_os disk_tower (TaskID t) (\<lambda>y. (md_VMVolumeID p, n) \<in> disk_table y) x'"
    by (auto simp: disk_table_def intro!: disk_takes_effect)
next
  fix n v x d ds x' i t ts x2
  assume "tc_GetVMDisks disk_tower n v x = (Inr (Some d # ds), x')" "disk_ID d = Some i"
    "tc_RemoveVMDisk disk_tower n [i] x' = (Inr (Some t # ts), x2)"
  then have "i = v" "t = \<lparr>TaskID = Some ''t''\<rparr>"
    "d_mounts x2 = filter (\<lambda>m. \<not> (Path m = n \<and> Device m = v)) (d_mounts x')"
    by (auto simp: disk_tower_def demo_task_def split: if_splits)
  then show "takes_effect demo_os disk_tower (TaskID t) (\<lambda>y. (v, n) \<notin> disk_table y) x2"
    by (auto simp: disk_table_def intro!: disk_takes_effect)
qed (auto simp: disk_tower_def disk_table_def demo_volume_def list_ex_iff split: VMVolumeWhereInput.splits if_splits)

lemma disk_path_contract: "path_contract demo_os (nm_client (cfg_NodeMap disk_config)) disk_table"
  by (simp add: path_contract_def disk_config_def demo_config_def NewNodeMap_def)

lemma demo_registered_disks: "d_mounts (ext demo_registered) = []"
  by (simp add: demo_registered_def Put_def NewNodeMap_def putEntry_def go_defs demo_world_def demo_state_def Let_def)

definition disk_published :: "demo world" where
  "disk_published = snd (ControllerPublishVolume demo_os disk_config demo_publish demo_registered)"

lemma disk_publish_run: "ControllerPublishVolume demo_os disk_config demo_publish demo_registered = (Ret (), disk_published)"
  unfolding disk_published_def
  by (simp add: ControllerPublishVolume_def demo_publish_def disk_config_def Let_def demo_registered_Get disk_tower_def
      canPublishToNode_def publishVolumeToVm_def api_defs go_defs demo_volume_def demo_task_def demo_wait
      demo_registered_disks)

definition disk_unpublish :: ControllerUnpublishVolumeRequest where
  "disk_unpublish = \<lparr>cunpub_VolumeId = ''vol-1'', cunpub_NodeId = ''node-1''\<rparr>"

lemma disk_unpublish_run:
  "ControllerUnpublishVolume demo_os disk_config disk_unpublish disk_published =
     (Ret (), snd (ControllerUnpublishVolume demo_os disk_config disk_unpublish disk_published))"
proof -
  have "fst (ControllerUnpublishVolume demo_os disk_config disk_unpublish w) = Ret ()" for w
    by (simp add: ControllerUnpublishVolume_def unpublishVolumeFromVm_def disk_unpublish_def disk_config_def disk_tower_def
        api_defs go_defs Let_def demo_task_def demo_wait)
  then show ?thesis by (metis prod.collapse)
qed

section \<open>Properties: publishing against the platform\<close>

text \<open>
  C10: A publish that reports success leaves the volume attached to a VM, and when it was
  attached to none before, to the VM of the requested node: success is reported only after the
  effect of the request, not when the request was accepted.
\<close>

theorem publish_attaches:
  assumes "attach_contract os (TowerClient c) att" and "path_contract os (nm_client (cfg_NodeMap c)) att"
    and "ControllerPublishVolume os c req w = (Ret (), w')"
  shows "(\<exists>n. (cpub_VolumeId req, n) \<in> att (ext w')) \<and>
    ((\<forall>n. (cpub_VolumeId req, n) \<notin> att (ext w)) \<longrightarrow> (cpub_VolumeId req, cpub_NodeId req) \<in> att (ext w'))"
  using publish_effect [OF assms] unfolding attached_def by auto

theorem publish_attaches_witness:
  "(''vol-1'', ''node-1'') \<in> disk_table (ext disk_published)"
  using publish_attaches [OF _ disk_path_contract disk_publish_run] disk_attach_contract demo_registered_disks
  by (simp add: disk_config_def demo_publish_def disk_table_def)

text \<open>
  C11: An unpublish that reports success leaves the volume detached from the VM of the node.
\<close>

theorem unpublish_detaches:
  assumes "attach_contract os (TowerClient c) att" and "ControllerUnpublishVolume os c req w = (Ret (), w')"
  shows "(cunpub_VolumeId req, cunpub_NodeId req) \<notin> att (ext w')"
  using assms(2)
proof (cases rule: ControllerUnpublishVolume_Ret)
  case absent
  with assms(1) show ?thesis by (rule attach_none)
next
  case (removed d ds x i t ts w1 w2)
  from attach_remove [OF assms(1) removed(1-3)] waitTask_effect [OF removed(4), of "\<lambda>y. (cunpub_VolumeId req, cunpub_NodeId req) \<notin> att y"]
    removed(5) show ?thesis by simp
qed

theorem unpublish_detaches_witness:
  "(''vol-1'', ''node-1'') \<notin> disk_table (ext (snd (ControllerUnpublishVolume demo_os disk_config disk_unpublish disk_published)))"
proof -
  have "attach_contract demo_os (TowerClient disk_config) disk_table" using disk_attach_contract by (simp add: disk_config_def)
  from unpublish_detaches [OF this disk_unpublish_run] show ?thesis by (simp add: disk_unpublish_run disk_unpublish_def)
qed

text \<open>
  Publishing is idempotent: repeated for a volume that a publish to any node has left attached,
  it asks the platform for no change, whatever the outcome of the second call.
\<close>

lemma publish_idempotent:
  assumes "attach_contract os (TowerClient c) att" and "path_contract os (nm_client (cfg_NodeMap c)) att"
    and "ControllerPublishVolume os c req w = (Ret (), w')"
    and "cpub_VolumeId again = cpub_VolumeId req" and "ControllerPublishVolume os c again w' = (r, w'')"
  shows "\<exists>evs. trace w'' = trace w' @ evs \<and> filter mutates evs = []"
proof -
  let ?v = "cpub_VolumeId req"
  have "attached att ?v (ext w')"
    using publish_effect [OF assms(1-3)] by (auto simp: attached_def)
  with quietE [OF quiet_ControllerPublishVolume [OF assms(1,2), of again] assms(5)] assms(4) show ?thesis by metis
qed

lemma publish_idempotent_witness:
  "\<exists>evs. trace (snd (ControllerPublishVolume demo_os disk_config demo_publish disk_published)) =
     trace disk_published @ evs \<and> filter mutates evs = []"
proof -
  have "attach_contract demo_os (TowerClient disk_config) disk_table" using disk_attach_contract by (simp add: disk_config_def)
  from publish_idempotent [OF this disk_path_contract disk_publish_run refl prod.collapse [symmetric]] show ?thesis .
qed

end
