(* ===== verification/Storage_Spec.thy ===== *)
theory Storage_Spec
  imports Api_Types
begin

text \<open>
  What a client of the controller service may rely on, whatever the sequence of its calls: the
  abstract state is the set of the volumes with their names and the set of the attachments, and
  \<open>spec_step\<close> says what an answer of each call means.  The invariants of the specification are
  proved here; \<open>Storage_Refinement\<close> shows that the handlers implement it.
\<close>

section \<open>The specification\<close>

record storage =
  volumes :: "(string \<times> string) set"
  attachments :: "(string \<times> string) set"

definition has_volume :: "storage \<Rightarrow> string \<Rightarrow> bool" where
  "has_volume s v \<longleftrightarrow> (\<exists>n. (v, n) \<in> volumes s)"

definition in_use :: "storage \<Rightarrow> string \<Rightarrow> bool" where
  "in_use s v \<longleftrightarrow> (\<exists>n. (v, n) \<in> attachments s)"

definition add_volume :: "string \<Rightarrow> string \<Rightarrow> storage \<Rightarrow> storage" where
  "add_volume v n s = s\<lparr>volumes := insert (v, n) (volumes s)\<rparr>"

definition drop_volume :: "string \<Rightarrow> storage \<Rightarrow> storage" where
  "drop_volume v s = s\<lparr>volumes := {p \<in> volumes s. fst p \<noteq> v}\<rparr>"

definition attach :: "string \<Rightarrow> string \<Rightarrow> storage \<Rightarrow> storage" where
  "attach v n s = s\<lparr>attachments := insert (v, n) (attachments s)\<rparr>"

definition detach :: "string \<Rightarrow> string \<Rightarrow> storage \<Rightarrow> storage" where
  "detach v n s = s\<lparr>attachments := attachments s - {(v, n)}\<rparr>"

lemmas storage_ops = add_volume_def drop_volume_def attach_def detach_def

datatype call =
    Create CreateVolumeRequest
  | Delete string
  | Publish ControllerPublishVolumeRequest
  | Unpublish ControllerUnpublishVolumeRequest

datatype answer = Created string | Ok

text \<open>\<open>lower\<close> is the normalisation of volume names.\<close>

fun spec_step :: "(string \<Rightarrow> string) \<Rightarrow> storage \<Rightarrow> call \<Rightarrow> answer \<Rightarrow> storage \<Rightarrow> bool" where
  "spec_step lower s (Create req) (Created v) s' \<longleftrightarrow>
     (if \<exists>u. (u, lower (create_Name req)) \<in> volumes s
      then (v, lower (create_Name req)) \<in> volumes s \<and> s' = s
      else \<not> has_volume s v \<and> s' = add_volume v (lower (create_Name req)) s)"
| "spec_step lower s (Delete v) Ok s' \<longleftrightarrow> has_volume s v \<and> \<not> in_use s v \<and> s' = drop_volume v s"
| "spec_step lower s (Publish req) Ok s' \<longleftrightarrow> has_volume s (cpub_VolumeId req) \<and>
     s' = (if in_use s (cpub_VolumeId req) then s else attach (cpub_VolumeId req) (cpub_NodeId req) s)"
| "spec_step lower s (Unpublish req) Ok s' \<longleftrightarrow> s' = detach (cunpub_VolumeId req) (cunpub_NodeId req) s"
| "spec_step lower s _ _ s' \<longleftrightarrow> False"

fun spec_run :: "(string \<Rightarrow> string) \<Rightarrow> storage \<Rightarrow> (call \<times> answer option) list \<Rightarrow> storage \<Rightarrow> bool" where
  "spec_run lower s [] s' \<longleftrightarrow> s' = s"
| "spec_run lower s ((_, None) # h) s' \<longleftrightarrow> spec_run lower s h s'"
| "spec_run lower s ((k, Some a) # h) s' \<longleftrightarrow> (\<exists>s1. spec_step lower s k a s1 \<and> spec_run lower s1 h s')"

section \<open>Invariants of the specification\<close>

text \<open>
  Names and identifiers determine each other, and only existing volumes are attached.
\<close>

definition consistent :: "storage \<Rightarrow> bool" where
  "consistent s \<longleftrightarrow>
     (\<forall>v v' n. (v, n) \<in> volumes s \<longrightarrow> (v', n) \<in> volumes s \<longrightarrow> v = v') \<and>
     (\<forall>v n n'. (v, n) \<in> volumes s \<longrightarrow> (v, n') \<in> volumes s \<longrightarrow> n = n') \<and>
     (\<forall>v m. (v, m) \<in> attachments s \<longrightarrow> has_volume s v)"

lemma spec_step_cases:
  assumes "spec_step lower s k a s'"
  obtains (found) req v where "k = Create req" "a = Created v" "(v, lower (create_Name req)) \<in> volumes s" "s' = s"
  | (created) req v where "k = Create req" "a = Created v" "\<forall>u. (u, lower (create_Name req)) \<notin> volumes s"
      "\<not> has_volume s v" "s' = add_volume v (lower (create_Name req)) s"
  | (deleted) v where "k = Delete v" "a = Ok" "has_volume s v" "\<not> in_use s v" "s' = drop_volume v s"
  | (skipped) req where "k = Publish req" "a = Ok" "has_volume s (cpub_VolumeId req)" "s' = s"
  | (attached) req where "k = Publish req" "a = Ok" "has_volume s (cpub_VolumeId req)"
      "\<not> in_use s (cpub_VolumeId req)" "s' = attach (cpub_VolumeId req) (cpub_NodeId req) s"
  | (detached) req where "k = Unpublish req" "a = Ok" "s' = detach (cunpub_VolumeId req) (cunpub_NodeId req) s"
  using assms by (cases "(lower, s, k, a, s')" rule: spec_step.cases) (auto split: if_splits)

lemma spec_step_consistent:
  assumes "spec_step lower s k a s'" and "consistent s"
  shows "consistent s'"
  using assms(1)
proof (cases rule: spec_step_cases)
  case (created req v)
  with assms(2) show ?thesis unfolding consistent_def has_volume_def storage_ops by simp blast
next
  case (deleted v)
  with assms(2) show ?thesis unfolding consistent_def has_volume_def in_use_def storage_ops by simp blast
next
  case (attached req)
  with assms(2) show ?thesis unfolding consistent_def has_volume_def in_use_def storage_ops by simp
next
  case (detached req)
  with assms(2) show ?thesis unfolding consistent_def has_volume_def storage_ops by simp blast
qed (use assms(2) in simp_all)

lemma spec_run_invariant:
  assumes "spec_run lower s h s'" and "I s"
    and "\<And>s k a s'. (k, Some a) \<in> set h \<Longrightarrow> spec_step lower s k a s' \<Longrightarrow> I s \<Longrightarrow> I s'"
  shows "I s'"
  using assms
proof (induction lower s h s' rule: spec_run.induct)
  case (3 lower s k a h s')
  then obtain s1 where s1: "spec_step lower s k a s1" "spec_run lower s1 h s'" by auto
  from "3.prems"(3) [of k a s s1] s1(1) "3.prems"(2) have "I s1" by simp
  then show ?case using "3.IH" [OF s1(2)] "3.prems"(3) by fastforce
qed auto

lemma spec_run_consistent: "spec_run lower s h s' \<Longrightarrow> consistent s \<Longrightarrow> consistent s'"
  by (rule spec_run_invariant [where I = consistent]) (auto intro: spec_step_consistent)

text \<open>A volume keeps its name as long as it is not deleted.\<close>

lemma spec_step_keeps_volume:
  assumes "spec_step lower s k a s'" and "(v, n) \<in> volumes s" and "k \<noteq> Delete v"
  shows "(v, n) \<in> volumes s'"
  using assms by (elim spec_step_cases) (auto simp: storage_ops)

lemma spec_run_keeps_volume:
  assumes "spec_run lower s h s'" and "(v, n) \<in> volumes s" and "(Delete v, Some Ok) \<notin> set h"
  shows "(v, n) \<in> volumes s'"
proof (rule spec_run_invariant [OF assms(1), where I = "\<lambda>s. (v, n) \<in> volumes s"])
  fix s k a s'
  assume *: "(k, Some a) \<in> set h" "spec_step lower s k a s'" "(v, n) \<in> volumes s"
  then have "k \<noteq> Delete v" using assms(3) by (auto elim: spec_step_cases)
  with * show "(v, n) \<in> volumes s'" by (auto intro: spec_step_keeps_volume)
qed (rule assms(2))

lemma spec_run_append:
  "spec_run lower s (h @ h') s' \<longleftrightarrow> (\<exists>s1. spec_run lower s h s1 \<and> spec_run lower s1 h' s')"
proof (induction h arbitrary: s)
  case (Cons ka h)
  obtain k o' where "ka = (k, o')" by fastforce
  with Cons show ?case by (cases o') auto
qed simp

end
