(* ===== verification/Storage_Refinement.thy ===== *)
theory Storage_Refinement
  imports Attachment Storage_Spec
begin

text \<open>
  The controller service as a whole, against \<open>Storage_Spec\<close>.  A history is a run of the handlers
  one after the other, in which each call is answered or fails before it has asked the platform
  for a change; a call that failed halfway ends it, since its effect is not known then.
  \<open>storage_contract\<close> is what is relied on of CloudTower: queries change nothing and tell the
  truth, an accepted request has its effect, and no other, when its task is reported as
  succeeded, and there is no other client.
\<close>

section \<open>What CloudTower promises\<close>

definition keeps :: "('w \<Rightarrow> 'v) \<Rightarrow> ('w \<Rightarrow> 'a \<times> 'w) \<Rightarrow> bool" where
  "keeps view f \<longleftrightarrow> (\<forall>x. view (snd (f x)) = view x)"

lemma keepsD: "keeps view f \<Longrightarrow> f x = (r, x') \<Longrightarrow> view x' = view x"
  unfolding keeps_def by (metis snd_conv)

text \<open>Queries, and the calls that are not for CloudTower, change nothing there.\<close>

definition queries_keep :: "'w os \<Rightarrow> 'w towerclient \<Rightarrow> 'w configmaps \<Rightarrow> ('w \<Rightarrow> storage) \<Rightarrow> bool" where
  "queries_keep os tc cm view \<longleftrightarrow>
     (\<forall>q. keeps view (tc_GetVMVolumes tc q)) \<and> (\<forall>l. keeps view (tc_GetClusters tc l)) \<and>
     (\<forall>n. keeps view (tc_GetVms tc n)) \<and> (\<forall>n v. keeps view (tc_GetVMDisks tc n v)) \<and>
     (\<forall>k v. keeps view (tc_GetLabels tc k v)) \<and> (\<forall>n. keeps view (cm_Get cm n)) \<and>
     (\<forall>a. keeps view (os_Dial os a)) \<and> (\<forall>a. keeps view (os_Liveness os a))"

text \<open>The answers of queries tell the truth.\<close>

definition names_answered :: "'w towerclient \<Rightarrow> ('w \<Rightarrow> storage) \<Rightarrow> bool" where
  "names_answered tc view \<longleftrightarrow>
     (\<forall>n x r x'. tc_GetVMVolumes tc (VolumeWhereName n) x = (Inr r, x') \<longrightarrow>
        (case r of [] \<Rightarrow> \<forall>v. (v, n) \<notin> volumes (view x)
         | p # _ \<Rightarrow> \<forall>vol v. p = Some vol \<longrightarrow> ID vol = Some v \<longrightarrow> (v, n) \<in> volumes (view x)))"

definition ids_answered :: "'w towerclient \<Rightarrow> ('w \<Rightarrow> storage) \<Rightarrow> bool" where
  "ids_answered tc view \<longleftrightarrow>
     (\<forall>v x vol vols x'. tc_GetVMVolumes tc (VolumeWhereID v) x = (Inr (Some vol # vols), x') \<longrightarrow>
        has_volume (view x) v \<and> (Mounting vol = Some True \<longleftrightarrow> in_use (view x) v) \<and>
        (VMDisks vol \<noteq> [] \<longleftrightarrow> in_use (view x) v))"

definition disks_answered :: "'w towerclient \<Rightarrow> ('w \<Rightarrow> storage) \<Rightarrow> bool" where
  "disks_answered tc view \<longleftrightarrow>
     (\<forall>n v x x'. tc_GetVMDisks tc n v x = (Inr [], x') \<longrightarrow> (v, n) \<notin> attachments (view x))"

text \<open>An accepted request has its effect, and no other, when its task is reported as succeeded.\<close>

definition becomes :: "'w os \<Rightarrow> 'w towerclient \<Rightarrow> ('w \<Rightarrow> storage) \<Rightarrow> string option \<Rightarrow> 'w \<Rightarrow> storage \<Rightarrow> bool" where
  "becomes os tc view task x s \<longleftrightarrow> takes_effect os tc task (\<lambda>y. view y = s) x"

definition create_applies :: "'w os \<Rightarrow> 'w towerclient \<Rightarrow> ('w \<Rightarrow> storage) \<Rightarrow> bool" where
  "create_applies os tc view \<longleftrightarrow>
     (\<forall>p x t ts x' vol v. tc_CreateVMVolume tc p x = (Inr (Some t # ts), x') \<longrightarrow> wtv_Data t = Some vol \<longrightarrow>
        ID vol = Some v \<longrightarrow>
        \<not> has_volume (view x) v \<and> becomes os tc view (wtv_TaskID t) x' (add_volume v (cp_Name p) (view x)))"

definition delete_applies :: "'w os \<Rightarrow> 'w towerclient \<Rightarrow> ('w \<Rightarrow> storage) \<Rightarrow> bool" where
  "delete_applies os tc view \<longleftrightarrow>
     (\<forall>v x t ts x'. tc_DeleteVMVolumeFromVM tc v x = (Inr (Some t # ts), x') \<longrightarrow>
        becomes os tc view (TaskID t) x' (drop_volume v (view x)))"

definition add_applies :: "'w os \<Rightarrow> 'w towerclient \<Rightarrow> ('w \<Rightarrow> storage) \<Rightarrow> bool" where
  "add_applies os tc view \<longleftrightarrow>
     (\<forall>n p x t ts x'. tc_AddVMDisk tc n p x = (Inr (Some t # ts), x') \<longrightarrow>
        becomes os tc view (TaskID t) x' (attach (md_VMVolumeID p) n (view x)))"

definition remove_applies :: "'w os \<Rightarrow> 'w towerclient \<Rightarrow> ('w \<Rightarrow> storage) \<Rightarrow> bool" where
  "remove_applies os tc view \<longleftrightarrow>
     (\<forall>n v x d ds x' i t ts x2. tc_GetVMDisks tc n v x = (Inr (Some d # ds), x') \<longrightarrow> disk_ID d = Some i \<longrightarrow>
        tc_RemoveVMDisk tc n [i] x' = (Inr (Some t # ts), x2) \<longrightarrow>
        becomes os tc view (TaskID t) x2 (detach v n (view x')))"

definition labels_apply :: "'w os \<Rightarrow> 'w towerclient \<Rightarrow> ('w \<Rightarrow> storage) \<Rightarrow> bool" where
  "labels_apply os tc view \<longleftrightarrow> (\<forall>k v. keeps view (tc_CreateLabel tc k v)) \<and>
     (\<forall>ls v x t ts x'. tc_AddLabelsToResources tc ls v x = (Inr (Some t # ts), x') \<longrightarrow>
        becomes os tc view (TaskID t) x' (view x))"

definition storage_contract :: "'w os \<Rightarrow> 'w DriverConfig \<Rightarrow> ('w \<Rightarrow> storage) \<Rightarrow> bool" where
  "storage_contract os c view \<longleftrightarrow>
     (let tc = TowerClient c in
      queries_keep os tc (nm_client (cfg_NodeMap c)) view \<and> names_answered tc view \<and> ids_answered tc view \<and>
      disks_answered tc view \<and> create_applies os tc view \<and> delete_applies os tc view \<and> add_applies os tc view \<and>
      remove_applies os tc view \<and> labels_apply os tc view)"

lemma storage_queries:
  assumes "storage_contract os c view"
  shows "keeps view (tc_GetVMVolumes (TowerClient c) q)" "keeps view (tc_GetClusters (TowerClient c) l)"
    "keeps view (tc_GetVms (TowerClient c) n)" "keeps view (tc_GetVMDisks (TowerClient c) n v)"
    "keeps view (tc_GetLabels (TowerClient c) k a)" "keeps view (cm_Get (nm_client (cfg_NodeMap c)) n)"
    "keeps view (os_Dial os addr)" "keeps view (os_Liveness os addr)"
  using assms by (simp_all add: storage_contract_def queries_keep_def Let_def)

lemma waitTask_becomes:
  assumes "waitTask os c task w = (Ret (), w')" and "becomes os (TowerClient c) view task (ext w) s"
  shows "view (ext w') = s"
  by (rule waitTask_effect [OF assms(1), where P = "\<lambda>y. view y = s"]) (use assms(2) in \<open>simp add: becomes_def\<close>)

section \<open>Answered calls\<close>

lemma getVolume_Ret:
  assumes "getVolume c v w = (Ret (Some vol), w')"
  obtains vols x where "tc_GetVMVolumes (TowerClient c) (VolumeWhereID v) (ext w) = (Inr (Some vol # vols), x)" "ext w' = x"
proof -
  from assms obtain payload where "tc_GetVMVolumes (TowerClient c) (VolumeWhereID v) (ext w) = (Inr payload, ext w')"
    "payload \<noteq> []" "hd payload = Some vol"
    by (auto simp: getVolume_def api_defs ret_iffs split: if_splits)
  then show thesis using that by (cases payload) auto
qed

lemma first_of_call:
  assumes "f x = (Inr r, x')" and "r \<noteq> []" and "hd r = Some t"
  obtains ts where "f x = (Inr (Some t # ts), x')"
  using assms by (cases r) auto

lemma DeleteVolume_view:
  assumes contract: "storage_contract os c view" and "DeleteVolume os c v w = (Ret (), w')"
  shows "spec_step lower (view (ext w)) (Delete v) Ok (view (ext w'))"
proof -
  from assms(2) obtain vol w1 r y t where get: "getVolume c v w = (Ret (Some vol), w1)" "Mounting vol \<noteq> Some True"
    and del: "tc_DeleteVMVolumeFromVM (TowerClient c) v (ext w1) = (Inr r, y)" "r \<noteq> []" "hd r = Some t"
    and wait: "waitTask os c (TaskID t) (w1\<lparr>ext := y, trace := trace w1 @ [EvDeleteVMVolume v]\<rparr>) = (Ret (), w')"
    by (auto simp: DeleteVolume_def DeleteVMVolumeFromVM_def ret_iffs split: if_splits)
  from get(1) obtain vols where call: "tc_GetVMVolumes (TowerClient c) (VolumeWhereID v) (ext w) = (Inr (Some vol # vols), ext w1)"
    by (rule getVolume_Ret) simp
  have "has_volume (view (ext w)) v" "\<not> in_use (view (ext w)) v"
    using contract call get(2) unfolding storage_contract_def ids_answered_def Let_def by blast+
  moreover have "view (ext w1) = view (ext w)" by (rule keepsD [OF storage_queries(1) [OF contract] call])
  moreover from del obtain ts where "tc_DeleteVMVolumeFromVM (TowerClient c) v (ext w1) = (Inr (Some t # ts), y)"
    by (rule first_of_call)
  then have "becomes os (TowerClient c) view (TaskID t) y (drop_volume v (view (ext w1)))"
    using contract unfolding storage_contract_def delete_applies_def Let_def by blast
  ultimately show ?thesis using waitTask_becomes [OF wait] by simp
qed

lemma ControllerUnpublishVolume_view:
  assumes contract: "storage_contract os c view" and "ControllerUnpublishVolume os c req w = (Ret (), w')"
  shows "spec_step lower (view (ext w)) (Unpublish req) Ok (view (ext w'))"
  using assms(2)
proof (cases rule: ControllerUnpublishVolume_Ret)
  case absent
  then have "(cunpub_VolumeId req, cunpub_NodeId req) \<notin> attachments (view (ext w))"
    using contract unfolding storage_contract_def disks_answered_def Let_def by blast
  moreover have "view (ext w') = view (ext w)" by (rule keepsD [OF storage_queries(4) [OF contract] absent])
  ultimately show ?thesis by (simp add: detach_def)
next
  case (removed d ds x i t ts w1 w2)
  then have "becomes os (TowerClient c) view (TaskID t) (ext w1) (detach (cunpub_VolumeId req) (cunpub_NodeId req) (view x))"
    using contract unfolding storage_contract_def remove_applies_def Let_def by blast
  moreover have "view x = view (ext w)" by (rule keepsD [OF storage_queries(4) [OF contract] removed(1)])
  ultimately show ?thesis using waitTask_becomes [OF removed(4)] removed(5) by simp
qed

lemma Get_keeps:
  assumes "storage_contract os c view" and "Get (cfg_NodeMap c) k w = (r, w')"
  shows "view (ext w') = view (ext w)"
proof -
  obtain a x where call: "cm_Get (nm_client (cfg_NodeMap c)) (nm_name (cfg_NodeMap c)) (ext w) = (a, x)" by fastforce
  with assms(2) have "ext w' = x"
    by (auto simp: Get_def go_defs split: sum.splits res.splits)
  with keepsD [OF storage_queries(6) [OF assms(1)] call] show ?thesis by simp
qed

lemma ControllerPublishVolume_view:
  assumes contract: "storage_contract os c view" and "ControllerPublishVolume os c req w = (Ret (), w')"
  shows "spec_step lower (view (ext w)) (Publish req) Ok (view (ext w'))"
proof -
  let ?n = "cpub_NodeId req" and ?v = "cpub_VolumeId req"
  from assms(2) obtain entry w1 x y w2 where pre: "Get (cfg_NodeMap c) ?n w = (Ret entry, w1)"
    "os_Dial os (nodeAddress entry) (ext w1) = (Inr (), x)" "os_Liveness os (nodeAddress entry) x = (Inr True, y)"
    and pub: "publishVolumeToVm os c ?v ?n (w1\<lparr>ext := y, trace := trace w1 @ [EvDial (nodeAddress entry),
        EvRpcCall (nodeAddress entry), EvRpcClose (nodeAddress entry), EvLockKey ?n]\<rparr>) = (Ret (), w2)"
    and w': "w' = w2\<lparr>trace := trace w2 @ [EvUnlockKey ?n]\<rparr>"
    by (rule ControllerPublishVolume_Ret)
  from Get_keeps [OF contract pre(1)] keepsD [OF storage_queries(7) [OF contract] pre(2)]
    keepsD [OF storage_queries(8) [OF contract] pre(3)] have y: "view y = view (ext w)" by simp
  have query: "has_volume (view y) ?v" "Mounting vol = Some True \<longleftrightarrow> in_use (view y) ?v"
    "VMDisks vol \<noteq> [] \<longleftrightarrow> in_use (view y) ?v" "view z = view y"
    if call: "tc_GetVMVolumes (TowerClient c) (VolumeWhereID ?v) y = (Inr (Some vol # vols), z)" for vol vols z
    using contract call keepsD [OF storage_queries(1) [OF contract] call]
    unfolding storage_contract_def ids_answered_def Let_def by blast+
  from pub show ?thesis
  proof (cases rule: publishVolumeToVm_Ret)
    case (skipped vol vols z)
    with query [of vol vols z] y w' show ?thesis by auto
  next
    case (attached vol vols z vm vms z1 z2 t ts evs)
    from attached(8) obtain w3 where w3: "ext w3 = z2" "waitTask os c (TaskID t) w3 = (Ret (), w2)" by blast
    have z1: "view z1 = view z" by (rule keepsD [OF storage_queries(3) [OF contract] attached(4)])
    have "becomes os (TowerClient c) view (TaskID t) z2 (attach ?v ?n (view z1))"
      using contract attached(5) unfolding storage_contract_def add_applies_def Let_def by fastforce
    with waitTask_becomes [OF w3(2)] w3(1) query [of vol vols z] attached(1-3) y z1 w' show ?thesis by simp
  qed
qed

lemma upsertLabel_keeps:
  assumes "storage_contract os c view" and "upsertLabel c k v w = (Ret l, w')"
  shows "view (ext w') = view (ext w)"
proof -
  have keep: "keeps view (tc_CreateLabel (TowerClient c) k v)"
    using assms(1) by (simp add: storage_contract_def labels_apply_def Let_def)
  obtain a x where call: "tc_GetLabels (TowerClient c) k v (ext w) = (a, x)" by fastforce
  obtain b y where create: "tc_CreateLabel (TowerClient c) k v x = (b, y)" by fastforce
  from assms(2) call create have "ext w' = x \<or> ext w' = y"
    by (auto simp: upsertLabel_def GetLabels_def CreateLabel_def ret_iffs split: if_splits)
  with keepsD [OF storage_queries(5) [OF assms(1)] call] keepsD [OF keep create] show ?thesis by auto
qed

lemma reconcileVolumeLabel_keeps:
  assumes contract: "storage_contract os c view" and "reconcileVolumeLabel os c v w = (Ret (), w')"
  shows "view (ext w') = view (ext w)"
proof -
  from assms(2) obtain label w1 found w2 where up: "upsertLabel c defaultClusterLabelKey (ClusterID c) w = (Ret label, w1)"
    and found: "labelAttached (Labels v) label w1 = (Ret found, w2)"
    and rest: "found \<and> w' = w2 \<or> (\<exists>i ls. addVolumeLabels os c i ls w2 = (Ret (), w'))"
    by (auto simp: reconcileVolumeLabel_def ret_iffs split: if_splits) blast
  have "view (ext w2) = view (ext w)"
    using upsertLabel_keeps [OF contract up] labelAttached_Ret [OF found] by simp
  moreover have "view (ext w') = view (ext w2)" if add: "addVolumeLabels os c i ls w2 = (Ret (), w')" for i ls
  proof -
    from add obtain r x t where call: "tc_AddLabelsToResources (TowerClient c) ls i (ext w2) = (Inr r, x)" "r \<noteq> []" "hd r = Some t"
      and wait: "waitTask os c (TaskID t) (w2\<lparr>ext := x, trace := trace w2 @ [EvAddLabels ls i]\<rparr>) = (Ret (), w')"
      by (auto simp: addVolumeLabels_def AddLabelsToResources_def ret_iffs split: if_splits)
    from call obtain ts where "tc_AddLabelsToResources (TowerClient c) ls i (ext w2) = (Inr (Some t # ts), x)"
      by (rule first_of_call)
    then have "becomes os (TowerClient c) view (TaskID t) x (view (ext w2))"
      using contract unfolding storage_contract_def labels_apply_def Let_def by blast
    with waitTask_becomes [OF wait] show ?thesis by simp
  qed
  ultimately show ?thesis using rest by auto
qed

text \<open>What \<open>createVmVolume\<close> did when it returned a volume.\<close>

lemma createVmVolume_view:
  assumes contract: "storage_contract os c view" and run: "createVmVolume os c cl n sp sz sh w = (Ret (Some vol), w')"
    and vid: "ID vol = Some v"
  shows "if \<exists>u. (u, n) \<in> volumes (view (ext w)) then (v, n) \<in> volumes (view (ext w)) \<and> view (ext w') = view (ext w)
    else \<not> has_volume (view (ext w)) v \<and> view (ext w') = add_volume v n (view (ext w))"
proof -
  from run obtain payload x where call: "tc_GetVMVolumes (TowerClient c) (VolumeWhereName n) (ext w) = (Inr payload, x)"
    by (auto simp: createVmVolume_def api_defs ret_iffs split: if_splits)
  have x: "view x = view (ext w)" by (rule keepsD [OF storage_queries(1) [OF contract] call])
  have answer: "case payload of [] \<Rightarrow> \<forall>u. (u, n) \<notin> volumes (view (ext w))
      | p # _ \<Rightarrow> \<forall>vol v. p = Some vol \<longrightarrow> ID vol = Some v \<longrightarrow> (v, n) \<in> volumes (view (ext w))"
    using contract call unfolding storage_contract_def names_answered_def Let_def by blast
  show ?thesis
  proof (cases payload)
    case (Cons p ps)
    with createVmVolume_existing call run have "p = Some vol" "ext w' = x" by fastforce+
    with answer Cons vid x show ?thesis by auto
  next
    case Nil
    with run call obtain cs y k r z t where clusters: "tc_GetClusters (TowerClient c) cl x = (Inr cs, y)"
      and create: "tc_CreateVMVolume (TowerClient c) \<lparr>cp_ClusterID = k, cp_ElfStoragePolicy = sp, cp_Size = sz, cp_Name = n,
        cp_Sharing = sh\<rparr> y = (Inr r, z)" "r \<noteq> []" "hd r = Some t" and vol: "wtv_Data t = Some vol"
      and wait: "\<exists>w2. ext w2 = z \<and> waitTask os c (wtv_TaskID t) w2 = (Ret (), w')"
      by (fastforce simp: createVmVolume_def api_defs ret_iffs split: if_splits)
    have y: "view y = view (ext w)" using keepsD [OF storage_queries(2) [OF contract] clusters] x by simp
    from create obtain ts where "tc_CreateVMVolume (TowerClient c) \<lparr>cp_ClusterID = k, cp_ElfStoragePolicy = sp, cp_Size = sz,
        cp_Name = n, cp_Sharing = sh\<rparr> y = (Inr (Some t # ts), z)" by (rule first_of_call)
    then have "\<not> has_volume (view y) v" "becomes os (TowerClient c) view (wtv_TaskID t) z (add_volume v n (view y))"
      using contract vol vid unfolding storage_contract_def create_applies_def Let_def by fastforce+
    with wait waitTask_becomes answer Nil y show ?thesis by fastforce
  qed
qed

lemma CreateVolume_view:
  assumes contract: "storage_contract os c view" and "CreateVolume os c req w = (Ret vol, w')"
  shows "spec_step (ToLower (os_unicode os)) (view (ext w)) (Create req) (Created (vol_VolumeId vol)) (view (ext w'))"
proof -
  from assms(2) obtain cl sp sz sh v w1 where
    run: "createVmVolume os c cl (ToLower (os_unicode os) (create_Name req)) sp sz sh w = (Ret (Some v), w1)"
    and vid: "ID v = Some (vol_VolumeId vol)" and labels: "reconcileVolumeLabel os c v w1 = (Ret (), w')"
    by (fastforce simp: CreateVolume_def Let_def ret_iffs split: if_splits)
  from createVmVolume_view [OF contract run vid] reconcileVolumeLabel_keeps [OF contract labels] show ?thesis by simp
qed

section \<open>Calls refused without a change\<close>

text \<open>The external calls that only look.\<close>

definition looking :: "event \<Rightarrow> bool" where
  "looking e =
     (case e of EvGetVMVolumes _ \<Rightarrow> True | EvGetClusters _ \<Rightarrow> True | EvGetVms _ \<Rightarrow> True | EvGetVMDisks _ _ \<Rightarrow> True
      | EvGetLabels _ _ \<Rightarrow> True | EvConfigMapGet _ \<Rightarrow> True | EvDial _ \<Rightarrow> True | EvRpcCall _ \<Rightarrow> True | EvRpcClose _ \<Rightarrow> True
      | EvLockKey _ \<Rightarrow> True | EvUnlockKey _ \<Rightarrow> True | _ \<Rightarrow> False)"

text \<open>\<open>frame view m\<close>: a run of \<open>m\<close> that only looked has changed nothing.\<close>

definition frame :: "('w \<Rightarrow> 'v) \<Rightarrow> ('w, 'a) io \<Rightarrow> bool" where
  "frame view m \<longleftrightarrow> (\<forall>w. \<exists>evs. trace (snd (m w)) = trace w @ evs \<and>
     (list_all looking evs \<longrightarrow> view (ext (snd (m w))) = view (ext w)))"

named_theorems frame_rules

lemma frame_pure [frame_rules]:
  "frame view (returnE a)" "frame view (failE e)" "frame view panicE" "frame view (liftR r)"
  by (simp_all add: frame_def go_defs)

lemma frame_derefE [frame_rules]: "frame view (derefE p)"
  by (cases p) (simp_all add: frame_def go_defs)

lemma frame_index0E [frame_rules]: "frame view (index0E xs)"
  by (cases xs) (simp_all add: frame_def go_defs)

lemma frame_if [frame_rules]: "frame view m \<Longrightarrow> frame view m' \<Longrightarrow> frame view (if b then m else m')"
  by simp

lemma frame_emitE [frame_rules]: "frame view (emitE e)"
  by (simp add: frame_def emitE_def)

lemma frame_callE [frame_rules]:
  assumes "looking e \<Longrightarrow> keeps view f"
  shows "frame view (callE e f)"
  using assms by (auto simp: frame_def callE_def keeps_def split: prod.splits) (metis snd_conv)

lemma frame_bindE [frame_rules]:
  assumes "frame view m" and "\<And>a. frame view (f a)"
  shows "frame view (bindE m f)"
  unfolding frame_def
proof
  fix w
  obtain r1 w1 where m: "m w = (r1, w1)" by fastforce
  with assms(1) obtain es where es: "trace w1 = trace w @ es" "list_all looking es \<longrightarrow> view (ext w1) = view (ext w)"
    unfolding frame_def by (metis snd_conv)
  show "\<exists>evs. trace (snd (bindE m f w)) = trace w @ evs \<and>
      (list_all looking evs \<longrightarrow> view (ext (snd (bindE m f w))) = view (ext w))"
  proof (cases r1)
    case (Ret a)
    from assms(2) [of a] obtain fs where "trace (snd (f a w1)) = trace w1 @ fs"
      "list_all looking fs \<longrightarrow> view (ext (snd (f a w1))) = view (ext w1)" unfolding frame_def by metis
    with m Ret es show ?thesis by (intro exI [of _ "es @ fs"]) (simp add: bindE_def)
  qed (use m es in \<open>auto simp: bindE_def\<close>)
qed

lemma frame_first_of [frame_rules]: "frame view (first_of xs)"
  unfolding first_of_def by (intro frame_rules)

lemma frame_wrapE [frame_rules]: "frame view m \<Longrightarrow> frame view (wrapE g m)"
  by (simp add: frame_def wrapE_def case_prod_beta)

lemma frame_deferE [frame_rules]:
  assumes "frame view m"
  shows "frame view (deferE (emitE e) m)"
  unfolding frame_def
proof
  fix w
  from assms obtain es where es: "trace (snd (m w)) = trace w @ es"
    "list_all looking es \<longrightarrow> view (ext (snd (m w))) = view (ext w)" unfolding frame_def by metis
  then show "\<exists>evs. trace (snd (deferE (emitE e) m w)) = trace w @ evs \<and>
      (list_all looking evs \<longrightarrow> view (ext (snd (deferE (emitE e) m w))) = view (ext w))"
    by (cases "fst (m w) = Diverge") (auto simp: deferE_def emitE_def case_prod_beta)
qed

text \<open>Waiting begins with a look at the clock, which is not among the calls that only look.\<close>

lemma frame_waitTask [frame_rules]: "frame view (waitTask os c task)"
proof (cases task)
  case (Some i)
  have "\<exists>evs. trace (snd (waitTask os c (Some i) w)) = trace w @ [EvNow] @ evs" for w
    unfolding waitTask_def option.case
    by (rule bindE_extends, intro emits_rules TrueI) (simp add: NowE_def case_prod_beta)
  moreover have "\<not> list_all looking ([EvNow] @ evs)" for evs by (simp add: looking_def)
  ultimately show ?thesis unfolding frame_def Some by blast
qed (simp add: waitTask_def frame_rules)

lemma frame_labelAttached [frame_rules]: "frame view (labelAttached ls label)"
  by (induction ls) (auto intro!: frame_rules)

lemma frame_tower [frame_rules]:
  assumes "storage_contract os c view"
  shows "frame view (GetVMVolumes c q)" "frame view (GetClusters c l)" "frame view (GetVms c n)"
    "frame view (GetVMDisks c n v)" "frame view (GetLabels c k a)"
  unfolding api_defs by (intro frame_callE storage_queries [OF assms])+

lemma frame_changes [frame_rules]:
  "frame view (CreateVMVolume c p)" "frame view (DeleteVMVolumeFromVM c v)" "frame view (AddVMDisk c n md)"
  "frame view (RemoveVMDisk c n ds)" "frame view (CreateLabel c k a)" "frame view (AddLabelsToResources c ls v)"
  unfolding api_defs by (rule frame_callE, simp add: looking_def)+

lemma frame_Get:
  assumes "storage_contract os c view"
  shows "frame view (Get (cfg_NodeMap c) k)"
  unfolding Get_def by (intro frame_rules storage_queries [OF assms])

lemma frame_canPublishToNode:
  assumes "storage_contract os c view"
  shows "frame view (canPublishToNode os a)"
  unfolding canPublishToNode_def by (intro frame_rules storage_queries [OF assms])

lemma frame_CreateVolume:
  assumes "storage_contract os c view"
  shows "frame view (CreateVolume os c req)"
  unfolding CreateVolume_def createVmVolume_def reconcileVolumeLabel_def upsertLabel_def addVolumeLabels_def Let_def
  by (intro frame_rules frame_tower [OF assms])

lemma frame_DeleteVolume:
  assumes "storage_contract os c view"
  shows "frame view (DeleteVolume os c v)"
  unfolding DeleteVolume_def getVolume_def by (intro frame_rules frame_tower [OF assms])

lemma frame_ControllerPublishVolume:
  assumes "storage_contract os c view"
  shows "frame view (ControllerPublishVolume os c req)"
  unfolding ControllerPublishVolume_def publishVolumeToVm_def Let_def
  by (intro frame_if frame_pure frame_bindE [OF frame_Get [OF assms]] frame_bindE [OF frame_canPublishToNode [OF assms]]
      frame_rules frame_tower [OF assms])

lemma frame_ControllerUnpublishVolume:
  assumes "storage_contract os c view"
  shows "frame view (ControllerUnpublishVolume os c req)"
  unfolding ControllerUnpublishVolume_def unpublishVolumeFromVm_def Let_def
  by (intro frame_rules frame_tower [OF assms])

section \<open>Histories of the controller\<close>

fun perform :: "'w os \<Rightarrow> 'w DriverConfig \<Rightarrow> call \<Rightarrow> ('w, answer) io" where
  "perform os c (Create req) = bindE (CreateVolume os c req) (\<lambda>vol. returnE (Created (vol_VolumeId vol)))"
| "perform os c (Delete v) = bindE (DeleteVolume os c v) (\<lambda>_. returnE Ok)"
| "perform os c (Publish req) = bindE (ControllerPublishVolume os c req) (\<lambda>_. returnE Ok)"
| "perform os c (Unpublish req) = bindE (ControllerUnpublishVolume os c req) (\<lambda>_. returnE Ok)"

inductive history :: "'w os \<Rightarrow> 'w DriverConfig \<Rightarrow> 'w world \<Rightarrow> (call \<times> answer option) list \<Rightarrow> 'w world \<Rightarrow> bool"
  for os c where
  over: "history os c w [] w"
| answered: "perform os c k w = (Ret a, w1) \<Longrightarrow> history os c w1 h w' \<Longrightarrow> history os c w ((k, Some a) # h) w'"
| refused: "perform os c k w = (Fail e, w1) \<Longrightarrow> trace w1 = trace w @ evs \<Longrightarrow> list_all looking evs \<Longrightarrow>
    history os c w1 h w' \<Longrightarrow> history os c w ((k, None) # h) w'"

lemma perform_answer:
  assumes "storage_contract os c view" and "perform os c k w = (Ret a, w')"
  shows "spec_step (ToLower (os_unicode os)) (view (ext w)) k a (view (ext w'))"
  using assms(2)
proof (cases k)
  case (Create req)
  with assms(2) CreateVolume_view [OF assms(1)] show ?thesis by (auto simp: ret_iffs)
next
  case (Delete v)
  with assms(2) DeleteVolume_view [OF assms(1)] show ?thesis by (auto simp: ret_iffs)
next
  case (Publish req)
  with assms(2) ControllerPublishVolume_view [OF assms(1)] show ?thesis by (auto simp: ret_iffs)
next
  case (Unpublish req)
  with assms(2) ControllerUnpublishVolume_view [OF assms(1)] show ?thesis by (auto simp: ret_iffs)
qed

lemma frame_perform:
  assumes "storage_contract os c view"
  shows "frame view (perform os c k)"
  by (cases k) (auto intro!: frame_bindE frame_pure frame_CreateVolume frame_DeleteVolume
      frame_ControllerPublishVolume frame_ControllerUnpublishVolume assms)

lemma history_refines:
  assumes "storage_contract os c view" and "history os c w h w'"
  shows "spec_run (ToLower (os_unicode os)) (view (ext w)) h (view (ext w'))"
  using assms(2)
proof induction
  case (answered k w a w1 h w')
  with perform_answer [OF assms(1) answered(1)] show ?case by auto
next
  case (refused k w e w1 evs h w')
  from frame_perform [OF assms(1), of k] refused(1-3) have "view (ext w1) = view (ext w)"
    unfolding frame_def by (metis same_append_eq snd_conv)
  with refused show ?case by simp
qed simp

section \<open>A platform that keeps its promises\<close>

text \<open>
  An instance for the examples: the files of the example state serve as the volumes, each with
  its own name as identifier, and the table of disks is that of \<open>Attachment\<close>.
\<close>

definition store_view :: "demo \<Rightarrow> storage" where
  "store_view x = \<lparr>volumes = (\<lambda>f. (f, f)) ` set (d_files x), attachments = disk_table x\<rparr>"

definition store_volume :: "string \<Rightarrow> demo \<Rightarrow> VMVolume" where
  "store_volume v x = (let used = list_ex (\<lambda>m. Device m = v) (d_mounts x) in
     demo_volume\<lparr>ID := Some v, Mounting := Some used, VMDisks := (if used then [None] else [])\<rparr>)"

definition store_tower :: "demo towerclient" where
  "store_tower = disk_tower\<lparr>
     tc_GetVMVolumes := (\<lambda>q x. (Inr (let v = (case q of VolumeWhereName n \<Rightarrow> n | VolumeWhereID i \<Rightarrow> i) in
        if v \<in> set (d_files x) then [Some (store_volume v x)] else []), x)),
     tc_CreateVMVolume := (\<lambda>p x.
        if cp_Name p \<in> set (d_files x) then (Inl (ExtErr ''duplicate name''), x)
        else (Inr [Some \<lparr>wtv_TaskID = Some ''t'', wtv_Data = Some (store_volume (cp_Name p) x)\<rparr>],
              x\<lparr>d_files := cp_Name p # d_files x\<rparr>)),
     tc_DeleteVMVolumeFromVM := (\<lambda>v x. (Inr demo_task, x\<lparr>d_files := removeAll v (d_files x)\<rparr>))\<rparr>"

definition store_config :: "demo DriverConfig" where
  "store_config = demo_config\<lparr>TowerClient := store_tower\<rparr>"

lemma store_GetTasks: "tc_GetTasks store_tower = tc_GetTasks demo_tower"
  by (simp add: store_tower_def disk_tower_def)

lemma store_waits:
  assumes "waits demo_os store_tower i x y"
  shows "store_view y = store_view x"
  using assms by induction (auto simp: store_GetTasks store_view_def disk_table_def)

lemma store_becomes: "becomes demo_os store_tower store_view (Some i) x (store_view x)"
  unfolding becomes_def takes_effect_def option.case
  using store_waits by (fastforce simp: store_GetTasks)

lemma store_queries: "queries_keep demo_os store_tower demo_configmaps store_view"
  by (simp add: queries_keep_def keeps_def store_tower_def disk_tower_def)

lemma store_answers:
  "names_answered store_tower store_view" "ids_answered store_tower store_view" "disks_answered store_tower store_view"
proof -
  have used: "list_ex (\<lambda>m. Device m = v) (d_mounts x) \<longleftrightarrow> (\<exists>n. (v, n) \<in> disk_table x)" for v x
    by (auto simp: disk_table_def list_ex_iff)
  show "names_answered store_tower store_view"
    by (auto simp: names_answered_def store_tower_def store_view_def store_volume_def Let_def image_iff)
  show "ids_answered store_tower store_view"
    by (auto simp: ids_answered_def store_tower_def store_view_def store_volume_def Let_def has_volume_def in_use_def used
        split: if_splits)
  show "disks_answered store_tower store_view"
    by (auto simp: disks_answered_def store_tower_def disk_tower_def store_view_def disk_table_def list_ex_iff split: if_splits)
qed

lemma store_applies:
  "create_applies demo_os store_tower store_view" "delete_applies demo_os store_tower store_view"
  "add_applies demo_os store_tower store_view" "remove_applies demo_os store_tower store_view"
  "labels_apply demo_os store_tower store_view"
proof -
  note effect = store_becomes [of "''t''"]
  show "create_applies demo_os store_tower store_view" unfolding create_applies_def
  proof (intro allI impI)
    fix p x t ts x' vol v
    assume "tc_CreateVMVolume store_tower p x = (Inr (Some t # ts), x')" "wtv_Data t = Some vol" "ID vol = Some v"
    then have "v = cp_Name p" "cp_Name p \<notin> set (d_files x)" "wtv_TaskID t = Some ''t''" "x' = x\<lparr>d_files := v # d_files x\<rparr>"
      by (auto simp: store_tower_def store_volume_def Let_def split: if_splits)
    moreover from this have "\<not> has_volume (store_view x) v" "store_view x' = add_volume v (cp_Name p) (store_view x)"
      by (auto simp: has_volume_def store_view_def storage_ops disk_table_def)
    ultimately show "\<not> has_volume (store_view x) v \<and>
        becomes demo_os store_tower store_view (wtv_TaskID t) x' (add_volume v (cp_Name p) (store_view x))"
      using effect [of x'] by simp
  qed
  show "delete_applies demo_os store_tower store_view" unfolding delete_applies_def
  proof (intro allI impI)
    fix v x t ts x'
    assume "tc_DeleteVMVolumeFromVM store_tower v x = (Inr (Some t # ts), x')"
    then have t: "TaskID t = Some ''t''" "x' = x\<lparr>d_files := removeAll v (d_files x)\<rparr>"
      by (auto simp: store_tower_def demo_task_def)
    have "(\<lambda>f. (f, f)) ` (A - {v}) = {p \<in> (\<lambda>f. (f, f)) ` A. fst p \<noteq> v}" for A :: "string set" by force
    with t have "store_view x' = drop_volume v (store_view x)" by (simp add: store_view_def storage_ops disk_table_def)
    with t effect [of x'] show "becomes demo_os store_tower store_view (TaskID t) x' (drop_volume v (store_view x))" by simp
  qed
  show "add_applies demo_os store_tower store_view" unfolding add_applies_def
  proof (intro allI impI)
    fix n p x t ts x'
    assume "tc_AddVMDisk store_tower n p x = (Inr (Some t # ts), x')"
    then have t: "TaskID t = Some ''t''"
      "x' = x\<lparr>d_mounts := \<lparr>Device = md_VMVolumeID p, Path = n, Type = [], Opts = []\<rparr> # d_mounts x\<rparr>"
      by (auto simp: store_tower_def disk_tower_def demo_task_def)
    then have "store_view x' = attach (md_VMVolumeID p) n (store_view x)"
      by (auto simp: store_view_def storage_ops disk_table_def)
    with t effect [of x'] show "becomes demo_os store_tower store_view (TaskID t) x' (attach (md_VMVolumeID p) n (store_view x))"
      by simp
  qed
  show "remove_applies demo_os store_tower store_view" unfolding remove_applies_def
  proof (intro allI impI)
    fix n v x d ds x' i t ts x2
    assume "tc_GetVMDisks store_tower n v x = (Inr (Some d # ds), x')" "disk_ID d = Some i"
      "tc_RemoveVMDisk store_tower n [i] x' = (Inr (Some t # ts), x2)"
    then have t: "TaskID t = Some ''t''" "x2 = x'\<lparr>d_mounts := filter (\<lambda>m. \<not> (Path m = n \<and> Device m = v)) (d_mounts x')\<rparr>"
      by (auto simp: store_tower_def disk_tower_def demo_task_def split: if_splits)
    then have "store_view x2 = detach v n (store_view x')" by (auto simp: store_view_def storage_ops disk_table_def)
    with t effect [of x2] show "becomes demo_os store_tower store_view (TaskID t) x2 (detach v n (store_view x'))" by simp
  qed
  show "labels_apply demo_os store_tower store_view"
    using effect by (auto simp: labels_apply_def keeps_def store_tower_def disk_tower_def demo_task_def)
qed

lemma store_contract: "storage_contract demo_os store_config store_view"
  using store_queries store_answers store_applies
  by (simp add: storage_contract_def store_config_def NewNodeMap_def Let_def)

definition store_publish :: ControllerPublishVolumeRequest where
  "store_publish = demo_publish\<lparr>cpub_VolumeId := ''pvc-1''\<rparr>"

definition store_unpublish :: ControllerUnpublishVolumeRequest where
  "store_unpublish = \<lparr>cunpub_VolumeId = ''pvc-1'', cunpub_NodeId = ''node-1''\<rparr>"

lemma store_wait: "waitTask demo_os store_config (Some i) w = (Ret (), w\<lparr>trace := trace w @ [EvNow, EvGetTasks i]\<rparr>)"
  by (rule demo_wait) (simp add: store_config_def store_GetTasks)

lemma store_Get:
  assumes "d_cm (ext w) = d_cm (ext demo_registered)"
  shows "Get (NewNodeMap ''nodes'' demo_configmaps) ''node-1'' w = (Ret demo_entry, w\<lparr>trace := trace w @ [EvConfigMapGet ''nodes'']\<rparr>)"
proof -
  from arg_cong [OF demo_registered_Get, of fst] have "getEntry ''nodes'' (BinaryData (d_cm (ext demo_registered))) ''node-1'' = Ret demo_entry"
    by (simp add: Get_def NewNodeMap_def go_defs)
  with assms show ?thesis by (simp add: Get_def NewNodeMap_def go_defs)
qed

lemma store_config_simps:
  "TowerClient store_config = store_tower" "ClusterID store_config = ''k8s''" "cfg_NodeMap store_config = NewNodeMap ''nodes'' demo_configmaps"
  by (simp_all add: store_config_def demo_config_def)

lemma store_create:
  "fst (CreateVolume demo_os store_config demo_create w) =
     Ret \<lparr>vol_VolumeId = ''pvc-1'', vol_CapacityBytes = 1073741824, vol_ContentSource = None, vol_VolumeContext = Map.empty\<rparr>"
proof -
  have name: "ToLower demo_unicode ''PVC-1'' = ''pvc-1''" by code_simp
  show ?thesis
    by (simp add: CreateVolume_def demo_create_def getVolumeSize_def GetRequiredBytes_def GetLimitBytes_def
        createVmVolume_def reconcileVolumeLabel_def upsertLabel_def addVolumeLabels_def name store_config_simps api_defs
        bindE_def callE_def returnE_def wrapE_def Let_def store_wait demo_volume_def demo_task_def store_tower_def disk_tower_def
        store_volume_def)
qed

lemma store_create_ext:
  assumes "''pvc-1'' \<notin> set (d_files (ext w))"
  shows "ext (snd (CreateVolume demo_os store_config demo_create w)) = (ext w)\<lparr>d_files := ''pvc-1'' # d_files (ext w)\<rparr>"
proof -
  have name: "ToLower demo_unicode ''PVC-1'' = ''pvc-1''" by code_simp
  show ?thesis using assms
    by (simp add: CreateVolume_def demo_create_def getVolumeSize_def GetRequiredBytes_def GetLimitBytes_def
        createVmVolume_def reconcileVolumeLabel_def upsertLabel_def addVolumeLabels_def name store_config_simps api_defs
        bindE_def callE_def returnE_def wrapE_def Let_def store_wait demo_volume_def demo_task_def store_tower_def disk_tower_def
        store_volume_def)
qed

lemma store_publish_run:
  assumes "d_cm (ext w) = d_cm (ext demo_registered)" and "''pvc-1'' \<in> set (d_files (ext w))" and "d_mounts (ext w) = []"
  shows "fst (ControllerPublishVolume demo_os store_config store_publish w) = Ret ()"
    and "ext (snd (ControllerPublishVolume demo_os store_config store_publish w)) =
      (ext w)\<lparr>d_mounts := [\<lparr>Device = ''pvc-1'', Path = ''node-1'', Type = [], Opts = []\<rparr>]\<rparr>"
  using assms
  by (simp_all add: ControllerPublishVolume_def store_publish_def demo_publish_def store_config_simps Let_def store_Get store_tower_def
      disk_tower_def canPublishToNode_def publishVolumeToVm_def api_defs go_defs demo_task_def store_volume_def demo_volume_def store_wait)

lemma store_unpublish_run:
  "fst (ControllerUnpublishVolume demo_os store_config store_unpublish w) = Ret ()"
  "ext (snd (ControllerUnpublishVolume demo_os store_config store_unpublish w)) =
     (ext w)\<lparr>d_mounts := filter (\<lambda>m. \<not> (Path m = ''node-1'' \<and> Device m = ''pvc-1'')) (d_mounts (ext w))\<rparr>"
  by (auto simp: ControllerUnpublishVolume_def unpublishVolumeFromVm_def store_unpublish_def store_config_simps store_tower_def
      disk_tower_def api_defs go_defs Let_def demo_task_def store_wait list_ex_iff intro!: demo.equality filter_True [symmetric])

lemma store_delete_run:
  assumes "''pvc-1'' \<in> set (d_files (ext w))" and "d_mounts (ext w) = []"
  shows "fst (DeleteVolume demo_os store_config ''pvc-1'' w) = Ret ()"
    and "ext (snd (DeleteVolume demo_os store_config ''pvc-1'' w)) = (ext w)\<lparr>d_files := removeAll ''pvc-1'' (d_files (ext w))\<rparr>"
  using assms
  by (simp_all add: DeleteVolume_def getVolume_def store_config_simps store_tower_def disk_tower_def api_defs go_defs Let_def
      demo_task_def store_wait store_volume_def demo_volume_def)

text \<open>The example history: a volume is created, published, unpublished and deleted.\<close>

definition store_after :: "call list \<Rightarrow> demo world" where
  "store_after ks = foldl (\<lambda>w k. snd (perform demo_os store_config k w)) demo_registered ks"

lemma performs:
  "fst (f w) = Ret a \<Longrightarrow> bindE f (\<lambda>x. returnE (g x)) w = (Ret (g a), snd (f w))"
  by (cases "f w") (simp add: bindE_def returnE_def)

lemma store_perform:
  "perform demo_os store_config (Create demo_create) w = (Ret (Created ''pvc-1''), snd (CreateVolume demo_os store_config demo_create w))"
  "fst (ControllerPublishVolume demo_os store_config store_publish w) = Ret () \<Longrightarrow>
     perform demo_os store_config (Publish store_publish) w = (Ret Ok, snd (ControllerPublishVolume demo_os store_config store_publish w))"
  "perform demo_os store_config (Unpublish store_unpublish) w = (Ret Ok, snd (ControllerUnpublishVolume demo_os store_config store_unpublish w))"
  "fst (DeleteVolume demo_os store_config ''pvc-1'' w) = Ret () \<Longrightarrow>
     perform demo_os store_config (Delete ''pvc-1'') w = (Ret Ok, snd (DeleteVolume demo_os store_config ''pvc-1'' w))"
  by (simp_all add: performs [where g = "\<lambda>_. Ok"] performs [OF store_create] store_unpublish_run(1))

lemma store_perform_create:
  "perform demo_os store_config (Create demo_create) w =
     (Ret (Created ''pvc-1''), snd (perform demo_os store_config (Create demo_create) w))"
  unfolding store_perform(1) snd_conv ..

definition store_calls :: "(call \<times> answer option) list" where
  "store_calls = [(Create demo_create, Some (Created ''pvc-1'')), (Publish store_publish, Some Ok),
     (Unpublish store_unpublish, Some Ok), (Delete ''pvc-1'', Some Ok)]"

lemma store_history: "history demo_os store_config demo_registered store_calls (store_after (map fst store_calls))"
proof -
  have start: "d_files (ext demo_registered) = []" "d_mounts (ext demo_registered) = []"
    by (simp_all add: demo_registered_def Put_def NewNodeMap_def putEntry_def go_defs demo_world_def demo_state_def Let_def)
  let ?w1 = "snd (CreateVolume demo_os store_config demo_create demo_registered)"
  let ?w2 = "snd (ControllerPublishVolume demo_os store_config store_publish ?w1)"
  let ?w3 = "snd (ControllerUnpublishVolume demo_os store_config store_unpublish ?w2)"
  have w1: "ext ?w1 = (ext demo_registered)\<lparr>d_files := [''pvc-1'']\<rparr>" by (simp add: store_create_ext start)
  have publish: "fst (ControllerPublishVolume demo_os store_config store_publish ?w1) = Ret ()" and
    w2: "ext ?w2 = (ext ?w1)\<lparr>d_mounts := [\<lparr>Device = ''pvc-1'', Path = ''node-1'', Type = [], Opts = []\<rparr>]\<rparr>"
    by (rule store_publish_run; simp add: w1 start)+
  have w3: "d_mounts (ext ?w3) = []" "''pvc-1'' \<in> set (d_files (ext ?w3))" by (simp_all add: store_unpublish_run(2) w2 w1)
  note calls = store_perform(1) store_perform(2) [OF publish] store_perform(3) store_perform(4) [OF store_delete_run(1) [OF w3(2,1)]]
  have "store_after (map fst store_calls) = snd (DeleteVolume demo_os store_config ''pvc-1'' ?w3)"
    unfolding store_after_def store_calls_def list.map fst_conv foldl_Cons foldl_Nil calls snd_conv ..
  then show ?thesis unfolding store_calls_def
    by (simp only:) (intro answered [OF calls(1)] answered [OF calls(2)] answered [OF calls(3)] answered [OF calls(4)] over)
qed

lemma store_start: "store_view (ext demo_registered) = \<lparr>volumes = {}, attachments = {}\<rparr>"
  using demo_registered_disks
  by (simp add: store_view_def disk_table_def demo_registered_def Put_def NewNodeMap_def putEntry_def go_defs demo_world_def
      demo_state_def Let_def)

lemma store_start_consistent: "consistent (store_view (ext demo_registered))"
  by (simp add: store_start consistent_def)

section \<open>Properties\<close>

text \<open>
  C1: The controller service implements its specification: in any sequence of calls to create,
  delete, publish and unpublish volumes, each answered or refused before it asked for a change,
  the volumes and attachments on the platform go through the abstract steps of the answers.
\<close>

theorem controller_refines:
  assumes "storage_contract os c view" and "history os c w h w'"
  shows "spec_run (ToLower (os_unicode os)) (view (ext w)) h (view (ext w'))"
  using assms by (rule history_refines)

theorem controller_refines_witness:
  "spec_run (ToLower demo_unicode) \<lparr>volumes = {}, attachments = {}\<rparr> store_calls
     (store_view (ext (store_after (map fst store_calls))))"
  using controller_refines [OF store_contract store_history] by (simp add: store_start)

text \<open>
  C4: Calls made one after the other keep the platform consistent: from a state in which names and
  identifiers of volumes determine each other and every attachment is of a volume that exists,
  any history of calls to create, delete, publish and unpublish, each answered or refused before
  it asked for a change, ends in such a state.  Concurrent calls, and calls that fail after they
  asked for a change, are not covered.
\<close>

theorem controller_history_consistent:
  assumes "storage_contract os c view" and "history os c w h w'" and "consistent (view (ext w))"
  shows "consistent (view (ext w'))"
  by (rule spec_run_consistent [OF history_refines [OF assms(1,2)] assms(3)])

theorem controller_history_consistent_witness:
  "consistent (store_view (ext (store_after (map fst store_calls))))"
  by (rule controller_history_consistent [OF store_contract store_history store_start_consistent])

text \<open>
  C6: Repeating \<open>CreateVolume\<close> is safe for a client that waits for each answer: from a platform on
  which names and identifiers of volumes determine each other, two answered calls with the same
  name, up to case, name the same volume, whatever sequence of calls was made between them, each
  answered or refused before it asked for a change, unless that volume was deleted.
\<close>

theorem create_same_volume:
  assumes "storage_contract os c view" and "consistent (view (ext w))"
    and "history os c w ((Create r1, Some (Created v)) # h @ [(Create r2, Some (Created v'))]) w'"
    and "ToLower (os_unicode os) (create_Name r1) = ToLower (os_unicode os) (create_Name r2)"
    and "(Delete v, Some Ok) \<notin> set h"
  shows "v' = v"
proof -
  let ?n = "ToLower (os_unicode os) (create_Name r1)"
  from history_refines [OF assms(1,3)] obtain s1 s2 s3 where
    steps: "spec_step (ToLower (os_unicode os)) (view (ext w)) (Create r1) (Created v) s1"
    "spec_run (ToLower (os_unicode os)) s1 h s2" "spec_step (ToLower (os_unicode os)) s2 (Create r2) (Created v') s3"
    by (auto simp: spec_run_append)
  from steps(1) have "(v, ?n) \<in> volumes s1" by (auto simp: storage_ops split: if_splits)
  then have "(v, ?n) \<in> volumes s2" using spec_run_keeps_volume [OF steps(2) _ assms(5)] by blast
  moreover from this steps(3) assms(4) have "(v', ?n) \<in> volumes s2" by (auto split: if_splits)
  moreover have "consistent s2"
    using spec_run_consistent [OF steps(2) spec_step_consistent [OF steps(1) assms(2)]] .
  ultimately show ?thesis by (auto simp: consistent_def)
qed

theorem create_same_volume_witness:
  "\<exists>v'. fst (perform demo_os store_config (Create demo_create) (store_after [Create demo_create])) = Ret (Created v') \<and> v' = ''pvc-1''"
proof -
  let ?w = "store_after [Create demo_create]"
  obtain v' where second: "perform demo_os store_config (Create demo_create) ?w =
      (Ret (Created v'), snd (perform demo_os store_config (Create demo_create) ?w))" using store_perform_create by blast
  have "history demo_os store_config demo_registered
      ((Create demo_create, Some (Created ''pvc-1'')) # [] @ [(Create demo_create, Some (Created v'))])
      (snd (perform demo_os store_config (Create demo_create) ?w))"
    using answered [OF store_perform_create answered [OF second [unfolded store_after_def foldl_Cons foldl_Nil] over]]
    by (simp add: store_after_def)
  from create_same_volume [OF store_contract store_start_consistent this] have "v' = ''pvc-1''" by simp
  with second show ?thesis by (metis fst_conv)
qed

end
