(* ===== verification/Volume_Labels.thy ===== *)
theory Volume_Labels
  imports Attachment
begin

text \<open>
  The label of the Kubernetes cluster on the volumes of \<open>CreateVolume\<close>, against the platform's
  own table of labels: a success means that the volume carries it.
\<close>

section \<open>What the platform promises\<close>

text \<open>
  What is known of labels: the key and the value an identifier stands for, and which volume
  carries which label.
\<close>

datatype label_fact = Named string string string | Carries string string

text \<open>
  No call \<open>CreateVolume\<close> makes takes a label away, and there is no other client that does; what the
  platform answers about labels is true; and accepted labels are on the volume when the task is
  reported as succeeded.
\<close>

definition grows :: "('w \<Rightarrow> 'f set) \<Rightarrow> ('w \<Rightarrow> 'a \<times> 'w) \<Rightarrow> bool" where
  "grows view f \<longleftrightarrow> (\<forall>x. view x \<subseteq> view (snd (f x)))"

definition labels_kept :: "'w os \<Rightarrow> 'w towerclient \<Rightarrow> ('w \<Rightarrow> label_fact set) \<Rightarrow> bool" where
  "labels_kept os tc facts \<longleftrightarrow>
     (\<forall>q. grows facts (tc_GetVMVolumes tc q)) \<and> (\<forall>p. grows facts (tc_CreateVMVolume tc p)) \<and>
     (\<forall>k v. grows facts (tc_GetLabels tc k v)) \<and> (\<forall>k v. grows facts (tc_CreateLabel tc k v)) \<and>
     (\<forall>ls v. grows facts (tc_AddLabelsToResources tc ls v)) \<and> (\<forall>i. grows facts (tc_GetTasks tc i)) \<and>
     grows facts (os_Now os) \<and> (\<forall>d x. facts x \<subseteq> facts (os_Sleep os d x))"

definition labels_true :: "VMVolume \<Rightarrow> label_fact set \<Rightarrow> bool" where
  "labels_true vol fs \<longleftrightarrow> (\<forall>v r i. ID vol = Some v \<longrightarrow> Some r \<in> set (Labels vol) \<longrightarrow> ref_ID r = Some i \<longrightarrow> Carries v i \<in> fs)"

definition label_contract :: "'w os \<Rightarrow> 'w towerclient \<Rightarrow> ('w \<Rightarrow> label_fact set) \<Rightarrow> bool" where
  "label_contract os tc facts \<longleftrightarrow> labels_kept os tc facts \<and>
     (\<forall>q x vol vols x'. tc_GetVMVolumes tc q x = (Inr (Some vol # vols), x') \<longrightarrow> labels_true vol (facts x')) \<and>
     (\<forall>p x t ts x' vol. tc_CreateVMVolume tc p x = (Inr (Some t # ts), x') \<longrightarrow> wtv_Data t = Some vol \<longrightarrow>
        labels_true vol (facts x')) \<and>
     (\<forall>k v x lb lbs x' i. tc_GetLabels tc k v x = (Inr (Some lb # lbs), x') \<longrightarrow> label_ID lb = Some i \<longrightarrow>
        Named i k v \<in> facts x') \<and>
     (\<forall>k v x t ts x' lb i. tc_CreateLabel tc k v x = (Inr (Some t # ts), x') \<longrightarrow> wtl_Data t = Some lb \<longrightarrow>
        label_ID lb = Some i \<longrightarrow> Named i k v \<in> facts x') \<and>
     (\<forall>i v x t ts x'. tc_AddLabelsToResources tc [i] v x = (Inr (Some t # ts), x') \<longrightarrow>
        takes_effect os tc (TaskID t) (\<lambda>y. Carries v i \<in> facts y) x')"

lemma label_kept:
  assumes "label_contract os tc facts"
  shows "tc_GetLabels tc k v x = (r, x') \<Longrightarrow> facts x \<subseteq> facts x'"
    and "tc_CreateLabel tc k v x = (r1, x') \<Longrightarrow> facts x \<subseteq> facts x'"
    and "tc_AddLabelsToResources tc ls u x = (r2, x') \<Longrightarrow> facts x \<subseteq> facts x'"
    and "tc_GetTasks tc i x = (r3, x') \<Longrightarrow> facts x \<subseteq> facts x'"
    and "os_Now os x = (t, x') \<Longrightarrow> facts x \<subseteq> facts x'"
    and "facts x \<subseteq> facts (os_Sleep os d x)"
  using assms unfolding label_contract_def labels_kept_def grows_def by (metis snd_conv)+

lemma label_contractD:
  assumes "label_contract os tc facts"
  shows "\<forall>q x vol vols x'. tc_GetVMVolumes tc q x = (Inr (Some vol # vols), x') \<longrightarrow> labels_true vol (facts x')"
    and "\<forall>p x t ts x' vol. tc_CreateVMVolume tc p x = (Inr (Some t # ts), x') \<longrightarrow> wtv_Data t = Some vol \<longrightarrow>
        labels_true vol (facts x')"
    and "\<forall>k v x lb lbs x' i. tc_GetLabels tc k v x = (Inr (Some lb # lbs), x') \<longrightarrow> label_ID lb = Some i \<longrightarrow>
        Named i k v \<in> facts x'"
    and "\<forall>k v x t ts x' lb i. tc_CreateLabel tc k v x = (Inr (Some t # ts), x') \<longrightarrow> wtl_Data t = Some lb \<longrightarrow>
        label_ID lb = Some i \<longrightarrow> Named i k v \<in> facts x'"
    and "\<forall>i v x t ts x'. tc_AddLabelsToResources tc [i] v x = (Inr (Some t # ts), x') \<longrightarrow>
        takes_effect os tc (TaskID t) (\<lambda>y. Carries v i \<in> facts y) x'"
  using assms unfolding label_contract_def by simp_all

section \<open>The steps of CreateVolume\<close>

lemma waits_keep_labels:
  assumes "label_contract os tc facts" and "waits os tc i x y"
  shows "facts x \<subseteq> facts y"
  using assms(2) by induction (use label_kept(4-6) [OF assms(1)] in blast)+

lemma waitTask_keeps_labels:
  assumes "label_contract os (TowerClient c) facts" and "waitTask os c task w = (Ret (), w')"
  shows "facts (ext w) \<subseteq> facts (ext w')"
proof (rule waitTask_effect [OF assms(2)])
  show "takes_effect os (TowerClient c) task (\<lambda>y. facts (ext w) \<subseteq> facts y) (ext w)"
    using waits_keep_labels [OF assms(1)] label_kept(4) [OF assms(1)]
    by (fastforce simp: takes_effect_def split: option.split)
qed

lemma upsertLabel_named:
  assumes contract: "label_contract os (TowerClient c) facts"
    and run: "upsertLabel c k v w = (Ret (Some lb), w')" and id: "label_ID lb = Some i"
  shows "facts (ext w) \<subseteq> facts (ext w') \<and> Named i k v \<in> facts (ext w')"
proof -
  from run obtain payload w1 where get: "GetLabels c k v w = (Ret payload, w1)" and rest:
    "(if length payload > 0 then index0E payload else bindE (CreateLabel c k v) (\<lambda>created. if length created = 0
        then failE (Errorf ''create label for key %s value %s failed'' [AStr k, AStr v])
        else bindE (first_of created) (\<lambda>l. returnE (wtl_Data l)))) w1 = (Ret (Some lb), w')"
    unfolding upsertLabel_def bindE_Ret by blast
  from get have ask: "tc_GetLabels (TowerClient c) k v (ext w) = (Inr payload, ext w1)" by (auto simp: GetLabels_def callE_Ret)
  note keep = label_kept [OF contract] and answers = label_contractD [OF contract, rule_format]
  show ?thesis
  proof (cases payload)
    case (Cons p ps)
    with rest ask answers(3) keep(1) id show ?thesis by (auto simp: ret_iffs)
  next
    case Nil
    with rest obtain created t where "tc_CreateLabel (TowerClient c) k v (ext w1) = (Inr created, ext w')"
      "created \<noteq> []" "hd created = Some t" "wtl_Data t = Some lb" by (auto simp: CreateLabel_def ret_iffs split: if_splits)
    moreover from this obtain ts where "created = Some t # ts" by (cases created) auto
    ultimately show ?thesis using answers(4) id keep(1) [OF ask] keep(2) by blast
  qed
qed

lemma createVmVolume_labels:
  assumes contract: "label_contract os (TowerClient c) facts"
    and run: "createVmVolume os c cl n sp sz sh w = (Ret (Some vol), w')"
  shows "labels_true vol (facts (ext w'))"
  using run
proof (cases rule: createVmVolume_Ret)
  case (found vols)
  then show ?thesis by (rule label_contractD(1) [OF contract, rule_format])
next
  case (created x cluster cls x2 t ts w3)
  from label_contractD(2) [OF contract, rule_format, OF created(3,4)] waitTask_keeps_labels [OF contract created(5)]
  show ?thesis unfolding labels_true_def by blast
qed

lemma reconcileVolumeLabel_carries:
  assumes contract: "label_contract os (TowerClient c) facts"
    and run: "reconcileVolumeLabel os c vol w = (Ret (), w')" and id: "ID vol = Some v" and vol: "labels_true vol (facts (ext w))"
  shows "\<exists>i. Named i defaultClusterLabelKey (ClusterID c) \<in> facts (ext w') \<and> Carries v i \<in> facts (ext w')"
  using run id
proof (cases rule: reconcileVolumeLabel_Ret)
  case (present lb j r)
  with upsertLabel_named [OF contract present(1,2)] vol id show ?thesis unfolding labels_true_def by blast
next
  case (added lb w1 j t ts w2)
  from label_kept(3) [OF contract added(3)] waitTask_keeps_labels [OF contract added(4)]
    upsertLabel_named [OF contract added(1,2)] have "Named j defaultClusterLabelKey (ClusterID c) \<in> facts (ext w')" by blast
  moreover have "Carries v j \<in> facts (ext w')"
    by (rule waitTask_effect [OF added(4) label_contractD(5) [OF contract, rule_format, OF added(3)]])
  ultimately show ?thesis by blast
qed

section \<open>A platform with labels\<close>

text \<open>
  An instance for the examples: every key and value have a label, named by both; the table of
  mounts of the example state serves as the table of labels, with the volume as the device.
\<close>

definition label_name :: "string \<Rightarrow> string \<Rightarrow> string" where "label_name k v = k @ ''='' @ v"

definition label_facts :: "demo \<Rightarrow> label_fact set" where
  "label_facts x = {Named (label_name k v) k v | k v. True} \<union> {Carries (Device m) (Path m) | m. m \<in> set (d_mounts x)}"

definition label_tower :: "demo towerclient" where
  "label_tower = demo_tower\<lparr>
     tc_GetVMVolumes := (\<lambda>q x. (Inr [], x)),
     tc_CreateVMVolume := (\<lambda>p x. (Inr [Some \<lparr>wtv_TaskID = Some ''t'', wtv_Data = Some (demo_volume\<lparr>Labels := []\<rparr>)\<rparr>], x)),
     tc_GetLabels := (\<lambda>k v x. (Inr [], x)),
     tc_CreateLabel := (\<lambda>k v x. (Inr [Some \<lparr>wtl_TaskID = None, wtl_Data = Some \<lparr>label_ID = Some (label_name k v)\<rparr>\<rparr>], x)),
     tc_AddLabelsToResources := (\<lambda>ls v x. (Inr demo_task, x\<lparr>d_mounts :=
        map (\<lambda>l. \<lparr>Device = v, Path = l, Type = [], Opts = []\<rparr>) ls @ d_mounts x\<rparr>))\<rparr>"

definition label_config :: "demo DriverConfig" where
  "label_config = demo_config\<lparr>TowerClient := label_tower\<rparr>"

lemma label_GetTasks: "tc_GetTasks label_tower = tc_GetTasks demo_tower"
  by (simp add: label_tower_def)

lemma label_waits: "waits demo_os label_tower i x y \<Longrightarrow> label_facts y = label_facts x"
  by (induction rule: waits.induct) (auto simp: label_GetTasks label_facts_def)

lemma label_demo_contract: "label_contract demo_os label_tower label_facts"
proof -
  have "labels_kept demo_os label_tower label_facts"
    by (auto simp: labels_kept_def grows_def label_tower_def label_facts_def)
  moreover have effect: "takes_effect demo_os label_tower (Some ''t'') (\<lambda>y. Carries v i \<in> label_facts y) x"
    if "Carries v i \<in> label_facts x" for v i x
    using that label_waits by (fastforce simp: takes_effect_def label_GetTasks)
  have "takes_effect demo_os label_tower (TaskID t) (\<lambda>y. Carries v i \<in> label_facts y) x'"
    if "tc_AddLabelsToResources label_tower [i] v x = (Inr (Some t # ts), x')" for i v x t ts x'
  proof -
    from that have "TaskID t = Some ''t''" "Carries v i \<in> label_facts x'"
      by (force simp: label_tower_def demo_task_def label_facts_def)+
    with effect show ?thesis by simp
  qed
  ultimately show ?thesis unfolding label_contract_def
    by (intro conjI allI impI) (auto simp: label_tower_def labels_true_def label_facts_def)
qed

section \<open>Properties\<close>

text \<open>
  C27: A volume \<open>CreateVolume\<close> reports carries the label of the Kubernetes cluster: when CloudTower
  tells the truth about labels, takes none away meanwhile, and has attached an accepted label
  once its task has succeeded, then after a success there is a label on the reported volume that
  stands for the cluster's key and identifier.
\<close>

theorem CreateVolume_labelled:
  assumes "label_contract os (TowerClient c) facts" and "CreateVolume os c req w = (Ret vol, w')"
  shows "\<exists>i. Named i ''k8s-cluster-id'' (ClusterID c) \<in> facts (ext w') \<and> Carries (vol_VolumeId vol) i \<in> facts (ext w')"
proof -
  from assms(2) obtain cl n sp sz sh v w1 where v: "createVmVolume os c cl n sp sz sh w = (Ret (Some v), w1)"
    "reconcileVolumeLabel os c v w1 = (Ret (), w')" "ID v = Some (vol_VolumeId vol)"
    by (auto simp: CreateVolume_def Let_def ret_iffs split: if_splits)
  from reconcileVolumeLabel_carries [OF assms(1) v(2,3) createVmVolume_labels [OF assms(1) v(1)]]
  show ?thesis by (simp add: defaultClusterLabelKey_def)
qed

theorem CreateVolume_labelled_witness:
  "\<exists>i. Carries ''vol-1'' i \<in> label_facts (ext (snd (CreateVolume demo_os label_config demo_create demo_world)))"
proof -
  have wait: "waitTask demo_os label_config (Some i) w = (Ret (), w\<lparr>trace := trace w @ [EvNow, EvGetTasks i]\<rparr>)" for i w
    by (rule demo_wait) (simp add: label_config_def label_GetTasks)
  have name: "ToLower demo_unicode ''PVC-1'' = ''pvc-1''" by code_simp
  have tower: "TowerClient label_config = label_tower" "ClusterID label_config = ''k8s''" by (simp_all add: label_config_def)
  obtain w' where run: "CreateVolume demo_os label_config demo_create demo_world = (Ret \<lparr>vol_VolumeId = ''vol-1'',
      vol_CapacityBytes = 1073741824, vol_ContentSource = None, vol_VolumeContext = Map.empty\<rparr>, w')"
    by (simp add: CreateVolume_def demo_create_def getVolumeSize_def GetRequiredBytes_def GetLimitBytes_def createVmVolume_def
        reconcileVolumeLabel_def upsertLabel_def addVolumeLabels_def name tower api_defs bindE_def callE_def returnE_def wrapE_def
        Let_def wait demo_volume_def demo_task_def label_tower_def)
  from label_demo_contract have "label_contract demo_os (TowerClient label_config) label_facts" by (simp add: tower)
  from CreateVolume_labelled [OF this run] run show ?thesis by auto
qed

end
