(* ===== verification/Node_Refinement.thy ===== *)
theory Node_Refinement
  imports Node_Correct State_Logic
begin

text \<open>
  The node service against an abstract mount table, the set of the paths something is mounted on:
  staging and publishing add a path, unstaging and unpublishing remove one, and nothing else
  touches the table.  \<open>mount_table\<close> is what is relied on of the operating system and of
  \<open>k8s.io/utils/mount\<close>: a mount or unmount either has its effect or fails without one, the other
  calls leave the table alone, and the check for a mount point is right, which it documents for
  mounts across file systems, the only ones the driver makes.
\<close>

section \<open>What the operating system promises\<close>

definition table_kept :: "'w os \<Rightarrow> 'w kmount \<Rightarrow> 'w towerclient \<Rightarrow> ('w \<Rightarrow> string set) \<Rightarrow> bool" where
  "table_kept os km tc view \<longleftrightarrow>
     (\<forall>p x. view (snd (os_Stat os p x)) = view x) \<and> (\<forall>p x. view (snd (os_MkdirAll os p x)) = view x) \<and>
     (\<forall>p x. view (snd (os_Create os p x)) = view x) \<and> (\<forall>p x. view (snd (os_RemoveAll os p x)) = view x) \<and>
     (\<forall>p x. view (snd (os_EvalSymlinks os p x)) = view x) \<and> (\<forall>k x. view (snd (os_sh os k x)) = view x) \<and>
     (\<forall>k as x. view (snd (os_command os k as x)) = view x) \<and>
     (\<forall>p x. view (snd (km_IsLikelyNotMountPoint km p x)) = view x) \<and> (\<forall>x. view (snd (km_List km x)) = view x) \<and>
     (\<forall>d x. view (snd (km_GetDiskFormat km d x)) = view x) \<and> (\<forall>p x. view (snd (km_ParseMountInfo km p x)) = view x) \<and>
     (\<forall>n v x. view (snd (tc_GetVMDisks tc n v x)) = view x)"

definition table_told :: "'w os \<Rightarrow> 'w kmount \<Rightarrow> ('w \<Rightarrow> string set) \<Rightarrow> bool" where
  "table_told os km view \<longleftrightarrow>
     (\<forall>p x b x'. km_IsLikelyNotMountPoint km p x = (Inr b, x') \<longrightarrow> (b \<longleftrightarrow> p \<notin> view x)) \<and>
     (\<forall>p x e x'. os_Stat os p x = (Inl e, x') \<longrightarrow> IsNotExist e \<longrightarrow> p \<notin> view x)"

definition table_changed :: "'w kmount \<Rightarrow> ('w \<Rightarrow> string set) \<Rightarrow> bool" where
  "table_changed km view \<longleftrightarrow>
     (\<forall>s p f opts x r x'. km_Mount km s p f opts x = (r, x') \<longrightarrow>
        view x' = (case r of Inl _ \<Rightarrow> view x | Inr _ \<Rightarrow> insert p (view x))) \<and>
     (\<forall>s p f opts x r x'. km_FormatAndMount km s p f opts x = (r, x') \<longrightarrow>
        view x' = (case r of Inl _ \<Rightarrow> view x | Inr _ \<Rightarrow> insert p (view x))) \<and>
     (\<forall>p x r x'. km_Unmount km p x = (r, x') \<longrightarrow> view x' = (case r of Inl _ \<Rightarrow> view x | Inr _ \<Rightarrow> view x - {p}))"

definition mount_table :: "'w os \<Rightarrow> 'w kmount \<Rightarrow> 'w DriverConfig \<Rightarrow> ('w \<Rightarrow> string set) \<Rightarrow> bool" where
  "mount_table os km c view \<longleftrightarrow> cfg_Mount c = NewMount os km \<and> table_kept os km (TowerClient c) view \<and>
     table_told os km view \<and> table_changed km view"

section \<open>The helpers of the node service\<close>

lemma tells_kept:
  assumes "mount_table os km c view"
  shows "tells view (\<lambda>_ _. True) (callE (EvMkdirAll p) (os_MkdirAll os p))"
    "tells view (\<lambda>_ _. True) (callE (EvCreate p) (os_Create os p))"
    "tells view (\<lambda>_ _. True) (callE (EvRemoveAll p) (os_RemoveAll os p))"
    "tells view (\<lambda>_ _. True) (evalSymlinks os p)"
    "tells view (\<lambda>_ _. True) (shE os k)" "tells view (\<lambda>_ _. True) (commandE os k as)"
    "tells view (\<lambda>_ _. True) (kList km)" "tells view (\<lambda>_ _. True) (kGetDiskFormat km d)"
    "tells view (\<lambda>_ _. True) (callE (EvParseMountInfo p) (km_ParseMountInfo km p))"
    "tells view (\<lambda>_ _. True) (GetVMDisks c n v)"
  using assms unfolding mount_table_def table_kept_def
  by (auto simp: api_defs tells_def callE_def split: prod.splits sum.splits) (metis snd_conv)+

lemma tells_mount_point:
  assumes "mount_table os km c view"
  shows "tells view (\<lambda>b s. b \<longleftrightarrow> p \<notin> s) (m_IsLikelyNotMountPoint (cfg_Mount c) p)"
proof -
  from assms have "m_IsLikelyNotMountPoint (cfg_Mount c) p = callE (EvIsLikelyNotMountPoint p) (km_IsLikelyNotMountPoint km p)"
    by (simp add: mount_table_def NewMount_def kIsLikelyNotMountPoint_def)
  with assms show ?thesis unfolding mount_table_def table_kept_def table_told_def
    by (auto intro!: tells_callE) (metis snd_conv)+
qed

lemma tells_Stat:
  assumes "mount_table os km c view"
  shows "tells view (\<lambda>st s. \<forall>e. st = Inl e \<longrightarrow> IsNotExist e \<longrightarrow> p \<notin> s) (attemptE (callE (EvStat p) (os_Stat os p)))"
  using assms unfolding mount_table_def table_kept_def table_told_def
  by (intro tells_attemptE) (metis snd_conv, blast)

lemma tells_createDir:
  assumes "mount_table os km c view"
  shows "tells view (\<lambda>_ _. True) (createDir os p)"
  unfolding createDir_def
  by (rule tells_bindE [OF tells_Stat [OF assms]]) (auto intro!: tells_rules tells_kept [OF assms] split: sum.splits)

lemma tells_createFile:
  assumes "mount_table os km c view"
  shows "tells view (\<lambda>_ _. True) (createFile os p)"
  unfolding createFile_def
  by (rule tells_bindE [OF tells_Stat [OF assms]]) (auto intro!: tells_rules tells_kept [OF assms] split: sum.splits)

lemma tells_lookups:
  assumes "mount_table os km c view"
  shows "tells view (\<lambda>_ _. True) (m_GetMountPoint (cfg_Mount c) p)" "tells view (\<lambda>_ _. True) (m_GetMountRef (cfg_Mount c) p)"
  using assms unfolding mount_table_def
  by (auto simp: NewMount_def GetMountPoint_def GetMountRef_def intro!: tells_rules tells_kept [OF assms])

lemma tells_conflicts:
  assumes "mount_table os km c view"
  shows "tells view (\<lambda>_ _. True) (detectBlockVolumeConflict c d p)"
    "tells view (\<lambda>_ _. True) (detectMountVolumeConflict c d p v)"
  unfolding detectBlockVolumeConflict_def detectMountVolumeConflict_def Let_def
  by (intro tells_rules tells_lookups [OF assms] TrueI)+

lemma tells_getVolumeDevice:
  assumes "mount_table os km c view"
  shows "tells view (\<lambda>_ _. True) (getVolumeDevice os c v)"
  unfolding getVolumeDevice_def matchDevice_def Let_def
  by (intro tells_rules tells_kept [OF assms] TrueI)
     (auto intro!: tells_rules tells_kept [OF assms] simp: case_prod_beta split: option.splits)

lemma does_mount:
  assumes "mount_table os km c view"
  shows "does view P (insert p) (m_Mount (cfg_Mount c) d p f opts)"
  using assms unfolding mount_table_def table_changed_def
  by (auto simp: NewMount_def kMount_def intro!: does_callE)

lemma does_FormatAndMount:
  assumes "mount_table os km c view"
  shows "does view P (insert p) (m_FormatAndMount (cfg_Mount c) d p f opts)"
proof -
  have mount: "does view P (insert p) (kMount km d p f opts)" for P opts
    using assms unfolding mount_table_def table_changed_def by (auto simp: kMount_def intro!: does_callE)
  have format: "tells view (\<lambda>_ _. True) (formatWithOption os km d p f opts)" for opts
    unfolding formatWithOption_def
    by (intro tells_rules tells_kept [OF assms])
       (auto intro!: tells_rules simp: case_prod_beta split: option.splits)
  have "m_FormatAndMount (cfg_Mount c) = FormatAndMount os km" using assms by (simp add: mount_table_def NewMount_def)
  moreover have "does view P (insert p) (callE e (km_FormatAndMount km d p f opts))" for e
    using assms unfolding mount_table_def table_changed_def by (auto intro!: does_callE)
  ultimately show ?thesis unfolding FormatAndMount_def by (simp only:) (intro does_if does_after [OF format] mount)
qed

lemma does_unmount:
  assumes "mount_table os km c view"
  shows "does view P (\<lambda>s. s - {p}) (m_Unmount (cfg_Mount c) p)"
  using assms unfolding mount_table_def table_changed_def
  by (auto simp: NewMount_def kUnmount_def intro!: does_callE)

lemma does_mountBlockVolume:
  assumes "mount_table os km c view"
  shows "does view P (insert p) (mountBlockVolume os c d p ro)"
  unfolding mountBlockVolume_def Let_def
  by (rule does_after [OF tells_createFile [OF assms]], rule does_after [OF tells_wrapE [OF tells_mount_point [OF assms]]],
      rule does_if, rule does_nothing [OF tells_conflicts(1) [OF assms]])
     (auto intro!: does_wrapE does_mount [OF assms])

lemma does_mountMountVolume:
  assumes "mount_table os km c view"
  shows "does view P (insert p) (mountMountVolume os c d p v ro)"
  unfolding mountMountVolume_def Let_def
  by (rule does_after [OF tells_createDir [OF assms]], rule does_after [OF tells_wrapE [OF tells_mount_point [OF assms]]],
      rule does_if, rule does_nothing [OF tells_conflicts(2) [OF assms]])
     (auto intro!: does_wrapE does_FormatAndMount [OF assms])

lemma does_bindMountVolume:
  assumes "mount_table os km c view"
  shows "does view P (insert p) (bindMountVolume os c s p v ro)"
  unfolding bindMountVolume_def Let_def
  by (rule does_after [OF tells_createDir [OF assms]], rule does_after [OF tells_wrapE [OF tells_mount_point [OF assms]]],
      rule does_after [OF tells_wrapE [OF tells_lookups(1) [OF assms]]], rule does_if,
      rule does_nothing [OF tells_seq [OF tells_derefE tells_conflicts(2) [OF assms]]])
     (auto intro!: does_wrapE does_mount [OF assms])

lemma does_unmountVolume:
  assumes "mount_table os km c view"
  shows "does view P (\<lambda>s. s - {p}) (unmountVolume os c p)"
proof -
  have ret: "tells view (\<lambda>_ _. True) (returnE ())" by (rule tells_pure) simp
  have remove: "tells view (\<lambda>_ _. True) (wrapE g (callE (EvRemoveAll p) (os_RemoveAll os p)))" for g
    by (intro tells_rules tells_kept [OF assms])
  have umount: "does view (\<lambda>s. Q s \<and> (b \<longleftrightarrow> p \<notin> s)) (\<lambda>s. s - {p})
      (if \<not> b then wrapE g (m_Unmount (cfg_Mount c) p) else returnE ())" for Q b g
    by (rule does_if, rule does_wrapE [OF does_unmount [OF assms]], rule does_nothing [OF ret]) auto
  have exists: "does view Q (\<lambda>s. s - {p})
      (bindE (wrapE f (m_IsLikelyNotMountPoint (cfg_Mount c) p)) (\<lambda>b.
       bindE (if \<not> b then wrapE g (m_Unmount (cfg_Mount c) p) else returnE ()) (\<lambda>_.
       wrapE h (callE (EvRemoveAll p) (os_RemoveAll os p)))))" for Q f g h
    by (rule does_after [OF tells_wrapE [OF tells_mount_point [OF assms]]], rule does_then [OF umount remove])
  show ?thesis unfolding unmountVolume_def
    by (rule does_after [OF tells_Stat [OF assms]])
       (auto intro!: exists does_if does_failE does_nothing [OF ret] split: sum.splits)
qed

section \<open>Histories of the node\<close>

datatype node_call =
    Stage NodeStageVolumeRequest
  | Unstage "string \<times> string"
  | NodePublish NodePublishVolumeRequest
  | NodeUnpublish "string \<times> string"

fun node_perform :: "'w os \<Rightarrow> 'w DriverConfig \<Rightarrow> node_call \<Rightarrow> ('w, unit) io" where
  "node_perform os c (Stage req) = NodeStageVolume os c req"
| "node_perform os c (Unstage req) = NodeUnstageVolume os c req"
| "node_perform os c (NodePublish req) = NodePublishVolume os c req"
| "node_perform os c (NodeUnpublish req) = NodeUnpublishVolume os c req"

text \<open>The path a call is about, and what it is to do to the table.\<close>

fun target :: "node_call \<Rightarrow> string" where
  "target (Stage req) = generateStagingPath (stage_StagingTargetPath req) (stage_VolumeId req)"
| "target (Unstage (v, p)) = generateStagingPath p v"
| "target (NodePublish req) = npub_TargetPath req"
| "target (NodeUnpublish (v, p)) = p"

fun mounting_call :: "node_call \<Rightarrow> bool" where
  "mounting_call (Stage _) = True"
| "mounting_call (Unstage _) = False"
| "mounting_call (NodePublish _) = True"
| "mounting_call (NodeUnpublish _) = False"

definition table_op :: "node_call \<Rightarrow> string set \<Rightarrow> string set" where
  "table_op k s = (if mounting_call k then insert (target k) s else s - {target k})"

fun table_run :: "string set \<Rightarrow> (node_call \<times> bool) list \<Rightarrow> string set \<Rightarrow> bool" where
  "table_run s [] s' \<longleftrightarrow> s' = s"
| "table_run s ((k, ok) # h) s' \<longleftrightarrow>
     (\<exists>s1. (s1 = table_op k s \<or> \<not> ok \<and> s1 = s) \<and> table_run s1 h s')"

inductive node_history :: "'w os \<Rightarrow> 'w DriverConfig \<Rightarrow> 'w world \<Rightarrow> (node_call \<times> bool) list \<Rightarrow> 'w world \<Rightarrow> bool"
  for os c where
  no_calls: "node_history os c w [] w"
| next_call: "node_perform os c k w = (r, w1) \<Longrightarrow> node_history os c w1 h w' \<Longrightarrow>
    node_history os c w ((k, r = Ret ()) # h) w'"

lemma does_node_perform:
  assumes "mount_table os km c view"
  shows "does view (\<lambda>_. True) (table_op k) (node_perform os c k)"
proof (cases k)
  case (Stage req)
  then have op: "table_op k = insert (target k)" by (simp add: table_op_def fun_eq_iff)
  show ?thesis unfolding op unfolding Stage node_perform.simps target.simps NodeStageVolume_def Let_def
    by (intro does_if does_failE does_after [OF tells_getVolumeDevice [OF assms]] does_mountBlockVolume [OF assms]
        does_mountMountVolume [OF assms])
next
  case (Unstage req)
  obtain v p where req: "req = (v, p)" by fastforce
  with Unstage have op: "table_op k = (\<lambda>s. s - {target k})" by (simp add: table_op_def fun_eq_iff)
  show ?thesis unfolding op unfolding Unstage req node_perform.simps target.simps NodeUnstageVolume_def Let_def prod.case
    by (intro does_if does_failE does_unmountVolume [OF assms])
next
  case (NodePublish req)
  then have op: "table_op k = insert (target k)" by (simp add: table_op_def fun_eq_iff)
  show ?thesis unfolding op unfolding NodePublish node_perform.simps target.simps NodePublishVolume_def Let_def
    by (intro does_if does_failE does_after [OF tells_getVolumeDevice [OF assms]] does_mountBlockVolume [OF assms]
        does_bindMountVolume [OF assms])
next
  case (NodeUnpublish req)
  obtain v p where req: "req = (v, p)" by fastforce
  with NodeUnpublish have op: "table_op k = (\<lambda>s. s - {target k})" by (simp add: table_op_def fun_eq_iff)
  show ?thesis unfolding op unfolding NodeUnpublish req node_perform.simps target.simps NodeUnpublishVolume_def Let_def prod.case
    by (intro does_if does_failE does_unmountVolume [OF assms])
qed

lemma node_history_refines:
  assumes "mount_table os km c view" and "node_history os c w h w'"
  shows "table_run (view (ext w)) h (view (ext w'))"
  using assms(2)
proof induction
  case (next_call k w r w1 h w')
  have "view (ext w1) = table_op k (view (ext w)) \<or> r \<noteq> Ret () \<and> view (ext w1) = view (ext w)"
    using does_node_perform [OF assms(1), of k] next_call(1) unfolding does_def by (cases "r = Ret ()") (metis (full_types))+
  with next_call.IH show ?case by auto
qed simp

section \<open>The table after a history\<close>

lemma table_run_untouched:
  assumes "table_run s h s'" and "p \<notin> target ` fst ` set h"
  shows "p \<in> s' \<longleftrightarrow> p \<in> s"
  using assms
proof (induction h arbitrary: s)
  case (Cons ka h)
  obtain k ok where ka: "ka = (k, ok)" by fastforce
  with Cons.prems(1) obtain s1 where s1: "s1 = table_op k s \<or> \<not> ok \<and> s1 = s" "table_run s1 h s'" by auto
  from Cons.prems(2) ka have "target k \<noteq> p" "p \<notin> target ` fst ` set h" by auto
  moreover from s1(1) this(1) have "p \<in> s1 \<longleftrightarrow> p \<in> s" by (auto simp: table_op_def split: if_splits)
  ultimately show ?case using Cons.IH [OF s1(2)] by simp
qed simp

lemma table_run_append: "table_run s (h @ h') s' \<longleftrightarrow> (\<exists>s1. table_run s h s1 \<and> table_run s1 h' s')"
proof (induction h arbitrary: s)
  case (Cons ka h)
  obtain k ok where "ka = (k, ok)" by fastforce
  with Cons show ?case by (simp only: append_Cons table_run.simps) blast
qed simp

section \<open>A node that keeps its promises\<close>

text \<open>The example node, with mount points among the paths that exist.\<close>

definition table_os :: "demo os" where
  "table_os = demo_os\<lparr>os_Stat := (\<lambda>p x.
     (if p \<in> set (d_files x) \<or> p \<in> Path ` set (d_mounts x) then Inr True else Inl (NotExistErr p), x))\<rparr>"

definition table_config :: "demo DriverConfig" where
  "table_config = demo_config\<lparr>cfg_Mount := NewMount table_os demo_kmount\<rparr>"

definition mounted_paths :: "demo \<Rightarrow> string set" where
  "mounted_paths x = Path ` set (d_mounts x)"

lemma table_contract: "mount_table table_os demo_kmount table_config mounted_paths"
proof -
  have "table_kept table_os demo_kmount demo_tower mounted_paths"
    by (simp add: table_kept_def table_os_def mounted_paths_def)
  moreover have "table_told table_os demo_kmount mounted_paths"
    by (auto simp: table_told_def table_os_def mounted_paths_def list_ex_iff split: if_splits)
  moreover have "table_changed demo_kmount mounted_paths"
    by (auto simp: table_changed_def mounted_paths_def)
  ultimately show ?thesis by (simp add: mount_table_def table_config_def)
qed

lemma table_os_simps: "os_sh table_os k x = ((demo_sh k, None), x)" "os_unicode table_os = demo_unicode"
  by (simp_all add: table_os_def)

lemma table_getVolumeDevice:
  "getVolumeDevice table_os table_config v w =
    (Ret ''/dev/vdb'', w\<lparr>trace := trace w @ [EvGetVMDisks ''node-1'' v, EvSh lsblkCmd, EvSh (udevCmd ''vda''), EvSh (udevCmd ''vdb'')]\<rparr>)"
proof -
  have "udev_answers table_os (\<lambda>d. demo_sh (udevCmd d)) [''vda'', ''vdb'']" by (simp add: udev_answers_def table_os_simps)
  from matchDevice_loop [OF this] show ?thesis
    by (simp add: getVolumeDevice_def GetVMDisks_def bindE_def callE_def shE_def returnE_def demo_device table_config_def
        table_os_simps)
qed

definition table_block :: NodeStageVolumeRequest where
  "table_block = demo_stage\<lparr>stage_VolumeCapability := Some \<lparr>cap_AccessType = Some BlockAccess, cap_AccessMode = Some SINGLE_NODE_WRITER\<rparr>\<rparr>"

lemma table_target: "target (Stage table_block) = ''/s/vol-1''"
  by (simp add: table_block_def demo_stage_def demo_staging_path)

text \<open>The example history: a block volume is staged on a fresh node.\<close>

definition table_staged :: "demo world" where
  "table_staged = snd (NodeStageVolume table_os table_config table_block demo_world)"

lemma table_history: "node_history table_os table_config demo_world [(Stage table_block, True)] table_staged"
proof -
  have "NodeStageVolume table_os table_config table_block demo_world = (Ret (), table_staged)"
    unfolding table_staged_def
    by (simp add: NodeStageVolume_def table_block_def demo_stage_def demo_staging_path GetBlock_def Let_def
        bindE_step [OF table_getVolumeDevice])
       (simp add: mountBlockVolume_def createFile_def table_config_def table_os_def api_defs go_defs Let_def
        demo_world_def demo_state_def)
  then have "node_perform table_os table_config (Stage table_block) demo_world = (Ret (), table_staged)" by simp
  from next_call [OF this no_calls] show ?thesis by simp
qed

section \<open>Properties\<close>





end
