(* ===== verification/Lifecycle.thy ===== *)
theory Lifecycle
  imports Prelude
begin

text \<open>
  The goroutines of the process.  \<open>main\<close> of \<open>cmd/csi-driver/main.go\<close> closes \<open>stopCh\<close> on a signal
  and, with a pprof port, keeps a profiling server in a \<open>wait.Until\<close> loop; a goroutine of
  \<open>Driver.Run\<close> (\<open>pkg/driver/driver.go\<close>) waits for \<open>stopCh\<close> and calls \<open>stop\<close>, which stops the gRPC
  server if there is one by then; on a node \<open>NodeLivenessServer.Run\<close> (\<open>pkg/driver/liveness.go\<close>)
  opens a listener that another goroutine closes after \<open>stopCh\<close>; and \<open>Run\<close> goes through its own
  steps meanwhile.  The goroutines are interleaved freely.  Of \<open>grpc.Server\<close> the steps use what
  it documents: \<open>Stop\<close> makes a running \<open>Serve\<close> return without error and a later one return
  \<open>ErrServerStopped\<close> at once; a gRPC listener that fails by itself, which would end \<open>Serve\<close> too,
  is left out.  Of \<open>wait.Until\<close>: it looks at the channel before each round and after it.
\<close>

text \<open>
  Where \<open>Run\<close> is: before \<open>d.grpcServer\<close> is set, between that and \<open>Serve\<close> (registration and
  listening), in \<open>Serve\<close>, or returned, with which the process ends.
\<close>

datatype phase = Starting | Created | Serving | Ended

datatype listener = Unopened | Open | Closed

text \<open>The profiling goroutine: not started, at the channel, in \<open>ListenAndServe\<close>, or returned.\<close>

datatype pprof = PprofOff | PprofNext | PprofListening | PprofDone

text \<open>What \<open>Run\<close> returned to \<open>main\<close>, and the log entries of the profiling goroutine with the
  value their \<open>%v\<close> shows: \<open>None\<close> is nil.\<close>

datatype run_error = StartError | ErrServerStopped

datatype pprof_entry = ListenFailed "run_error option" | StartFailed "run_error option"

text \<open>\<open>stop_saw\<close> is what \<open>stop\<close> found when it ran: whether \<open>d.grpcServer\<close> was set.\<close>

record process =
  on_node :: bool
  run_phase :: phase
  run_err :: "run_error option"
  signalled :: bool
  stop_saw :: "bool option"
  liveness :: listener
  pprof :: pprof
  pprof_log :: "pprof_entry list"

definition process_start :: "bool \<Rightarrow> int \<Rightarrow> process" where
  "process_start node port =
     \<lparr>on_node = node, run_phase = Starting, run_err = None, signalled = False, stop_saw = None, liveness = Unopened,
      pprof = (if port \<noteq> 0 then PprofNext else PprofOff), pprof_log = []\<rparr>"

definition server_stopped :: "process \<Rightarrow> bool" where
  "server_stopped s = (stop_saw s = Some True)"

definition driver_stop :: "process \<Rightarrow> process" where
  "driver_stop s = s\<lparr>stop_saw := Some (run_phase s \<noteq> Starting)\<rparr>"

definition run_returns :: "run_error option \<Rightarrow> process \<Rightarrow> process" where
  "run_returns e s = s\<lparr>run_phase := Ended, run_err := e\<rparr>"

definition Serve :: "process \<Rightarrow> process" where
  "Serve s = (if server_stopped s then run_returns (Some ErrServerStopped) s else s\<lparr>run_phase := Serving\<rparr>)"

text \<open>
  The steps the code takes once it is scheduled.  The deferred function of the profiling
  goroutine logs what \<open>recover\<close> returns, which is nil when nothing panicked.
\<close>

inductive driver_step :: "process \<Rightarrow> process \<Rightarrow> bool" where
  new_server: "run_phase s = Starting \<Longrightarrow> driver_step s (s\<lparr>run_phase := Created\<rparr>)"
| open_liveness: "run_phase s = Created \<Longrightarrow> on_node s \<Longrightarrow> liveness s = Unopened \<Longrightarrow> driver_step s (s\<lparr>liveness := Open\<rparr>)"
| serve: "run_phase s = Created \<Longrightarrow> (on_node s \<longrightarrow> liveness s \<noteq> Unopened) \<Longrightarrow> driver_step s (Serve s)"
| serve_returns: "run_phase s = Serving \<Longrightarrow> server_stopped s \<Longrightarrow> driver_step s (run_returns None s)"
| run_stop: "run_phase s \<noteq> Ended \<Longrightarrow> signalled s \<Longrightarrow> stop_saw s = None \<Longrightarrow> driver_step s (driver_stop s)"
| close_liveness: "run_phase s \<noteq> Ended \<Longrightarrow> signalled s \<Longrightarrow> liveness s = Open \<Longrightarrow> driver_step s (s\<lparr>liveness := Closed\<rparr>)"
| pprof_round: "run_phase s \<noteq> Ended \<Longrightarrow> pprof s = PprofNext \<Longrightarrow> \<not> signalled s \<Longrightarrow> driver_step s (s\<lparr>pprof := PprofListening\<rparr>)"
| pprof_return: "run_phase s \<noteq> Ended \<Longrightarrow> pprof s = PprofNext \<Longrightarrow> signalled s \<Longrightarrow>
    driver_step s (s\<lparr>pprof := PprofDone, pprof_log := pprof_log s @ [StartFailed None]\<rparr>)"

text \<open>
  What comes from outside: the signal, an error while \<open>Run\<close> starts, and an error of the
  profiling server, whose entry prints the variable \<open>err\<close> of \<open>main\<close>.
\<close>

inductive outside_step :: "process \<Rightarrow> process \<Rightarrow> bool" where
  close_stopCh: "run_phase s \<noteq> Ended \<Longrightarrow> \<not> signalled s \<Longrightarrow> outside_step s (s\<lparr>signalled := True\<rparr>)"
| start_error: "run_phase s = Created \<Longrightarrow> outside_step s (run_returns (Some StartError) s)"
| pprof_fails: "run_phase s \<noteq> Ended \<Longrightarrow> pprof s = PprofListening \<Longrightarrow>
    outside_step s (s\<lparr>pprof := PprofNext, pprof_log := pprof_log s @ [ListenFailed (run_err s)]\<rparr>)"

definition process_step :: "process \<Rightarrow> process \<Rightarrow> bool" where
  "process_step s s' \<longleftrightarrow> driver_step s s' \<or> outside_step s s'"

definition reachable :: "process \<Rightarrow> bool" where
  "reachable s \<longleftrightarrow> (\<exists>node port. process_step\<^sup>*\<^sup>* (process_start node port) s)"

text \<open>A state in which the code has nothing left to do.\<close>

definition quiescent :: "process \<Rightarrow> bool" where
  "quiescent s \<longleftrightarrow> (\<nexists>s'. driver_step s s')"

lemmas lifecycle_defs = process_step_def driver_stop_def run_returns_def Serve_def server_stopped_def

lemma process_step_cases:
  assumes "process_step s s'" and "driver_step s s' \<Longrightarrow> P" and "outside_step s s' \<Longrightarrow> P"
  shows P
  using assms unfolding process_step_def by blast

section \<open>Runs end\<close>

fun phase_left :: "phase \<Rightarrow> nat" where
  "phase_left Starting = 3" | "phase_left Created = 2" | "phase_left Serving = 1" | "phase_left Ended = 0"

fun listener_left :: "listener \<Rightarrow> nat" where
  "listener_left Unopened = 2" | "listener_left Open = 1" | "listener_left Closed = 0"

fun pprof_left :: "pprof \<Rightarrow> nat" where
  "pprof_left PprofListening = 2" | "pprof_left PprofNext = 1" | "pprof_left PprofDone = 0" | "pprof_left PprofOff = 0"

text \<open>After the signal every step makes progress; before it the profiling server may be tried again and again.\<close>

definition steps_left :: "process \<Rightarrow> nat" where
  "steps_left s = phase_left (run_phase s) + (if stop_saw s = None then 1 else 0) + listener_left (liveness s) + pprof_left (pprof s)"

lemma driver_step_left: "driver_step s s' \<Longrightarrow> signalled s \<Longrightarrow> signalled s' \<and> steps_left s' < steps_left s"
  by (induction rule: driver_step.induct) (auto simp: steps_left_def lifecycle_defs)

lemma outside_step_left: "outside_step s s' \<Longrightarrow> signalled s \<Longrightarrow> signalled s' \<and> steps_left s' < steps_left s"
  by (induction rule: outside_step.induct) (auto simp: steps_left_def lifecycle_defs)

lemma process_step_wf: "wfP (\<lambda>s' s. signalled s \<and> process_step s s')"
  by (rule wfp_if_convertible_to_nat [of _ steps_left])
     (auto simp: process_step_def dest: driver_step_left outside_step_left)

section \<open>Reachable states\<close>

definition process_inv :: "process \<Rightarrow> bool" where
  "process_inv s \<longleftrightarrow>
     (run_phase s \<noteq> Ended \<longrightarrow> run_err s = None) \<and> (\<forall>e \<in> set (pprof_log s). e \<in> {ListenFailed None, StartFailed None}) \<and>
     (run_phase s = Serving \<and> on_node s \<longrightarrow> liveness s \<noteq> Unopened) \<and>
     (\<not> signalled s \<longrightarrow> stop_saw s = None \<and> liveness s \<noteq> Closed)"

lemma driver_step_inv: "driver_step s s' \<Longrightarrow> process_inv s \<Longrightarrow> process_inv s'"
  by (induction rule: driver_step.induct) (auto simp: process_inv_def lifecycle_defs)

lemma outside_step_inv: "outside_step s s' \<Longrightarrow> process_inv s \<Longrightarrow> process_inv s'"
  by (induction rule: outside_step.induct) (auto simp: process_inv_def lifecycle_defs)

lemma reachable_inv:
  assumes "reachable s"
  shows "process_inv s"
proof -
  from assms obtain node port where "process_step\<^sup>*\<^sup>* (process_start node port) s" unfolding reachable_def by blast
  then show ?thesis
  proof (induction rule: rtranclp_induct)
    case base
    show ?case by (simp add: process_inv_def process_start_def)
  next
    case (step s s')
    then show ?case by (auto elim: process_step_cases intro: driver_step_inv outside_step_inv)
  qed
qed

lemma quiescent_phase:
  assumes "quiescent s" and "signalled s" and "process_inv s"
  shows "run_phase s = Ended \<or> (run_phase s = Serving \<and> stop_saw s = Some False \<and> (on_node s \<longrightarrow> liveness s = Closed))"
proof -
  note quiet = assms(1) [unfolded quiescent_def]
  have "run_phase s \<noteq> Starting" using quiet new_server by blast
  moreover have "run_phase s \<noteq> Created" using quiet open_liveness serve by blast
  moreover have "stop_saw s = Some False \<and> (on_node s \<longrightarrow> liveness s = Closed)" if "run_phase s = Serving"
  proof -
    have active: "run_phase s \<noteq> Ended" using that by simp
    have "stop_saw s \<noteq> None" using quiet run_stop [OF active assms(2)] by blast
    moreover have "liveness s \<noteq> Open" using quiet close_liveness [OF active assms(2)] by blast
    moreover have "stop_saw s \<noteq> Some True" using quiet that serve_returns by (auto simp: server_stopped_def)
    moreover have "on_node s \<longrightarrow> liveness s \<noteq> Unopened" using assms(3) that by (simp add: process_inv_def)
    ultimately show ?thesis by (metis (full_types) listener.exhaust option.exhaust)
  qed
  ultimately show ?thesis by (metis phase.exhaust)
qed

section \<open>Properties\<close>

text \<open>
  C40: A signal ends the driver: after it no interleaving goes on forever, and when the code has
  nothing left to do the process has ended, unless \<open>stop\<close> ran before \<open>Run\<close> had set the gRPC
  server.  Only then does it serve on, and on a node its liveness listener is closed, so that it
  no longer counts as alive.
\<close>

theorem driver_stops:
  "wfP (\<lambda>s' s. signalled s \<and> process_step s s') \<and>
   (\<forall>s. reachable s \<and> signalled s \<and> quiescent s \<longrightarrow>
      run_phase s = Ended \<or> (run_phase s = Serving \<and> stop_saw s = Some False \<and> (on_node s \<longrightarrow> liveness s = Closed)))"
  using process_step_wf quiescent_phase reachable_inv by blast

text \<open>That exception is reachable: a signal in the first moments is lost and the driver serves on.\<close>

definition early_stop :: process where
  "early_stop = (process_start True 0)\<lparr>run_phase := Serving, signalled := True, stop_saw := Some False, liveness := Closed\<rparr>"

lemma early_stop_quiescent: "quiescent early_stop"
  by (auto simp: quiescent_def early_stop_def process_start_def server_stopped_def elim: driver_step.cases)

lemma early_stop_reachable: "reachable early_stop"
proof -
  let ?a = "process_start True 0" and ?b = "(process_start True 0)\<lparr>signalled := True\<rparr>"
  let ?c = "?b\<lparr>stop_saw := Some False\<rparr>"
  let ?d = "?c\<lparr>run_phase := Created\<rparr>"
  have "process_step ?a ?b" using close_stopCh [of ?a] by (simp add: process_step_def process_start_def)
  moreover have "process_step ?b ?c" using run_stop [of ?b] by (simp add: process_step_def driver_stop_def process_start_def)
  moreover have "process_step ?c ?d" using new_server [of ?c] by (simp add: process_step_def process_start_def)
  moreover have "process_step ?d (?d\<lparr>liveness := Open\<rparr>)" using open_liveness [of ?d] by (simp add: process_step_def process_start_def)
  moreover have "process_step (?d\<lparr>liveness := Open\<rparr>) (?d\<lparr>liveness := Closed\<rparr>)"
    using close_liveness [of "?d\<lparr>liveness := Open\<rparr>"] by (simp add: process_step_def process_start_def)
  moreover have "process_step (?d\<lparr>liveness := Closed\<rparr>) early_stop"
    using serve [of "?d\<lparr>liveness := Closed\<rparr>"]
    by (simp add: process_step_def process_start_def Serve_def server_stopped_def early_stop_def)
  ultimately show ?thesis unfolding reachable_def by (meson rtranclp.rtrancl_into_rtrancl rtranclp.rtrancl_refl)
qed

theorem driver_stops_witness:
  "reachable early_stop \<and> signalled early_stop \<and> quiescent early_stop \<and>
   (run_phase early_stop = Ended \<or> run_phase early_stop = Serving \<and> stop_saw early_stop = Some False \<and> liveness early_stop = Closed)"
proof -
  have "signalled early_stop" "on_node early_stop" by (simp_all add: early_stop_def process_start_def)
  with driver_stops early_stop_quiescent early_stop_reachable show ?thesis by blast
qed

text \<open>
  A serving node that was not signalled answers liveness calls, and the log of the profiling
  goroutine never shows the error it is about: every entry prints nil.
\<close>

lemma serving_is_live: "reachable s \<Longrightarrow> run_phase s = Serving \<Longrightarrow> on_node s \<Longrightarrow> \<not> signalled s \<Longrightarrow> liveness s = Open"
  using reachable_inv [of s] by (cases "liveness s") (auto simp: process_inv_def)

lemma pprof_log_nil: "reachable s \<Longrightarrow> e \<in> set (pprof_log s) \<Longrightarrow> e = ListenFailed None \<or> e = StartFailed None"
  using reachable_inv [of s] by (auto simp: process_inv_def)

end
