(* ===== verification/Unmarshal_Map.thy ===== *)
theory Unmarshal_Map
  imports Strconv
begin

text \<open>
  \<open>pkg/utils/unmarshal_map.go\<close>: the decoder that fills a struct from a map of strings, as its
  field tags say.  Package \<open>reflect\<close> works on values with their types: a value is modelled with
  its kind, a pointer with the type it points to, a struct with its fields.  The receiver is
  changed in place, also by a call that fails half-way, so the model returns the receiver beside
  the outcome.  A field's tag is the value of the key \<open>map\<close> in it, which \<open>StructTag.Get\<close> reads;
  \<open>strconv.ParseFloat\<close> and the floating-point values are parameters, the record \<open>floats\<close>.
\<close>

section \<open>Errors\<close>

text \<open>\<open>err\<close> of an \<open>ErrInvalidField\<close> is nil when the number was parsed and does not fit the field.\<close>

datatype map_error =
    ErrInvalidField string string "num_error option"
  | ErrFieldNotFound string
  | ErrUnsupportedKind string string
  | ErrNilMap
  | ErrInvalidReceiver

datatype outcome = Done | Failed map_error | Panicked

section \<open>Types and values\<close>

datatype int_kind = KInt | KInt8 | KInt16 | KInt32 | KInt64
datatype uint_kind = KUint | KUint8 | KUint16 | KUint32 | KUint64 | KUintptr
datatype float_kind = KFloat32 | KFloat64

text \<open>\<open>TOther\<close> stands for the kinds the decoder knows nothing about, under the name \<open>Kind.String\<close> gives.\<close>

datatype ty =
    TString
  | TInt int_kind
  | TUint uint_kind
  | TFloat float_kind
  | TBool
  | TPtr ty
  | TStruct "(string \<times> string \<times> bool \<times> ty) list"
  | TOther string

text \<open>
  A pointer carries the type it points to and, unless it is nil, what it points to.  A field is
  its name, its tag, whether it is exported, and its value.
\<close>

datatype 'f val =
    VString string
  | VInt int_kind int
  | VUint uint_kind nat
  | VFloat float_kind 'f
  | VBool bool
  | VPtr ty "'f val option"
  | VStruct "(string \<times> string \<times> bool \<times> 'f val) list"
  | VOther string

type_synonym 'f field = "string \<times> string \<times> bool \<times> 'f val"

record 'f floats =
  fl_ParseFloat :: "nat \<Rightarrow> string \<Rightarrow> num_error + 'f"
  fl_Overflow :: "float_kind \<Rightarrow> 'f \<Rightarrow> bool"
  fl_zero :: 'f

fun int_bits :: "int_kind \<Rightarrow> nat" where
  "int_bits KInt = 64" | "int_bits KInt8 = 8" | "int_bits KInt16 = 16" | "int_bits KInt32 = 32" | "int_bits KInt64 = 64"

fun uint_bits :: "uint_kind \<Rightarrow> nat" where
  "uint_bits KUint = 64" | "uint_bits KUint8 = 8" | "uint_bits KUint16 = 16" | "uint_bits KUint32 = 32"
| "uint_bits KUint64 = 64" | "uint_bits KUintptr = 64"

fun float_bits :: "float_kind \<Rightarrow> nat" where
  "float_bits KFloat32 = 32" | "float_bits KFloat64 = 64"

fun int_name :: "int_kind \<Rightarrow> string" where
  "int_name KInt = ''int''" | "int_name KInt8 = ''int8''" | "int_name KInt16 = ''int16''"
| "int_name KInt32 = ''int32''" | "int_name KInt64 = ''int64''"

fun uint_name :: "uint_kind \<Rightarrow> string" where
  "uint_name KUint = ''uint''" | "uint_name KUint8 = ''uint8''" | "uint_name KUint16 = ''uint16''"
| "uint_name KUint32 = ''uint32''" | "uint_name KUint64 = ''uint64''" | "uint_name KUintptr = ''uintptr''"

fun float_name :: "float_kind \<Rightarrow> string" where
  "float_name KFloat32 = ''float32''" | "float_name KFloat64 = ''float64''"

fun kind_name :: "'f val \<Rightarrow> string" where
  "kind_name (VString _) = ''string''"
| "kind_name (VInt k _) = int_name k"
| "kind_name (VUint k _) = uint_name k"
| "kind_name (VFloat k _) = float_name k"
| "kind_name (VBool _) = ''bool''"
| "kind_name (VPtr _ _) = ''ptr''"
| "kind_name (VStruct _) = ''struct''"
| "kind_name (VOther s) = s"

text \<open>\<open>reflect.Value.OverflowInt\<close> and \<open>OverflowUint\<close>.\<close>

definition OverflowInt :: "int_kind \<Rightarrow> int \<Rightarrow> bool" where
  "OverflowInt k x = (\<not> (- (2 ^ (int_bits k - 1)) \<le> x \<and> x < 2 ^ (int_bits k - 1)))"

definition OverflowUint :: "uint_kind \<Rightarrow> nat \<Rightarrow> bool" where
  "OverflowUint k x = (\<not> x < 2 ^ uint_bits k)"

text \<open>The zero value of a type, which \<open>reflect.New\<close> allocates.\<close>

fun zero_val :: "'f floats \<Rightarrow> ty \<Rightarrow> 'f val" where
  "zero_val fl TString = VString []"
| "zero_val fl (TInt k) = VInt k 0"
| "zero_val fl (TUint k) = VUint k 0"
| "zero_val fl (TFloat k) = VFloat k (fl_zero fl)"
| "zero_val fl TBool = VBool False"
| "zero_val fl (TPtr t) = VPtr t None"
| "zero_val fl (TStruct fs) = VStruct (map (\<lambda>(n, tag, ex, t). (n, tag, ex, zero_val fl t)) fs)"
| "zero_val fl (TOther s) = VOther s"

section \<open>Tags\<close>

definition parseTag :: "string \<Rightarrow> string \<times> string" where
  "parseTag tag =
     (case Index (CHR '','') tag of
        Some firstComma \<Rightarrow> (take firstComma tag, drop (firstComma + 1) tag)
      | None \<Rightarrow> (tag, []))"

text \<open>The loop over the options; \<open>None\<close> is \<open>"", false\<close>.\<close>

fun findOption :: "string \<Rightarrow> string list \<Rightarrow> string option" where
  "findOption key [] = None"
| "findOption key (opt # opts) =
     (if opt = key then Some []
      else case Index (CHR ''='') opt of
             Some equalIndex \<Rightarrow>
               if take equalIndex opt = key then Some (drop (equalIndex + 1) opt) else findOption key opts
           | None \<Rightarrow> findOption key opts)"

definition tagOptions_Get :: "string \<Rightarrow> string \<Rightarrow> string option" where
  "tagOptions_Get t key = (if length t = 0 then None else findOption key (Split (CHR '','') t))"

section \<open>The decoder\<close>

text \<open>A store into a field panics when the field is not exported.\<close>

definition store :: "bool \<Rightarrow> 'f val \<Rightarrow> 'f val \<Rightarrow> outcome \<times> 'f val" where
  "store settable ef new = (if settable then (Done, new) else (Panicked, ef))"

text \<open>The switch on the kind of the field.\<close>

fun setValue :: "'f floats \<Rightarrow> string \<Rightarrow> bool \<Rightarrow> string \<Rightarrow> 'f val \<Rightarrow> outcome \<times> 'f val" where
  "setValue fl key settable value (VString s) = store settable (VString s) (VString value)"
| "setValue fl key settable value (VInt k i) =
     (case ParseInt value of
        Inl err \<Rightarrow> (Failed (ErrInvalidField key (int_name k) (Some err)), VInt k i)
      | Inr v \<Rightarrow>
          if OverflowInt k v then (Failed (ErrInvalidField key (int_name k) None), VInt k i)
          else store settable (VInt k i) (VInt k v))"
| "setValue fl key settable value (VUint k i) =
     (case ParseUint value of
        Inl err \<Rightarrow> (Failed (ErrInvalidField key (uint_name k) (Some err)), VUint k i)
      | Inr v \<Rightarrow>
          if OverflowUint k v then (Failed (ErrInvalidField key (uint_name k) None), VUint k i)
          else store settable (VUint k i) (VUint k v))"
| "setValue fl key settable value (VFloat k f) =
     (case fl_ParseFloat fl (float_bits k) value of
        Inl err \<Rightarrow> (Failed (ErrInvalidField key (float_name k) (Some err)), VFloat k f)
      | Inr v \<Rightarrow>
          if fl_Overflow fl k v then (Failed (ErrInvalidField key (float_name k) None), VFloat k f)
          else store settable (VFloat k f) (VFloat k v))"
| "setValue fl key settable value (VBool b) =
     (case ParseBool value of
        Inl err \<Rightarrow> (Failed (ErrInvalidField key ''bool'' (Some err)), VBool b)
      | Inr v \<Rightarrow> store settable (VBool b) (VBool v))"
| "setValue fl key settable value ef = (Failed (ErrUnsupportedKind key (kind_name ef)), ef)"

text \<open>
  A nil pointer field is first pointed at a new zero value, which stays there when the switch
  then fails; any other pointer is left to the switch.
\<close>

definition setField :: "'f floats \<Rightarrow> string \<Rightarrow> bool \<Rightarrow> string \<Rightarrow> 'f val \<Rightarrow> outcome \<times> 'f val" where
  "setField fl key settable value ef =
     (case ef of
        VPtr t None \<Rightarrow>
          if settable
          then (case setValue fl key True value (zero_val fl t) of (r, v) \<Rightarrow> (r, VPtr t (Some v)))
          else (Panicked, ef)
      | _ \<Rightarrow> setValue fl key settable value ef)"

definition fieldKey :: "'f field \<Rightarrow> string" where
  "fieldKey f = (case f of (name, tag, _, _) \<Rightarrow>
     (let key = fst (parseTag tag) in if length key = 0 then name else key))"

text \<open>One round of the loop over the fields.\<close>

definition unmarshalField :: "'f floats \<Rightarrow> (string \<rightharpoonup> string) \<Rightarrow> 'f field \<Rightarrow> outcome \<times> 'f field" where
  "unmarshalField fl m f =
     (case f of (name, tag, exported, ef) \<Rightarrow>
      let key = fieldKey f; options = snd (parseTag tag);
          required = (tagOptions_Get options ''required'' \<noteq> None);
          defVal = tagOptions_Get options ''default'' in
      case m key of
        None \<Rightarrow>
          if required \<and> defVal = None then (Failed (ErrFieldNotFound key), f)
          else (case defVal of
                  None \<Rightarrow> (Done, f)
                | Some value \<Rightarrow>
                    (case setField fl key exported value ef of (r, v) \<Rightarrow> (r, (name, tag, exported, v))))
      | Some value \<Rightarrow>
          (case setField fl key exported value ef of (r, v) \<Rightarrow> (r, (name, tag, exported, v))))"

fun unmarshalFields :: "'f floats \<Rightarrow> (string \<rightharpoonup> string) \<Rightarrow> 'f field list \<Rightarrow> outcome \<times> 'f field list" where
  "unmarshalFields fl m [] = (Done, [])"
| "unmarshalFields fl m (f # fs) =
     (case unmarshalField fl m f of
        (Done, f') \<Rightarrow> (case unmarshalFields fl m fs of (r, fs') \<Rightarrow> (r, f' # fs'))
      | (r, f') \<Rightarrow> (r, f' # fs))"

text \<open>The number of pointers to follow before a value that is not one; nil pointers count by their type.\<close>

fun ty_depth :: "ty \<Rightarrow> nat" where
  "ty_depth (TPtr t) = Suc (ty_depth t)"
| "ty_depth _ = 0"

fun depth :: "'f val \<Rightarrow> nat" where
  "depth (VPtr t None) = Suc (ty_depth t)"
| "depth (VPtr t (Some v)) = Suc (depth v)"
| "depth _ = 0"

lemma depth_zero_val [simp]: "depth (zero_val fl t) = ty_depth t"
  by (cases t) simp_all

text \<open>
  The receiver \<open>rv\<close>, the value in the interface \<open>i\<close>.  \<open>NumField\<close> of a type that is not a struct
  panics.
\<close>

function unmarshal :: "'f floats \<Rightarrow> (string \<rightharpoonup> string) \<Rightarrow> 'f val \<Rightarrow> outcome \<times> 'f val" where
  "unmarshal fl m rv =
     (case rv of
        VPtr t (Some elem) \<Rightarrow>
          (case elem of
             VPtr t2 p \<Rightarrow>
               (let elem' = (if Option.is_none p then VPtr t2 (Some (zero_val fl t2)) else elem) in
                case unmarshal fl m elem' of (r, elem'') \<Rightarrow> (r, VPtr t (Some elem'')))
           | VStruct fs \<Rightarrow> (case unmarshalFields fl m fs of (r, fs') \<Rightarrow> (r, VPtr t (Some (VStruct fs'))))
           | _ \<Rightarrow> (Panicked, rv))
      | _ \<Rightarrow> (Failed ErrInvalidReceiver, rv))"
  by pat_completeness auto
termination
  by (relation "measure (\<lambda>(fl, m, v). depth v)") (auto simp: Option.is_none_def split: option.splits)

declare unmarshal.simps [simp del]

text \<open>\<open>m = None\<close> is the nil map, \<open>i = None\<close> the nil interface.\<close>

definition UnmarshalMap ::
    "'f floats \<Rightarrow> (string \<rightharpoonup> string) option \<Rightarrow> 'f val option \<Rightarrow> outcome \<times> 'f val option" where
  "UnmarshalMap fl m i =
     (case m of
        None \<Rightarrow> (Failed ErrNilMap, i)
      | Some m' \<Rightarrow>
          (case i of
             None \<Rightarrow> (Failed ErrInvalidReceiver, i)
           | Some rv \<Rightarrow> (case unmarshal fl m' rv of (r, rv') \<Rightarrow> (r, Some rv'))))"

section \<open>Dynamic types\<close>

fun type_of :: "'f val \<Rightarrow> ty" where
  "type_of (VString _) = TString"
| "type_of (VInt k _) = TInt k"
| "type_of (VUint k _) = TUint k"
| "type_of (VFloat k _) = TFloat k"
| "type_of (VBool _) = TBool"
| "type_of (VPtr t _) = TPtr t"
| "type_of (VStruct fs) = TStruct (map (\<lambda>(n, tag, ex, v). (n, tag, ex, type_of v)) fs)"
| "type_of (VOther s) = TOther s"

text \<open>Integers are in the range of their kind and pointers point to a value of their type.\<close>

fun well_typed :: "'f val \<Rightarrow> bool" where
  "well_typed (VInt k i) = (\<not> OverflowInt k i)"
| "well_typed (VUint k n) = (\<not> OverflowUint k n)"
| "well_typed (VPtr t (Some v)) = (type_of v = t \<and> well_typed v)"
| "well_typed (VStruct fs) = (\<forall>f \<in> set fs. well_typed (snd (snd (snd f))))"
| "well_typed _ = True"

lemma type_of_zero_val [simp]: "type_of (zero_val fl t) = t"
proof (induction t)
  case (TStruct fs)
  then have "map ((\<lambda>(n, tag, ex, v). (n, tag, ex, type_of v)) \<circ> (\<lambda>(n, tag, ex, t). (n, tag, ex, zero_val fl t))) fs = map id fs"
    by (intro map_cong) auto
  then show ?case by (simp add: comp_def)
qed simp_all

lemma well_typed_zero_val [simp]: "well_typed (zero_val fl t)"
proof (induction t)
  case (TInt k)
  show ?case by (cases k) (simp_all add: OverflowInt_def)
next
  case (TUint k)
  show ?case by (cases k) (simp_all add: OverflowUint_def)
next
  case (TStruct fs)
  then show ?case by auto
qed simp_all

lemma setValue_typed:
  "setValue fl key st value ef = (r, v) \<Longrightarrow> well_typed ef \<Longrightarrow> type_of v = type_of ef \<and> well_typed v"
  by (cases ef) (auto simp: store_def split: sum.splits if_splits)

lemma setField_typed:
  assumes "setField fl key st value ef = (r, v)" and "well_typed ef"
  shows "type_of v = type_of ef \<and> well_typed v"
proof (cases "\<exists>t. ef = VPtr t None")
  case True
  then obtain t where ef: "ef = VPtr t None" ..
  show ?thesis
  proof (cases st)
    case True
    with assms(1) ef obtain u where "setValue fl key True value (zero_val fl t) = (r, u)" "v = VPtr t (Some u)"
      by (auto simp: setField_def split: prod.splits)
    with setValue_typed [OF this(1)] ef show ?thesis by simp
  qed (use assms ef in \<open>simp add: setField_def\<close>)
next
  case False
  then have "setField fl key st value ef = setValue fl key st value ef"
    by (auto simp: setField_def split: val.splits option.splits)
  with assms setValue_typed show ?thesis by metis
qed

lemma unmarshalField_typed:
  assumes "unmarshalField fl m (n, tag, ex, ef) = (r, f')" and "well_typed ef"
  obtains v where "f' = (n, tag, ex, v)" "type_of v = type_of ef" "well_typed v"
  using assms setField_typed
  by (fastforce simp: unmarshalField_def Let_def split: option.splits if_splits prod.splits)

lemma unmarshalFields_typed:
  "unmarshalFields fl m fs = (r, fs') \<Longrightarrow> well_typed (VStruct fs) \<Longrightarrow>
   type_of (VStruct fs') = type_of (VStruct fs) \<and> well_typed (VStruct fs')"
proof (induction fs arbitrary: r fs')
  case (Cons f fs)
  obtain n tag ex ef where f: "f = (n, tag, ex, ef)" by (cases f)
  obtain r1 f' where one: "unmarshalField fl m f = (r1, f')" by (rule prod.exhaust)
  from Cons.prems(2) f have wf: "well_typed ef" "well_typed (VStruct fs)" by auto
  from unmarshalField_typed [OF one [unfolded f] wf(1)] obtain v where
    v: "f' = (n, tag, ex, v)" "type_of v = type_of ef" "well_typed v" .
  show ?case
  proof (cases r1)
    case Done
    with Cons.prems(1) one obtain fs1 where "unmarshalFields fl m fs = (r, fs1)" "fs' = f' # fs1"
      by (auto split: prod.splits)
    with Cons.IH [OF this(1) wf(2)] f v show ?thesis by auto
  qed (use Cons.prems(1) one f v wf in auto)
qed simp

lemma unmarshal_typed:
  "unmarshal fl m rv = (r, rv') \<Longrightarrow> well_typed rv \<Longrightarrow> type_of rv' = type_of rv \<and> well_typed rv'"
proof (induction fl m rv arbitrary: r rv' rule: unmarshal.induct)
  case (1 fl m rv)
  show ?case
  proof (cases "\<exists>t t2 p. rv = VPtr t (Some (VPtr t2 p))")
    case True
    then obtain t t2 p where rv: "rv = VPtr t (Some (VPtr t2 p))" by blast
    let ?e = "if Option.is_none p then VPtr t2 (Some (zero_val fl t2)) else VPtr t2 p"
    obtain e' where e': "unmarshal fl m ?e = (r, e')" "rv' = VPtr t (Some e')"
      using "1.prems"(1) unfolding rv unmarshal.simps [of fl m "VPtr t (Some (VPtr t2 p))"]
      by (auto simp: Let_def split: prod.splits)
    have "well_typed ?e" "type_of ?e = TPtr t2" using "1.prems"(2) rv by (auto simp: Option.is_none_def)
    with "1.IH" [OF rv refl refl refl e'(1)] rv e'(2) "1.prems"(2) show ?thesis by simp
  next
    case False
    with "1.prems" show ?thesis
      by (auto simp: unmarshal.simps [of fl m rv] dest: unmarshalFields_typed split: val.splits option.splits prod.splits)
  qed
qed

section \<open>What the tags ask for\<close>

text \<open>The value a text denotes at a type, where the decoder knows the type.\<close>

fun decode :: "'f floats \<Rightarrow> ty \<Rightarrow> string \<Rightarrow> 'f val option" where
  "decode fl TString s = Some (VString s)"
| "decode fl (TInt k) s = (case ParseInt s of Inl _ \<Rightarrow> None | Inr v \<Rightarrow> if OverflowInt k v then None else Some (VInt k v))"
| "decode fl (TUint k) s = (case ParseUint s of Inl _ \<Rightarrow> None | Inr v \<Rightarrow> if OverflowUint k v then None else Some (VUint k v))"
| "decode fl (TFloat k) s =
     (case fl_ParseFloat fl (float_bits k) s of Inl _ \<Rightarrow> None | Inr v \<Rightarrow> if fl_Overflow fl k v then None else Some (VFloat k v))"
| "decode fl TBool s = (case ParseBool s of Inl _ \<Rightarrow> None | Inr v \<Rightarrow> Some (VBool v))"
| "decode fl _ s = None"

definition decode_field :: "'f floats \<Rightarrow> 'f val \<Rightarrow> string \<Rightarrow> 'f val option" where
  "decode_field fl v s =
     (case v of VPtr t None \<Rightarrow> map_option (\<lambda>u. VPtr t (Some u)) (decode fl t s) | _ \<Rightarrow> decode fl (type_of v) s)"

definition required :: "'f field \<Rightarrow> bool" where
  "required f = (tagOptions_Get (snd (parseTag (fst (snd f)))) ''required'' \<noteq> None)"

definition exported :: "'f field \<Rightarrow> bool" where
  "exported f = fst (snd (snd f))"

text \<open>The text for a field: the map's value under its key, or else the default of its tag.\<close>

definition fieldText :: "(string \<rightharpoonup> string) \<Rightarrow> 'f field \<Rightarrow> string option" where
  "fieldText m f = (case m (fieldKey f) of Some s \<Rightarrow> Some s
     | None \<Rightarrow> tagOptions_Get (snd (parseTag (fst (snd f)))) ''default'')"

definition accepts :: "'f floats \<Rightarrow> (string \<rightharpoonup> string) \<Rightarrow> 'f field \<Rightarrow> bool" where
  "accepts fl m f = (case fieldText m f of None \<Rightarrow> \<not> required f
     | Some s \<Rightarrow> exported f \<and> decode_field fl (snd (snd (snd f))) s \<noteq> None)"

definition filled :: "'f floats \<Rightarrow> (string \<rightharpoonup> string) \<Rightarrow> 'f field \<Rightarrow> 'f field" where
  "filled fl m f = (case f of (n, tag, ex, v) \<Rightarrow>
     (case fieldText m f of None \<Rightarrow> f | Some s \<Rightarrow> (n, tag, ex, case decode_field fl v s of None \<Rightarrow> v | Some u \<Rightarrow> u)))"

lemma setValue_decode:
  "setValue fl key st s v = (r, v') \<Longrightarrow>
     (r = Done \<longleftrightarrow> st \<and> decode fl (type_of v) s \<noteq> None) \<and> (r = Done \<longrightarrow> decode fl (type_of v) s = Some v') \<and>
     (r = Panicked \<longrightarrow> \<not> st) \<and> (\<forall>k. r \<noteq> Failed (ErrFieldNotFound k))"
  by (cases v) (auto simp: store_def split: sum.splits if_splits)

lemma setField_decode:
  assumes "setField fl key st s v = (r, v')"
  shows "(r = Done \<longleftrightarrow> st \<and> decode_field fl v s \<noteq> None) \<and> (r = Done \<longrightarrow> decode_field fl v s = Some v') \<and>
     (r = Panicked \<longrightarrow> \<not> st) \<and> (\<forall>k. r \<noteq> Failed (ErrFieldNotFound k))"
proof (cases "\<exists>t. v = VPtr t None")
  case True
  then obtain t where v: "v = VPtr t None" ..
  show ?thesis
  proof (cases st)
    case True
    with assms v obtain u where "setValue fl key True s (zero_val fl t) = (r, u)" "v' = VPtr t (Some u)"
      by (auto simp: setField_def split: prod.splits)
    with setValue_decode [OF this(1)] v True show ?thesis by (auto simp: decode_field_def)
  qed (use assms v in \<open>auto simp: setField_def\<close>)
next
  case False
  then have "setField fl key st s v = setValue fl key st s v" "decode_field fl v s = decode fl (type_of v) s"
    by (auto simp: setField_def decode_field_def split: val.splits option.splits)
  with assms setValue_decode show ?thesis by metis
qed

lemma unmarshalField_spec:
  assumes "unmarshalField fl m f = (r, f')"
  shows "(r = Done \<longleftrightarrow> accepts fl m f) \<and> (r = Done \<longrightarrow> f' = filled fl m f) \<and>
    (r = Failed (ErrFieldNotFound (fieldKey f)) \<longleftrightarrow> fieldText m f = None \<and> required f) \<and> \<not> (exported f \<and> r = Panicked)"
proof -
  obtain n tag ex v where f: "f = (n, tag, ex, v)" by (rule prod_cases4)
  let ?req = "tagOptions_Get (snd (parseTag tag)) ''required''" and ?def = "tagOptions_Get (snd (parseTag tag)) ''default''"
  show ?thesis
  proof (cases "fieldText m f")
    case None
    with assms f show ?thesis
      by (auto simp: unmarshalField_def Let_def fieldText_def accepts_def filled_def required_def split: option.splits if_splits)
  next
    case (Some s)
    obtain r1 v' where set: "setField fl (fieldKey f) ex s v = (r1, v')" by (rule prod.exhaust)
    have "unmarshalField fl m f = (r1, (n, tag, ex, v'))"
      using Some set f by (auto simp: unmarshalField_def Let_def fieldText_def split: option.splits)
    with assms setField_decode [OF set] Some f show ?thesis
      by (auto simp: accepts_def filled_def exported_def)
  qed
qed

lemma unmarshalFields_spec:
  "case unmarshalFields fl m fs of (r, fs') \<Rightarrow>
     (r = Done \<and> list_all (accepts fl m) fs \<and> fs' = map (filled fl m) fs) \<or>
     (\<exists>pre f f' post. fs = pre @ f # post \<and> list_all (accepts fl m) pre \<and> unmarshalField fl m f = (r, f') \<and> r \<noteq> Done \<and>
        fs' = map (filled fl m) pre @ f' # post)"
proof (induction fs)
  case (Cons f fs)
  obtain r f' where one: "unmarshalField fl m f = (r, f')" by (rule prod.exhaust)
  obtain r2 fs' where rest: "unmarshalFields fl m fs = (r2, fs')" by (rule prod.exhaust)
  show ?case
  proof (cases "r = Done")
    case False
    then have eq: "unmarshalFields fl m (f # fs) = (r, f' # fs)" using one by (cases r) simp_all
    show ?thesis unfolding eq prod.case
      by (rule disjI2, intro exI [of _ "[]"] exI [of _ f] exI [of _ f'] exI [of _ fs]) (use one False in simp)
  next
    case True
    then have eq: "unmarshalFields fl m (f # fs) = (r2, f' # fs')" and ok: "accepts fl m f" "f' = filled fl m f"
      using one rest unmarshalField_spec [OF one] by simp_all
    from Cons.IH [unfolded rest prod.case] show ?thesis
    proof (elim disjE exE conjE)
      fix pre g g' post
      assume "fs = pre @ g # post" "list_all (accepts fl m) pre" "unmarshalField fl m g = (r2, g')" "r2 \<noteq> Done"
        "fs' = map (filled fl m) pre @ g' # post"
      with ok show ?thesis unfolding eq prod.case
        by (intro disjI2 exI [of _ "f # pre"] exI [of _ g] exI [of _ g'] exI [of _ post]) simp
    qed (use ok eq in simp)
  qed
qed simp

section \<open>Round trip\<close>

text \<open>How a value is written into the map, for the kinds with a printed form.\<close>

fun render :: "'f val \<Rightarrow> string" where
  "render (VString s) = s"
| "render (VInt k i) = itoa i"
| "render (VUint k n) = utoa n"
| "render (VBool b) = (if b then ''true'' else ''false'')"
| "render (VPtr t (Some v)) = render v"
| "render _ = []"

fun printable :: "'f val \<Rightarrow> bool" where
  "printable (VString _) = True"
| "printable (VInt k i) = (\<not> OverflowInt k i)"
| "printable (VUint k n) = (\<not> OverflowUint k n)"
| "printable (VBool _) = True"
| "printable _ = False"

definition printable_field :: "'f val \<Rightarrow> bool" where
  "printable_field v = (case v of VPtr t (Some u) \<Rightarrow> printable u \<and> type_of u = t | _ \<Rightarrow> printable v)"

definition encodeMap :: "'f field list \<Rightarrow> string \<rightharpoonup> string" where
  "encodeMap fs = map_of (map (\<lambda>f. (fieldKey f, render (snd (snd (snd f))))) fs)"

definition blank :: "'f floats \<Rightarrow> 'f field \<Rightarrow> 'f field" where
  "blank fl f = (case f of (n, tag, ex, v) \<Rightarrow> (n, tag, ex, zero_val fl (type_of v)))"

lemma decode_render: "printable v \<Longrightarrow> decode fl (type_of v) (render v) = Some v"
proof (cases v)
  case (VInt k i)
  assume "printable v"
  then have "- (2 ^ 63) \<le> i" "i < 2 ^ 63" using VInt by (cases k; simp add: OverflowInt_def)+
  with \<open>printable v\<close> VInt ParseInt_itoa [of i] show ?thesis by simp
next
  case (VUint k n)
  assume "printable v"
  then have "n < 2 ^ 64" using VUint by (cases k; simp add: OverflowUint_def)
  with \<open>printable v\<close> VUint ParseUint_utoa [of n] show ?thesis by simp
qed (simp_all add: ParseBool_def)

lemma decode_field_blank:
  assumes "printable_field v"
  shows "decode_field fl (zero_val fl (type_of v)) (render v) = Some v"
proof (cases "\<exists>t u. v = VPtr t (Some u)")
  case True
  with assms show ?thesis by (auto simp: printable_field_def decode_field_def decode_render)
next
  case False
  then have "printable v" using assms by (auto simp: printable_field_def split: val.splits option.splits)
  moreover from this have "decode_field fl (zero_val fl (type_of v)) (render v) = decode fl (type_of v) (render v)"
    by (cases v) (simp_all add: decode_field_def)
  ultimately show ?thesis by (simp add: decode_render)
qed

lemma fieldKey_blank [simp]: "fieldKey (blank fl f) = fieldKey f"
  by (cases f rule: prod_cases4) (simp add: fieldKey_def blank_def)

lemma encodeMap_lookup:
  "distinct (map fieldKey fs) \<Longrightarrow> f \<in> set fs \<Longrightarrow> encodeMap fs (fieldKey f) = Some (render (snd (snd (snd f))))"
  unfolding encodeMap_def by (intro map_of_is_SomeI) (simp_all add: comp_def)

lemma filled_blank:
  assumes "distinct (map fieldKey fs)" and "f \<in> set fs" and "exported f \<and> printable_field (snd (snd (snd f)))"
  shows "accepts fl (encodeMap fs) (blank fl f)" and "filled fl (encodeMap fs) (blank fl f) = f"
proof -
  obtain n tag ex v where f: "f = (n, tag, ex, v)" by (rule prod_cases4)
  have "fieldText (encodeMap fs) (blank fl f) = Some (render v)"
    using encodeMap_lookup [OF assms(1,2)] f by (simp add: fieldText_def)
  moreover have "decode_field fl (zero_val fl (type_of v)) (render v) = Some v"
    using assms(3) f by (intro decode_field_blank) simp
  ultimately show "accepts fl (encodeMap fs) (blank fl f)" "filled fl (encodeMap fs) (blank fl f) = f"
    using assms(3) f by (simp_all add: accepts_def filled_def blank_def exported_def)
qed

section \<open>Properties\<close>

text \<open>
  C28: Decoding a struct does what its tags say.  Either every field was acceptable, and exactly
  the fields with a text in the map or a default hold the decoded value, the others being
  unchanged; or the call stopped at the first field that was not, with the fields before it
  filled and those after it untouched, reporting a missing field exactly when it is required and
  has neither text nor default, and without a panic when the field is exported.
\<close>

theorem UnmarshalMap_struct:
  "case UnmarshalMap fl (Some m) (Some (VPtr t (Some (VStruct fs)))) of (r, i') \<Rightarrow>
     (r = Done \<and> list_all (accepts fl m) fs \<and> i' = Some (VPtr t (Some (VStruct (map (filled fl m) fs))))) \<or>
     (\<exists>pre f f' post. fs = pre @ f # post \<and> list_all (accepts fl m) pre \<and> \<not> accepts fl m f \<and> r \<noteq> Done \<and>
        i' = Some (VPtr t (Some (VStruct (map (filled fl m) pre @ f' # post)))) \<and>
        (r = Failed (ErrFieldNotFound (fieldKey f))) = (fieldText m f = None) \<and> \<not> (exported f \<and> r = Panicked))"
proof -
  obtain r fs' where run: "unmarshalFields fl m fs = (r, fs')" by (rule prod.exhaust)
  then have eq: "UnmarshalMap fl (Some m) (Some (VPtr t (Some (VStruct fs)))) = (r, Some (VPtr t (Some (VStruct fs'))))"
    by (simp add: UnmarshalMap_def unmarshal.simps)
  from unmarshalFields_spec [of fl m fs, unfolded run prod.case] show ?thesis
  proof (elim disjE exE conjE)
    fix pre f f' post
    assume stop: "fs = pre @ f # post" "list_all (accepts fl m) pre" "unmarshalField fl m f = (r, f')" "r \<noteq> Done"
      "fs' = map (filled fl m) pre @ f' # post"
    have "\<not> accepts fl m f" "(r = Failed (ErrFieldNotFound (fieldKey f))) = (fieldText m f = None)"
      "\<not> (exported f \<and> r = Panicked)"
      using unmarshalField_spec [OF stop(3)] stop(4) by (auto simp: accepts_def)
    with stop show ?thesis unfolding eq prod.case
      by (intro disjI2 exI [of _ pre] exI [of _ f] exI [of _ f'] exI [of _ post]) simp
  qed (simp add: eq)
qed

text \<open>
  C29: Round trip of the map decoder: writing the fields of a struct into a map under their keys
  and decoding the map into a zero value of the same struct gives the struct back, for exported
  fields with pairwise distinct keys that hold strings, integers, unsigned integers, booleans or
  pointers to them, whatever options their tags have.
\<close>

theorem UnmarshalMap_roundtrip:
  assumes "distinct (map fieldKey fs)" and "\<forall>f \<in> set fs. exported f \<and> printable_field (snd (snd (snd f)))"
  shows "UnmarshalMap fl (Some (encodeMap fs)) (Some (VPtr t (Some (VStruct (map (blank fl) fs))))) =
    (Done, Some (VPtr t (Some (VStruct fs))))"
proof -
  have all: "list_all (accepts fl (encodeMap fs)) (map (blank fl) fs)" "map (filled fl (encodeMap fs)) (map (blank fl) fs) = fs"
    using filled_blank [OF assms(1)] assms(2) by (auto simp: list_all_iff map_idI)
  obtain r fs' where run: "unmarshalFields fl (encodeMap fs) (map (blank fl) fs) = (r, fs')" by (rule prod.exhaust)
  from unmarshalFields_spec [of fl "encodeMap fs" "map (blank fl) fs", unfolded run prod.case]
  have "r = Done \<and> fs' = fs"
  proof (elim disjE exE conjE)
    fix pre f f' post
    assume "map (blank fl) fs = pre @ f # post" "unmarshalField fl (encodeMap fs) f = (r, f')" "r \<noteq> Done"
    moreover from this(1) all(1) have "accepts fl (encodeMap fs) f" by simp
    ultimately show ?thesis using unmarshalField_spec by blast
  qed (use all(2) in simp)
  with run show ?thesis by (simp add: UnmarshalMap_def unmarshal.simps)
qed

definition demo_floats :: "unit floats" where
  "demo_floats = \<lparr>fl_ParseFloat = (\<lambda>_ _. Inl ErrSyntax), fl_Overflow = (\<lambda>_ _. False), fl_zero = ()\<rparr>"

definition demo_fields :: "unit field list" where
  "demo_fields =
     [(''Name'', ''name,required'', True, VString ''vol''), (''Count'', '',default=3'', True, VInt KInt8 (- 5)),
      (''Shared'', [], True, VPtr TBool (Some (VBool True)))]"

theorem UnmarshalMap_roundtrip_witness:
  "UnmarshalMap demo_floats (Some (encodeMap demo_fields))
     (Some (VPtr (TOther ''T'') (Some (VStruct (map (blank demo_floats) demo_fields))))) =
   (Done, Some (VPtr (TOther ''T'') (Some (VStruct demo_fields))))"
  by (rule UnmarshalMap_roundtrip)
     (simp_all add: demo_fields_def fieldKey_def parseTag_def exported_def printable_field_def OverflowInt_def)

text \<open>
  C30: Decoding keeps the receiver's type: whatever the map and the tags, and also when the call
  fails or panics half-way, the value the receiver ends with has the dynamic type it had, every
  pointer in it points to a value of its type, and every integer is in the range of its kind.
\<close>

theorem UnmarshalMap_typed:
  assumes "UnmarshalMap fl m (Some rv) = (r, i')" and "well_typed rv"
  shows "\<exists>rv'. i' = Some rv' \<and> type_of rv' = type_of rv \<and> well_typed rv'"
  using assms unmarshal_typed [of fl _ rv]
  by (auto simp: UnmarshalMap_def split: option.splits prod.splits)

theorem UnmarshalMap_typed_witness:
  "\<exists>rv'. UnmarshalMap demo_floats (Some [''Count'' \<mapsto> ''300''])
       (Some (VPtr (type_of (VStruct demo_fields)) (Some (VStruct demo_fields)))) =
     (Failed (ErrFieldNotFound ''name''), Some rv') \<and> well_typed rv'"
proof -
  let ?rv = "VPtr (type_of (VStruct demo_fields)) (Some (VStruct demo_fields))"
  have "well_typed ?rv" by (simp add: demo_fields_def OverflowInt_def)
  moreover have run: "UnmarshalMap demo_floats (Some [''Count'' \<mapsto> ''300'']) (Some ?rv) = (Failed (ErrFieldNotFound ''name''), Some ?rv)"
    by (simp add: UnmarshalMap_def unmarshal.simps demo_fields_def unmarshalField_def fieldKey_def parseTag_def
        tagOptions_Get_def Let_def)
  ultimately show ?thesis using UnmarshalMap_typed [OF run] by simp
qed

text \<open>A pointer field that is set already is refused, so decoding twice into one struct fails.\<close>

lemma UnmarshalMap_pointer_set:
  "m (fieldKey (n, tag, ex, VPtr t (Some v))) = Some s \<Longrightarrow>
   unmarshalField fl m (n, tag, ex, VPtr t (Some v)) =
     (Failed (ErrUnsupportedKind (fieldKey (n, tag, ex, VPtr t (Some v))) ''ptr''), (n, tag, ex, VPtr t (Some v)))"
  by (simp add: unmarshalField_def setField_def Let_def)

end
