(* ===== verification/Kube_Helpers.thy ===== *)
theory Kube_Helpers
  imports Go_Logic
begin

text \<open>
  \<open>pkg/utils/exec.go\<close>, \<open>kutils.go\<close> and \<open>kconfigmap.go\<close>: a command run in another root, the
  claim a volume is created for, and the ConfigMap client of a namespace.  The Kubernetes client
  is a parameter: \<open>getPVC\<close> reads a claim by namespace and name, \<open>configMaps\<close> is the client of a
  namespace.
\<close>

definition chrootBinary :: string where
  "chrootBinary = ''chroot''"

definition ExecCommandChroot :: "'w os \<Rightarrow> string \<Rightarrow> string list \<Rightarrow> ('w, string \<times> go_error option) io" where
  "ExecCommandChroot os newRoot commandWithArgs = commandE os chrootBinary ([newRoot] @ commandWithArgs)"

text \<open>A nil claim with a nil error is \<open>None\<close>.\<close>

definition GetPvcFromCreateVolumeRequest ::
    "(string \<Rightarrow> string \<Rightarrow> ('w, 'p) ext_fun) \<Rightarrow> CreateVolumeRequest option \<Rightarrow> ('w, 'p option) io" where
  "GetPvcFromCreateVolumeRequest getPVC req =
     (case req of
        None \<Rightarrow> failE (Errorf ''CreateVolumeRequest is nil'' [])
      | Some r \<Rightarrow>
          (case (create_Parameters r ''csi.storage.k8s.io/pvc/name'',
                 create_Parameters r ''csi.storage.k8s.io/pvc/namespace'') of
             (Some pvcName, Some pvcNamespace) \<Rightarrow>
               bindE (callE (EvGetPVC pvcNamespace pvcName) (getPVC pvcNamespace pvcName)) (\<lambda>pvc. returnE (Some pvc))
           | _ \<Rightarrow> returnE None))"

definition NewConfigMapClient :: "(string \<Rightarrow> 'w configmaps) \<Rightarrow> string \<Rightarrow> ('w, 'w configmaps) io" where
  "NewConfigMapClient configMaps namespace = returnE (configMaps namespace)"

text \<open>
  The claim is looked up only when the request names it completely, by exactly one read; without
  the metadata the answer is no claim and no error.
\<close>

lemma GetPvc_reads:
  "\<exists>evs. trace (snd (GetPvcFromCreateVolumeRequest getPVC req w)) = trace w @ evs \<and>
     evs = (case req of None \<Rightarrow> [] | Some r \<Rightarrow>
       (case (create_Parameters r ''csi.storage.k8s.io/pvc/name'', create_Parameters r ''csi.storage.k8s.io/pvc/namespace'') of
          (Some n, Some ns) \<Rightarrow> [EvGetPVC ns n] | _ \<Rightarrow> []))"
  by (auto simp: GetPvcFromCreateVolumeRequest_def go_defs split: option.splits prod.splits sum.splits)

end
