(* ===== verification/Json_Fuel.thy ===== *)
theory Json_Fuel
  imports Json_Codec
begin

text \<open>
  The fuel of the JSON parser is enough: every call of it consumes text, and fuel above the bound
  that \<open>parse_json\<close> uses does not change its answer, so that a parse that fails has met an error
  of the text and has not run out of fuel.
\<close>

section \<open>The fuel is enough\<close>

lemma skip_ws_length: "length (skip_ws s) \<le> length s"
  by (simp add: skip_ws_def length_dropWhile_le)

lemma skip_ws_Cons: "skip_ws s = c # cs \<Longrightarrow> length cs < length s"
  using skip_ws_length [of s] by simp

lemma prepend_SomeD: "prepend p r = Some (x, rest) \<Longrightarrow> \<exists>y. r = Some (y, rest)"
  by (auto simp: prepend_def)

lemma lex_string_shorter: "lex_string s = Some (x, r) \<Longrightarrow> length r < length s"
proof (induction s arbitrary: x r rule: length_induct)
  case (1 s)
  have IH: "length r' < length u" if "lex_string u = Some (y, r')" "length u < length s" for u y r'
    using "1.IH" that by blast
  from "1.prems" obtain c cs where s: "s = c # cs" by (cases s) (simp_all add: lex_string.simps(1))
  have step: "length r < length s" if "prepend p (lex_string u) = Some (x, r)" "length u < length s" for p u
    using prepend_SomeD [OF that(1)] IH [of u] that(2) by fastforce
  from "1.prems" show ?case unfolding s lex_string.simps(2) [of c cs]
    by (auto simp: s split: if_splits option.splits list.splits dest!: step [unfolded s])
qed

lemma dropWhile_length: "length xs \<le> n \<Longrightarrow> length (dropWhile p xs) \<le> n"
  using length_dropWhile_le [of p xs] by simp

lemma lex_int_shorter: "lex_int s = Some (n, r) \<Longrightarrow> length r < length s"
  by (auto simp: lex_int_def less_Suc_eq_le length_dropWhile_le split: list.splits if_splits)

lemma lex_frac_shorter: "lex_frac s = Some (n, r) \<Longrightarrow> length r \<le> length s"
  by (auto simp: lex_frac_def le_SucI length_dropWhile_le split: list.splits if_splits)

lemma lex_exp_shorter: "lex_exp s = Some (n, r) \<Longrightarrow> length r \<le> length s"
  by (auto simp: lex_exp_def Let_def split: list.splits if_splits intro!: dropWhile_length)

lemma lex_number_shorter:
  assumes "lex_number s = Some (n, r)"
  shows "length r < length s"
proof -
  obtain sg s0 where sg: "(case s of c # cs \<Rightarrow> if c = CHR ''-'' then ([c], cs) else ([], s) | [] \<Rightarrow> ([], s)) = (sg, s0)"
    by (rule prod.exhaust)
  then have "length s0 \<le> length s" by (auto split: list.splits if_splits)
  moreover from assms obtain i s1 f s2 x where lex: "lex_int s0 = Some (i, s1)" "lex_frac s1 = Some (f, s2)" "lex_exp s2 = Some (x, r)"
    unfolding lex_number_def sg by (auto split: option.splits)
  from lex_int_shorter [OF lex(1)] lex_frac_shorter [OF lex(2)] lex_exp_shorter [OF lex(3)] calculation
  show ?thesis by simp
qed

lemma parse_value_Suc_shorter:
  assumes "\<And>s vs r. parse_elems f (d - 1) s = Some (vs, r) \<Longrightarrow> length r < length s"
    and "\<And>s ms r. parse_members f (d - 1) s = Some (ms, r) \<Longrightarrow> length r < length s"
    and "parse_value (Suc f) d s = Some (v, r)"
  shows "length r < length s"
proof -
  from assms(3) obtain c cs where ws: "skip_ws s = c # cs" by (auto simp: parse_value.simps(2) split: list.splits)
  from skip_ws_Cons [OF ws] have len: "length cs < length s" .
  from assms(3) consider (str) x where "lex_string cs = Some (x, r)"
    | (empty) e where "skip_ws cs = e # r"
    | (obj) e ds ms where "skip_ws cs = e # ds" "parse_members f (d - 1) (e # ds) = Some (ms, r)"
    | (arr) e ds vs where "skip_ws cs = e # ds" "parse_elems f (d - 1) (e # ds) = Some (vs, r)"
    | (word) n where "r = drop n cs"
    | (num) n where "lex_number (c # cs) = Some (n, r)"
    by (auto simp: ws parse_value.simps(2) split: if_splits list.splits)
  then show ?thesis
  proof cases
    case str
    with lex_string_shorter len show ?thesis by fastforce
  next
    case empty
    with skip_ws_Cons len show ?thesis by fastforce
  next
    case obj
    with assms(2) skip_ws_length [of cs] len show ?thesis by fastforce
  next
    case arr
    with assms(1) skip_ws_length [of cs] len show ?thesis by fastforce
  next
    case word
    with len show ?thesis by simp
  next
    case num
    with lex_number_shorter len show ?thesis by fastforce
  qed
qed

lemma parse_elems_Suc_shorter:
  assumes "\<And>s v r. parse_value f d s = Some (v, r) \<Longrightarrow> length r < length s"
    and "\<And>s vs r. parse_elems f d s = Some (vs, r) \<Longrightarrow> length r < length s"
    and "parse_elems (Suc f) d s = Some (vs, r)"
  shows "length r < length s"
proof -
  from assms(3) obtain v r1 c cs where v: "parse_value f d s = Some (v, r1)" and ws: "skip_ws r1 = c # cs"
    and rest: "r = cs \<or> (\<exists>us. parse_elems f d cs = Some (us, r))"
    by (auto simp: parse_elems.simps(2) split: option.splits list.splits if_splits)
  from assms(1) [OF v] skip_ws_Cons [OF ws] rest assms(2) [of cs] show ?thesis by fastforce
qed

lemma parse_members_Suc_shorter:
  assumes "\<And>s v r. parse_value f d s = Some (v, r) \<Longrightarrow> length r < length s"
    and "\<And>s ms r. parse_members f d s = Some (ms, r) \<Longrightarrow> length r < length s"
    and "parse_members (Suc f) d s = Some (ms, r)"
  shows "length r < length s"
proof -
  from assms(3) obtain q qs k r1 c cs v r2 e es where s: "skip_ws s = q # qs" and k: "lex_string qs = Some (k, r1)"
    and c: "skip_ws r1 = c # cs" and v: "parse_value f d cs = Some (v, r2)" and e: "skip_ws r2 = e # es"
    and rest: "r = es \<or> (\<exists>us. parse_members f d es = Some (us, r))"
    by (auto simp: parse_members.simps(2) split: option.splits list.splits if_splits)
  from skip_ws_Cons [OF s] lex_string_shorter [OF k] skip_ws_Cons [OF c] assms(1) [OF v] skip_ws_Cons [OF e] rest assms(2) [of es]
  show ?thesis by fastforce
qed

lemma parse_shorter:
  "(parse_value f d s = Some (v, r) \<longrightarrow> length r < length s) \<and>
   (parse_elems f d s = Some (vs, r) \<longrightarrow> length r < length s) \<and>
   (parse_members f d s = Some (ms, r) \<longrightarrow> length r < length s)"
proof (induction f arbitrary: d s v vs ms r)
  case (Suc f)
  show ?case
    using parse_value_Suc_shorter [of f d s v r] parse_elems_Suc_shorter [of f d s vs r]
      parse_members_Suc_shorter [of f d s ms r] Suc.IH by blast
qed (simp add: parse_value.simps parse_elems.simps parse_members.simps)

lemma parse_value_shorter: "parse_value f d s = Some (v, r) \<Longrightarrow> length r < length s"
  using parse_shorter by blast

text \<open>
  Fuel above twice the length of the text does not change the answer: \<open>enough f\<close> says so for
  fuel \<open>f\<close> and texts it is enough for.
\<close>

definition enough :: "nat \<Rightarrow> bool" where
  "enough f \<longleftrightarrow> (\<forall>d s.
     (2 * length s + 1 \<le> f \<longrightarrow> parse_value (Suc f) d s = parse_value f d s) \<and>
     (2 * length s + 2 \<le> f \<longrightarrow> parse_elems (Suc f) d s = parse_elems f d s \<and>
        parse_members (Suc f) d s = parse_members f d s))"

lemma enoughD:
  assumes "enough f"
  shows "2 * length s + 1 \<le> f \<Longrightarrow> parse_value (Suc f) d s = parse_value f d s"
    and "2 * length s + 2 \<le> f \<Longrightarrow> parse_elems (Suc f) d s = parse_elems f d s"
    and "2 * length s + 2 \<le> f \<Longrightarrow> parse_members (Suc f) d s = parse_members f d s"
  using assms by (simp_all add: enough_def)

lemma parse_value_enough:
  assumes "enough f" and len: "2 * length s + 1 \<le> Suc f"
  shows "parse_value (Suc (Suc f)) d s = parse_value (Suc f) d s"
proof (cases "skip_ws s")
  case (Cons c cs)
  have inner: "parse_members (Suc f) (d - 1) (e # ds) = parse_members f (d - 1) (e # ds)"
    "parse_elems (Suc f) (d - 1) (e # ds) = parse_elems f (d - 1) (e # ds)" if "skip_ws cs = e # ds" for e ds
    using enoughD(2,3) [OF assms(1), of "e # ds" "d - 1"] skip_ws_length [of cs] skip_ws_Cons [OF Cons] that len by auto
  show ?thesis unfolding parse_value.simps(2) [of "Suc f"] parse_value.simps(2) [of f] Cons
    by (cases "skip_ws cs") (simp_all add: inner del: One_nat_def)
qed (simp add: parse_value.simps)

lemma parse_elems_enough:
  assumes "enough f" and len: "2 * length s + 2 \<le> Suc f"
  shows "parse_elems (Suc (Suc f)) d s = parse_elems (Suc f) d s"
proof -
  have eq: "parse_value (Suc f) d s = parse_value f d s" using enoughD(1) [OF assms(1)] len by simp
  have "parse_elems (Suc f) d cs = parse_elems f d cs" if "parse_value f d s = Some (v, r)" "skip_ws r = c # cs" for v r c cs
    using enoughD(2) [OF assms(1), of cs d] skip_ws_Cons [OF that(2)] parse_value_shorter [OF that(1)] len by auto
  then show ?thesis unfolding parse_elems.simps(2) [of "Suc f"] parse_elems.simps(2) [of f] eq
    by (auto split: list.splits option.splits)
qed

lemma parse_members_enough:
  assumes "enough f" and len: "2 * length s + 2 \<le> Suc f"
  shows "parse_members (Suc (Suc f)) d s = parse_members (Suc f) d s"
proof (cases "\<exists>q qs k r1 c cs. skip_ws s = q # qs \<and> lex_string qs = Some (k, r1) \<and> skip_ws r1 = c # cs")
  case True
  then obtain q qs k r1 c cs where pre: "skip_ws s = q # qs" "lex_string qs = Some (k, r1)" "skip_ws r1 = c # cs" by blast
  have cs: "length cs < length s"
    using skip_ws_Cons [OF pre(1)] lex_string_shorter [OF pre(2)] skip_ws_Cons [OF pre(3)] by simp
  then have eq: "parse_value (Suc f) d cs = parse_value f d cs" using enoughD(1) [OF assms(1), of cs d] len by simp
  have "parse_members (Suc f) d es = parse_members f d es" if "parse_value f d cs = Some (v, r2)" "skip_ws r2 = e # es" for v r2 e es
    using enoughD(3) [OF assms(1), of es d] parse_value_shorter [OF that(1)] skip_ws_Cons [OF that(2)] cs len by auto
  then show ?thesis
    unfolding parse_members.simps(2) [of "Suc f"] parse_members.simps(2) [of f] pre list.case option.case prod.case eq
    by (auto split: option.splits list.splits)
next
  case False
  then consider "skip_ws s = []" | q qs where "skip_ws s = q # qs" "lex_string qs = None"
    | q qs k r1 where "skip_ws s = q # qs" "lex_string qs = Some (k, r1)" "skip_ws r1 = []"
    by (metis list.exhaust option.exhaust surj_pair)
  then show ?thesis by cases (simp_all add: parse_members.simps(2) [of "Suc f"] parse_members.simps(2) [of f])
qed

lemma enough_fuel: "enough f"
proof (induction f)
  case (Suc f)
  then show ?case unfolding enough_def [of "Suc f"]
    by (simp add: parse_value_enough parse_elems_enough parse_members_enough del: One_nat_def)
qed (simp add: enough_def)

text \<open>Any fuel from that of \<open>parse_json\<close> on gives its answer: running out of fuel is no error of its own.\<close>

lemma parse_json_fuel:
  assumes "2 * length s + 2 \<le> f"
  shows "parse_json s = (case parse_value f maxNestingDepth s of
    Some (v, r) \<Rightarrow> if skip_ws r = [] then Some v else None | None \<Rightarrow> None)"
proof -
  have "parse_value (2 * length s + 2 + n) maxNestingDepth s = parse_value (2 * length s + 2) maxNestingDepth s" for n
  proof (induction n)
    case (Suc n)
    with enoughD(1) [OF enough_fuel, of s "2 * length s + 2 + n" maxNestingDepth] show ?case by simp
  qed simp
  moreover obtain n where "f = 2 * length s + 2 + n" using assms le_Suc_ex by blast
  ultimately show ?thesis by (simp only: parse_json_def)
qed

end
