(* ===== verification/Spec2Isabelle.thy ===== *)
theory Spec2Isabelle
  imports Main_Program Key_Mutex Storage_Refinement Volume_Labels Node_Refinement Lifecycle Unmarshal_Map Kube_Helpers Json_Fuel
begin

text \<open>
  Verification of the CSI driver for SMTX ELF (the Go sources under \<open>src/\<close>).

  \<^bold>\<open>The program.\<close>  A CSI driver runs in two roles.  The controller (\<open>pkg/driver/controller.go\<close>)
  creates and deletes volumes on the storage platform CloudTower and attaches them to virtual
  machines; the node plugin (\<open>pkg/driver/node.go\<close>) finds the block device of an attached volume,
  formats, mounts, unmounts and grows it.  A node registers its address in a Kubernetes ConfigMap
  (\<open>pkg/driver/node_map.go\<close>) and runs a liveness service (\<open>liveness.go\<close>); before it publishes a
  volume to a node the controller looks the address up and asks that service.  \<open>driver.go\<close>
  assembles the services by role, \<open>cmd/csi-driver/main.go\<close> configures and starts them.
  \<open>pkg/utils\<close> has the mounter, the resizer, the retry loop, a decoder of string maps and small
  helpers.

  \<^bold>\<open>The model.\<close>  A Go function with effects is a function from a \<open>world\<close> to an outcome and a
  world (\<open>Go_Runtime\<close>): it returns (\<open>Ret\<close>), returns an error (\<open>Fail\<close>, with code, format and
  arguments), panics (\<open>Panic\<close>: nil dereference, index out of range) or never returns
  (\<open>Diverge\<close>).  The world holds the state of everything outside the program, of an arbitrary
  type, and the trace of the external calls with their arguments.  CloudTower, the ConfigMap
  client, the operating system, \<open>k8s.io/utils/mount\<close> and the client constructors are records of
  functions, parameters of the definitions; what a theorem needs of them is a named hypothesis
  (\<open>platform_ok\<close> with \<open>tower_wf\<close> and \<open>clock_contract\<close> in \<open>Controller\<close> and \<open>Controller_Correct\<close>,
  \<open>configmap_contract\<close> in \<open>Node_Map\<close>, \<open>attach_contract\<close> and \<open>path_contract\<close> in
  \<open>Attachment\<close>, \<open>label_contract\<close> in \<open>Volume_Labels\<close>, \<open>storage_contract\<close> in \<open>Storage_Refinement\<close>,
  \<open>mount_table\<close> in \<open>Node_Refinement\<close>, \<open>kube_up\<close>, \<open>tower_up\<close>, \<open>can_listen\<close> and \<open>node_up\<close> in
  \<open>Main_Program\<close>), and \<open>Demo_Services\<close> has one concrete instance on which the witnesses run.  Sizes are 64-bit words, Go strings are
  byte strings.

  \<^bold>\<open>Theories and sources.\<close>
  \<^item> \<open>Prelude\<close>: collections of rules, lemmas on lists and words.
  \<^item> \<open>Go_Strings\<close>, \<open>Strconv\<close>, \<open>Json_Codec\<close>, \<open>Json_Fuel\<close>, \<open>Go_Url\<close>: what the driver uses of \<open>strings\<close>,
    \<open>path/filepath\<close>, \<open>strconv\<close>, \<open>encoding/json\<close> and \<open>net/url\<close>; \<open>u_ToLower\<close> and its siblings stand
    for the Unicode tables and are used beyond ASCII only.
  \<^item> \<open>Api_Types\<close>, \<open>Go_Runtime\<close>, \<open>Go_Logic\<close>: messages of CSI and CloudTower, effects, and the rules
    for them: \<open>emits\<close> (which calls a function makes), \<open>starts\<close> (which call comes first), \<open>at_most\<close> (how often), \<open>yields\<close> (it returns
    or fails), \<open>returns\<close> (what its value satisfies), and loops by rounds.
  \<^item> \<open>State_Logic\<close>: rules for what a function does to a view of the outside: \<open>tells\<close> (it reads),
    \<open>does\<close> (it applies an operation, or fails), \<open>sure\<close> (it returns in every world).
  \<^item> \<open>Driver_Utils\<close>: \<open>pkg/driver/utils.go\<close> and the tables of \<open>driver.go\<close>.  Size rounding, capability
    and sharing checks are characterised on every input.
  \<^item> \<open>Retry\<close>, \<open>Resizer\<close>, \<open>Mount_Utils\<close>: \<open>pkg/utils/utils.go\<close>, \<open>resizer.go\<close>, \<open>mount.go\<close>; the locales
    \<open>retriable\<close>, \<open>resizer_contract\<close>, \<open>mount_contract\<close> are their interfaces, interpreted by the real
    and the fake implementations.
  \<^item> \<open>Node_Map\<close>: \<open>node_map.go\<close>; the locale \<open>kv_store\<close> is the registry's specification, the
    ConfigMap data its implementation.
  \<^item> \<open>Driver_Config\<close>: the configuration and the requests to CloudTower.
  \<^item> \<open>Controller\<close>, \<open>Controller_Correct\<close>: \<open>controller.go\<close>, every method, and its properties.
  \<^item> \<open>Attachment\<close>: publishing and unpublishing against the platform's table of attached volumes:
    a success means the effect, and a second publish changes nothing.
  \<^item> \<open>Volume_Labels\<close>: the labels of created volumes against the platform's table of labels: a
    success means that the volume carries the cluster's.
  \<^item> \<open>Storage_Spec\<close>, \<open>Storage_Refinement\<close>: an abstract store of volumes and attachments, its steps
    and their invariant (names and identifiers determine each other, only existing volumes are
    attached), and the proof that any sequence of controller calls, each answered or refused before
    it asked for a change, runs through these steps.  How many machines a volume is attached to is
    left to the platform.
  \<^item> \<open>Key_Mutex\<close>: concurrent publish and unpublish calls over the hashed key mutex, as a step
    relation; mutual exclusion and absence of deadlock by an invariant.
  \<^item> \<open>Node_Server\<close>, \<open>Node_Correct\<close>: \<open>node.go\<close>, every method, and its properties.
  \<^item> \<open>Node_Refinement\<close>: any history of node calls against the abstract table of mount points; the
    last call on a path decides.
  \<^item> \<open>Rpc_Handler\<close>: the locale \<open>rpc_handler\<close> of a method whose guards reject a request before any
    effect, interpreted for eleven methods of both services; the locale \<open>rpc_guards\<close>, which
    extends it by the first call of a request that passes, makes the guards exact.
  \<^item> \<open>Driver_Server\<close>, \<open>Flag_Parse\<close>, \<open>Main_Program\<close>: \<open>driver.go\<close>, \<open>identity.go\<close>, \<open>liveness.go\<close>,
    \<open>makeListener\<close>, \<open>main.go\<close>: the command line with package \<open>flag\<close>, the configuration and the
    order of the start, which succeeds when the services around it answer.
  \<^item> \<open>Lifecycle\<close>: the goroutines of \<open>main.go\<close>, \<open>driver.go\<close> and \<open>liveness.go\<close> (signal, \<open>stop\<close>, liveness
    listener, profiling loop) as step relations, interleaved with \<open>Run\<close>; the end on a signal.
  \<^item> \<open>Unmarshal_Map\<close>, \<open>Kube_Helpers\<close>: \<open>unmarshal_map.go\<close>, \<open>exec.go\<close>, \<open>kutils.go\<close>, \<open>kconfigmap.go\<close>.
  \<^item> This theory: the agreement of a node's registration, its liveness address and the address the
    controller dials.

  \<^bold>\<open>Bounds and fuel.\<close>  \<open>waitTask\<close> is an unbounded Go loop; it is modelled by a partial function
  whose divergence is the outcome \<open>Diverge\<close>, and it is shown to end after at most 121 queries when
  time passes (ten minutes at five seconds).  \<open>Retry\<close> is structural in the attempts left (5 for a
  registration, 15 for a resize).  The JSON parser has fuel twice the length of the text plus two,
  which \<open>Json_Fuel\<close> proves to be enough, and Go's own limit of 10000 levels.

  \<^bold>\<open>Not modelled.\<close>  Log output (except in the interceptor), contexts and their deadlines (a command
  that runs out of time is one that fails), the pages of the profiling server and the flags of klog,
  the accept loop of the liveness service, \<open>StructTag.Get\<close> and \<open>strconv.ParseFloat\<close>, the mutex of the
  fake mounter, the fake ConfigMap client, and the test support under \<open>pkg/testing\<close> and \<open>tests\<close>.
\<close>

section \<open>The node map between a node and the controller\<close>

lemma canPublishToNode_dials: "\<exists>evs. trace (snd (canPublishToNode os a w)) = trace w @ EvDial a # evs"
proof -
  have "\<exists>es. trace (snd (canPublishToNode os a w)) = trace w @ [EvDial a] @ es"
    unfolding canPublishToNode_def
    by (rule bindE_extends, intro emits_rules TrueI)
       (simp add: wrapE_def callE_def split: prod.splits)
  then show ?thesis by simp
qed

lemma host_chars_utf8: "list_all host_char s \<Longrightarrow> valid_utf8 s"
  by (induction s) (auto simp: host_char_def is_digit_def is_lower_def is_upper_def)

lemma publish_dials:
  assumes "Get (cfg_NodeMap c) (cpub_NodeId req) w = (Ret e, w1)" and "\<not> publish_invalid req"
  shows "\<exists>evs. trace (snd (ControllerPublishVolume os c req w)) = trace w1 @ EvDial (nodeAddress e) # evs"
proof -
  let ?a = "nodeAddress e"
  from canPublishToNode_dials obtain evs where "trace (snd (canPublishToNode os ?a w1)) = trace w1 @ EvDial ?a # evs" by blast
  then have "\<exists>es. trace (snd (bindE (canPublishToNode os ?a) (\<lambda>_. bindE (emitE (EvLockKey (cpub_NodeId req))) (\<lambda>_.
      deferE (emitE (EvUnlockKey (cpub_NodeId req)))
        (publishVolumeToVm os c (cpub_VolumeId req) (cpub_NodeId req)))) w1)) = trace w1 @ (EvDial ?a # evs) @ es"
    by (intro bindE_extends emits_rules TrueI)
  with assms show ?thesis
    by (auto simp: ControllerPublishVolume_def publish_invalid_def Let_def bindE_step)
qed

text \<open>
  C15: The controller dials the address the node listens on.  Let a node, with a \<open>NODE_IP\<close> that is
  a host name or an IPv4 address and the same when it registers and when its liveness server
  starts, and with a liveness port that is not negative, have registered itself over a ConfigMap
  client that keeps the contract of the API.  (With the flag's default, -1, a node registers too,
  but its liveness server does not listen: that case is not covered.)  Then its liveness
  server listens on TCP at that IP and port; and a valid publish request for the node, to a
  controller with the same node map, which can read the map and finds it as the node left it,
  makes the controller dial that address next after the read.
\<close>

theorem publish_dials_liveness_server:
  fixes c nc :: "'w DriverConfig"
  assumes "configmap_contract (nm_client (cfg_NodeMap nc)) view later"
    and "registerNodeEntry nos nc w = (Ret (), w1)"
    and "os_LookupEnv nos ''NODE_IP'' (ext w) = Some ip" and "os_LookupEnv nos ''NODE_IP'' (ext w1) = Some ip"
    and "list_all host_char ip" and "0 \<le> cfg_LivenessPort nc" and "cfg_LivenessPort nc < 2 ^ 63"
    and "cfg_NodeMap c = cfg_NodeMap nc" and "\<not> publish_invalid req" and "cpub_NodeId req = NodeID nc"
    and "view (ext w2) (nm_name (cfg_NodeMap nc)) = view (ext w1) (nm_name (cfg_NodeMap nc))"
    and "cm_Get (nm_client (cfg_NodeMap nc)) (nm_name (cfg_NodeMap nc)) (ext w2) = (Inr cm, x)"
  shows "\<exists>addr evs. addr = ip @ '':'' @ itoa (cfg_LivenessPort nc) \<and>
    trace (snd (NodeLivenessServer_Run nos nc w1)) = trace w1 @ [EvLookupEnv ''NODE_IP'', EvListen ''tcp'' addr] \<and>
    trace (snd (ControllerPublishVolume os c req w2)) = trace w2 @ EvConfigMapGet (nm_name (cfg_NodeMap c)) # EvDial addr # evs"
proof -
  let ?e = "registeredEntry nc ip"
  have "valid_utf8 ip" using assms(5) by (rule host_chars_utf8)
  then have ok: "entry_ok ?e" using assms(6,7) by (simp add: entry_ok_def registeredEntry_def)
  have stored: "entry_stored view (cfg_NodeMap nc) (NodeID nc) ?e w1"
    using assms(3) by (rule_tac register_stored [OF assms(1,2)]) simp
  with assms(11) contract_get [OF assms(1,12)] have "entries cm (NodeID nc) = Some (MarshalNodeEntry ?e)"
    by (auto simp: entry_stored_def)
  then have get: "Get (cfg_NodeMap c) (cpub_NodeId req) w2 =
      (Ret ?e, w2\<lparr>ext := x, trace := trace w2 @ [EvConfigMapGet (nm_name (cfg_NodeMap c))]\<rparr>)"
    using assms(8,10,12) ok by (intro Get_run) simp_all
  show ?thesis
    using publish_dials [OF get assms(9), of os] liveness_listens [OF assms(4-6)]
    by (fastforce simp: nodeAddress_def registeredEntry_def)
qed

theorem publish_dials_liveness_server_witness:
  "\<exists>w1 addr evs. registerNodeEntry demo_os demo_config demo_world = (Ret (), w1) \<and> addr = ''10.0.0.1:'' @ itoa 10103 \<and>
     trace (snd (NodeLivenessServer_Run demo_os demo_config w1)) = trace w1 @ [EvLookupEnv ''NODE_IP'', EvListen ''tcp'' addr] \<and>
     trace (snd (ControllerPublishVolume demo_os demo_config demo_publish w1)) = trace w1 @ EvConfigMapGet ''nodes'' # EvDial addr # evs"
proof -
  obtain w1 where reg: "registerNodeEntry demo_os demo_config demo_world = (Ret (), w1)"
    by (rule demo_register [of demo_world]) (simp_all add: demo_world_def)
  have ip: "list_all host_char ''10.0.0.1''" by (simp add: host_char_def is_digit_def is_lower_def is_upper_def)
  have req: "\<not> publish_invalid demo_publish" "cpub_NodeId demo_publish = ''node-1''"
    by (simp_all add: publish_invalid_def demo_publish_def)
  have "\<exists>addr evs. addr = ''10.0.0.1'' @ '':'' @ itoa (cfg_LivenessPort demo_config) \<and>
    trace (snd (NodeLivenessServer_Run demo_os demo_config w1)) =
      trace w1 @ [EvLookupEnv ''NODE_IP'', EvListen ''tcp'' addr] \<and>
    trace (snd (ControllerPublishVolume demo_os demo_config demo_publish w1)) =
      trace w1 @ EvConfigMapGet (nm_name (cfg_NodeMap demo_config)) # EvDial addr # evs"
    by (rule publish_dials_liveness_server [of demo_config "\<lambda>x n. Some (d_cm x)" demo_later demo_os demo_world w1
          "''10.0.0.1''" demo_config demo_publish w1 "d_cm (ext w1)" "ext w1" demo_os])
       (use reg ip req demo_contract in \<open>simp_all add: NewNodeMap_def\<close>)
  moreover have "cfg_LivenessPort demo_config = 10103" by (simp add: demo_config_def)
  ultimately show ?thesis using reg by (simp add: NewNodeMap_def)
qed

end
